(* ===== verification/Voom_Prelude.thy ===== *)
theory Voom_Prelude
  imports Main "HOL-Library.Product_Lexorder" "HOL-Library.Multiset"
begin

text \<open>
  Shared ground of the development: JSON values, tables of rows with the SQL statements the
  store issues on them, and the generic interfaces (locales) that several components interpret:
  wire vocabularies, lifecycles with absorbing terminal states, inductive invariants and the
  choice of a best candidate.
\<close>

named_theorems sql_simps \<open>rewriting of table operations\<close>
named_theorems vocab_simps \<open>definitions of wire vocabularies\<close>

section \<open>Strings\<close>

text \<open>\<^verbatim>\<open>str::strip_prefix\<close>.\<close>

definition strip_prefix :: "string \<Rightarrow> string \<Rightarrow> string option" where
  "strip_prefix p s = (if take (length p) s = p then Some (drop (length p) s) else None)"

lemma strip_prefix_append [simp]: "strip_prefix p (p @ s) = Some s"
  by (simp add: strip_prefix_def)

lemma strip_prefix_Some: "strip_prefix p s = Some r \<longleftrightarrow> s = p @ r"
  by (auto simp: strip_prefix_def) (metis append_take_drop_id)

text \<open>Decimal rendering of an integer id, as \<^verbatim>\<open>format!\<close> prints it.\<close>

fun show_nat :: "nat \<Rightarrow> string" where
  "show_nat n = (if n < 10 then [char_of (48 + n)]
     else show_nat (n div 10) @ [char_of (48 + n mod 10)])"

declare show_nat.simps [simp del]

definition read_nat :: "string \<Rightarrow> nat" where
  "read_nat s = foldl (\<lambda>a c. a * 10 + (of_char c - 48)) 0 s"

lemma read_show_nat: "read_nat (show_nat n) = n"
proof (induction n rule: show_nat.induct)
  case (1 n)
  show ?case
  proof (cases "n < 10")
    case True
    then show ?thesis by (subst show_nat.simps) (simp add: read_nat_def)
  next
    case False
    have "read_nat (show_nat (n div 10) @ [char_of (48 + n mod 10)]) = (n div 10) * 10 + n mod 10"
      using 1 [OF False] by (simp add: read_nat_def)
    then show ?thesis using False by (subst show_nat.simps) simp
  qed
qed

lemma show_nat_inj: "show_nat m = show_nat n \<longleftrightarrow> m = n"
  using read_show_nat by metis

section \<open>JSON values\<close>

text \<open>
  \<^verbatim>\<open>serde_json::Value\<close> with integer numbers; an object is an association list with distinct
  keys. \<open>json_get\<close> is \<^verbatim>\<open>Value::get\<close>, \<open>json_index\<close> the indexing operator
  \<^verbatim>\<open>value["key"]\<close>, and \<open>json_extract\<close> is SQLite's function of that name for a path of
  object keys, with SQL NULL as \<open>None\<close>.
\<close>

datatype json =
    JNull | JBool bool | JInt int | JString string
  | JArray "json list" | JObject "(string \<times> json) list"

definition json_get :: "json \<Rightarrow> string \<Rightarrow> json option" where
  "json_get v k = (case v of JObject kvs \<Rightarrow> map_of kvs k | _ \<Rightarrow> None)"

definition json_index :: "json \<Rightarrow> string \<Rightarrow> json" where
  "json_index v k = (case json_get v k of Some x \<Rightarrow> x | None \<Rightarrow> JNull)"

fun json_path :: "string list \<Rightarrow> json \<Rightarrow> json option" where
  "json_path [] v = Some v"
| "json_path (k # ks) v = (case json_get v k of None \<Rightarrow> None | Some x \<Rightarrow> json_path ks x)"

definition json_extract :: "json \<Rightarrow> string list \<Rightarrow> json option" where
  "json_extract v ks = (case json_path ks v of Some JNull \<Rightarrow> None | r \<Rightarrow> r)"

fun as_str_json :: "json \<Rightarrow> string option" where
  "as_str_json (JString s) = Some s"
| "as_str_json _ = None"

fun as_array_json :: "json \<Rightarrow> json list option" where
  "as_array_json (JArray xs) = Some xs"
| "as_array_json _ = None"

fun as_u64_json :: "json \<Rightarrow> nat option" where
  "as_u64_json (JInt n) = (if 0 \<le> n \<and> n < 2 ^ 64 then Some (nat n) else None)"
| "as_u64_json _ = None"

section \<open>Tables of rows\<close>

text \<open>
  A table is the list of its rows; \<open>find\<close> is \<^verbatim>\<open>fetch_optional\<close>, \<open>filter\<close> a
  \<^verbatim>\<open>SELECT ... WHERE\<close>, \<open>rows_matching\<close> a \<^verbatim>\<open>COUNT\<close> or \<^verbatim>\<open>rows_affected\<close>,
  \<open>update_where\<close> an \<^verbatim>\<open>UPDATE ... WHERE\<close>, \<open>take\<close> a \<^verbatim>\<open>LIMIT\<close>, and an
  \<^verbatim>\<open>ORDER BY\<close> is \<open>sort_key\<close>. \<open>next_rowid\<close> is what SQLite documents for an
  \<^verbatim>\<open>INTEGER PRIMARY KEY\<close> left out of an insert: one more than the largest in use.
\<close>

definition update_where :: "('r \<Rightarrow> bool) \<Rightarrow> ('r \<Rightarrow> 'r) \<Rightarrow> 'r list \<Rightarrow> 'r list" where
  "update_where p f rows = map (\<lambda>r. if p r then f r else r) rows"

definition rows_matching :: "('r \<Rightarrow> bool) \<Rightarrow> 'r list \<Rightarrow> nat" where
  "rows_matching p rows = length (filter p rows)"

definition next_rowid :: "('r \<Rightarrow> nat) \<Rightarrow> 'r list \<Rightarrow> nat" where
  "next_rowid key rows = Suc (foldr max (map key rows) 0)"

definition wf_table :: "('r \<Rightarrow> nat) \<Rightarrow> 'r list \<Rightarrow> bool" where
  "wf_table key rows \<longleftrightarrow> sorted_wrt (<) (map key rows)"

lemma update_where_Nil [simp]: "update_where p f [] = []"
  by (simp add: update_where_def)

lemma update_where_Cons [simp]:
  "update_where p f (r # rows) = (if p r then f r else r) # update_where p f rows"
  by (simp add: update_where_def)

lemma length_update_where [simp]: "length (update_where p f rows) = length rows"
  by (simp add: update_where_def)

lemma in_update_where [sql_simps]:
  "x \<in> set (update_where p f rows) \<longleftrightarrow> (\<exists>r \<in> set rows. x = (if p r then f r else r))"
  by (auto simp: update_where_def image_iff)

lemma update_where_keep:
  "(\<And>r. r \<in> set rows \<Longrightarrow> p r \<Longrightarrow> g (f r) = g r) \<Longrightarrow> map g (update_where p f rows) = map g rows"
  by (simp add: update_where_def)

lemma update_where_none: "(\<And>r. r \<in> set rows \<Longrightarrow> \<not> p r) \<Longrightarrow> update_where p f rows = rows"
  by (induction rows) auto

lemma filter_update_where_keep:
  "(\<And>r. r \<in> set rows \<Longrightarrow> p r \<Longrightarrow> q (f r) = q r) \<Longrightarrow>
   length (filter q (update_where p f rows)) = length (filter q rows)"
  by (induction rows) auto

lemma wf_table_Nil [simp]: "wf_table key []"
  by (simp add: wf_table_def)

lemma wf_table_update:
  "wf_table key rows \<Longrightarrow> (\<And>r. key (f r) = key r) \<Longrightarrow> wf_table key (update_where p f rows)"
  by (simp add: wf_table_def update_where_keep)

lemma wf_table_distinct: "wf_table key rows \<Longrightarrow> distinct (map key rows)"
  by (simp add: wf_table_def strict_sorted_iff)

lemma wf_table_inj: "wf_table key rows \<Longrightarrow> inj_on key (set rows)"
  using wf_table_distinct distinct_map by blast

lemma wf_table_same:
  "wf_table key rows \<Longrightarrow> x \<in> set rows \<Longrightarrow> y \<in> set rows \<Longrightarrow> key x = key y \<Longrightarrow> x = y"
  by (meson inj_onD wf_table_inj)

lemma wf_table_filter: "wf_table key rows \<Longrightarrow> wf_table key (filter p rows)"
  by (auto simp: wf_table_def sorted_wrt_map intro: sorted_wrt_filter)

lemma wf_table_sort_key: "wf_table key rows \<Longrightarrow> sort_key key rows = rows"
  by (simp add: wf_table_def strict_sorted_iff sorted_sort_id sort_key_id_if_sorted)

lemma next_rowid_fresh: "r \<in> set rows \<Longrightarrow> key r < next_rowid key rows"
proof (induction rows)
  case (Cons a rows)
  then show ?case by (auto simp: next_rowid_def less_Suc_eq_le le_max_iff_disj)
qed simp

lemma next_rowid_pos [simp]: "0 < next_rowid key rows"
  by (simp add: next_rowid_def)

lemma wf_table_insert:
  "wf_table key rows \<Longrightarrow> key r = next_rowid key rows \<Longrightarrow> wf_table key (rows @ [r])"
  using next_rowid_fresh [of _ rows key] by (auto simp: wf_table_def sorted_wrt_append)

lemma find_Some_in: "find p rows = Some r \<Longrightarrow> r \<in> set rows \<and> p r"
  by (auto simp: find_Some_iff)

lemma find_key:
  assumes "wf_table key rows"
  shows "find (\<lambda>r. key r = k \<and> q r) rows = Some r \<longleftrightarrow> r \<in> set rows \<and> key r = k \<and> q r"
proof
  assume r: "r \<in> set rows \<and> key r = k \<and> q r"
  then obtain r' where r': "find (\<lambda>r. key r = k \<and> q r) rows = Some r'"
    by (metis (mono_tags, lifting) find_None_iff option.exhaust)
  from find_Some_in [OF r'] r have "r' = r"
    by (intro wf_table_same [OF assms]) auto
  with r' show "find (\<lambda>r. key r = k \<and> q r) rows = Some r" by simp
qed (auto dest: find_Some_in)

lemma find_id:
  assumes "wf_table key rows"
  shows "find (\<lambda>r. key r = k) rows = Some r \<longleftrightarrow> r \<in> set rows \<and> key r = k"
  using find_key [OF assms, of k "\<lambda>_. True" r] by simp

lemma find_key_None:
  "find (\<lambda>r. key r = k \<and> q r) rows = None \<longleftrightarrow> (\<forall>r \<in> set rows. key r = k \<longrightarrow> \<not> q r)"
  by (auto simp: find_None_iff)

lemma rows_matching_0 [simp]: "rows_matching p rows = 0 \<longleftrightarrow> (\<forall>r \<in> set rows. \<not> p r)"
  by (auto simp: rows_matching_def filter_empty_conv)

lemma rows_matching_key:
  assumes "wf_table key rows"
  shows "rows_matching (\<lambda>r. key r = k \<and> q r) rows =
    (if \<exists>r \<in> set rows. key r = k \<and> q r then 1 else 0)"
proof (cases "\<exists>r \<in> set rows. key r = k \<and> q r")
  case True
  then obtain r where r: "r \<in> set rows" "key r = k" "q r" by blast
  have "distinct (filter (\<lambda>r. key r = k \<and> q r) rows)"
    using wf_table_distinct [OF assms] by (simp add: distinct_map)
  moreover have "set (filter (\<lambda>r. key r = k \<and> q r) rows) = {r}"
    using r wf_table_same [OF assms] by auto
  ultimately have "length (filter (\<lambda>r. key r = k \<and> q r) rows) = 1"
    by (metis distinct_card card_1_singleton_iff One_nat_def)
  with True show ?thesis by (simp add: rows_matching_def)
next
  case False
  then have "rows_matching (\<lambda>r. key r = k \<and> q r) rows = 0"
    unfolding rows_matching_0 by blast
  with False show ?thesis by presburger
qed

text \<open>A table read as a map from keys to a projection of the rows.\<close>

definition table_map :: "('r \<Rightarrow> nat) \<Rightarrow> ('r \<Rightarrow> 'a) \<Rightarrow> 'r list \<Rightarrow> nat \<rightharpoonup> 'a" where
  "table_map key f rows = map_of (map (\<lambda>r. (key r, f r)) rows)"

lemma table_map_Nil [simp]: "table_map key f [] = Map.empty"
  by (simp add: table_map_def)

lemma table_map_Some:
  assumes "wf_table key rows"
  shows "table_map key f rows k = Some a \<longleftrightarrow> (\<exists>r \<in> set rows. key r = k \<and> f r = a)"
proof -
  have "distinct (map fst (map (\<lambda>r. (key r, f r)) rows))"
    using wf_table_distinct [OF assms] by (simp add: comp_def)
  then have "table_map key f rows k = Some a \<longleftrightarrow> (k, a) \<in> set (map (\<lambda>r. (key r, f r)) rows)"
    unfolding table_map_def by (rule map_of_eq_Some_iff)
  then show ?thesis by force
qed

lemma table_map_None: "table_map key f rows k = None \<longleftrightarrow> (\<forall>r \<in> set rows. key r \<noteq> k)"
  by (simp add: table_map_def map_of_eq_None_iff image_image image_iff) blast

lemma table_map_insert:
  assumes "\<forall>x \<in> set rows. key x \<noteq> key r"
  shows "table_map key f (rows @ [r]) = (table_map key f rows)(key r \<mapsto> f r)"
proof
  fix k
  show "table_map key f (rows @ [r]) k = ((table_map key f rows)(key r \<mapsto> f r)) k"
    using assms table_map_None [of key f rows "key r"]
    by (auto simp: table_map_def map_add_def split: option.splits)
qed

lemma table_map_next_rowid:
  "key r = next_rowid key rows \<Longrightarrow>
     table_map key f (rows @ [r]) = (table_map key f rows)(key r \<mapsto> f r)"
  by (rule table_map_insert) (auto dest: next_rowid_fresh [of _ _ key])

lemma table_map_same:
  "(\<And>r. r \<in> set rows \<Longrightarrow> p r \<Longrightarrow> key (g r) = key r \<and> f (g r) = f r) \<Longrightarrow>
     table_map key f (update_where p g rows) = table_map key f rows"
  by (simp add: table_map_def update_where_keep [of rows p "\<lambda>r. (key r, f r)" g])

lemma option_eqI: "(\<And>a. x = Some a \<longleftrightarrow> y = Some a) \<Longrightarrow> x = y"
  by (cases x; cases y) auto

lemma table_map_update:
  assumes wf: "wf_table key rows" and r: "r \<in> set rows" "key r = k" "q r"
    and key: "\<And>r. key (g r) = key r"
  shows "table_map key f (update_where (\<lambda>r. key r = k \<and> q r) g rows) =
    (table_map key f rows)(k \<mapsto> f (g r))"
proof
  fix i
  let ?rows' = "update_where (\<lambda>r. key r = k \<and> q r) g rows"
  have wf': "wf_table key ?rows'" by (rule wf_table_update [OF wf key])
  have "table_map key f ?rows' i = Some a \<longleftrightarrow> ((table_map key f rows)(k \<mapsto> f (g r))) i = Some a" for a
  proof (cases "i = k")
    case True
    have same: "f x = f (g r)" if x: "x \<in> set ?rows'" "key x = k" for x
    proof -
      from x(1) obtain y where y: "y \<in> set rows" "x = (if key y = k \<and> q y then g y else y)"
        unfolding in_update_where by blast
      then have "key y = k" using x(2) key by (simp split: if_splits)
      then have "y = r" using y(1) r wf_table_same [OF wf] by blast
      then show ?thesis using y(2) r by simp
    qed
    have "g r \<in> set ?rows'"
      unfolding in_update_where using r by (intro bexI [of _ r]) simp_all
    moreover have "key (g r) = k" using r key by simp
    moreover have "f x = a \<Longrightarrow> f (g r) = a" if "x \<in> set ?rows'" "key x = k" for x
      using same [OF that] by metis
    ultimately have "(\<exists>x \<in> set ?rows'. key x = k \<and> f x = a) \<longleftrightarrow> f (g r) = a"
      by metis
    then show ?thesis by (simp add: table_map_Some [OF wf'] True)
  next
    case False
    have "x \<in> set ?rows' \<longleftrightarrow> x \<in> set rows" if "key x = i" for x
    proof
      assume "x \<in> set ?rows'"
      then obtain y where "y \<in> set rows" "x = (if key y = k \<and> q y then g y else y)"
        unfolding in_update_where by blast
      then show "x \<in> set rows" using that False key by (simp split: if_splits)
    next
      assume "x \<in> set rows"
      then show "x \<in> set ?rows'" unfolding in_update_where using that False by (intro bexI [of _ x]) simp_all
    qed
    then have "(\<exists>x \<in> set ?rows'. key x = i \<and> f x = a) \<longleftrightarrow> (\<exists>x \<in> set rows. key x = i \<and> f x = a)"
      by blast
    then show ?thesis
      using False by (simp add: table_map_Some [OF wf'] table_map_Some [OF wf])
  qed
  then show "table_map key f ?rows' i = ((table_map key f rows)(k \<mapsto> f (g r))) i"
    by (rule option_eqI)
qed

section \<open>Keyset pagination\<close>

text \<open>
  The inspection reads \<^verbatim>\<open>list(filter, after_id, limit)\<close>: rows newest first, continuing
  strictly below \<^verbatim>\<open>after_id\<close>. \<open>all_pages\<close> is the client that passes the last id of
  each page to the next call until a page is empty.
\<close>

definition keyset_page ::
  "('r \<Rightarrow> nat) \<Rightarrow> ('r \<Rightarrow> bool) \<Rightarrow> nat option \<Rightarrow> nat \<Rightarrow> 'r list \<Rightarrow> 'r list" where
  "keyset_page key p after limit rows =
     take limit (sort_key (\<lambda>r. - int (key r))
       (filter (\<lambda>r. p r \<and> (case after of None \<Rightarrow> True | Some a \<Rightarrow> key r < a)) rows))"

definition below :: "('r \<Rightarrow> nat) \<Rightarrow> nat option \<Rightarrow> 'r \<Rightarrow> bool" where
  "below key after r = (case after of None \<Rightarrow> True | Some a \<Rightarrow> key r < a)"

lemma keyset_page_in:
  "r \<in> set (keyset_page key p after limit rows) \<Longrightarrow> r \<in> set rows \<and> p r \<and> below key after r"
  by (auto simp: keyset_page_def below_def dest: in_set_takeD)

function all_pages :: "('r \<Rightarrow> nat) \<Rightarrow> ('r \<Rightarrow> bool) \<Rightarrow> nat \<Rightarrow> 'r list \<Rightarrow> nat option \<Rightarrow> 'r list" where
  "all_pages key p limit rows after =
     (let page = keyset_page key p after limit rows in
      if page = [] then [] else page @ all_pages key p limit rows (Some (key (last page))))"
  by pat_completeness auto
termination
proof (relation "measure (\<lambda>(key, p, limit, rows, after). length (filter (below key after) rows))")
  fix key :: "'r \<Rightarrow> nat" and p limit and rows :: "'r list" and after page
  assume page: "page = keyset_page key p after limit rows" "page \<noteq> []"
  let ?x = "last page"
  have x: "?x \<in> set rows" "below key after ?x"
    using keyset_page_in [of ?x key p after limit rows] page by auto
  have sub: "below key (Some (key ?x)) r \<Longrightarrow> below key after r" for r
    using x(2) by (auto simp: below_def split: option.splits)
  have "filter (below key (Some (key ?x))) rows =
      filter (below key (Some (key ?x))) (filter (below key after) rows)"
    using sub by (auto intro!: filter_cong)
  moreover have "length (filter (below key (Some (key ?x))) (filter (below key after) rows)) <
      length (filter (below key after) rows)"
    using x by (intro length_filter_less [of ?x]) (auto simp: below_def)
  ultimately have "length (filter (below key (Some (key ?x))) rows) < length (filter (below key after) rows)"
    by simp
  then show "((key, p, limit, rows, Some (key (last page))), key, p, limit, rows, after)
    \<in> measure (\<lambda>(key, p, limit, rows, after). length (filter (below key after) rows))"
    by simp
qed simp

declare all_pages.simps [simp del]

lemma sort_desc_rev:
  assumes wf: "wf_table key rows"
  shows "sort_key (\<lambda>r. - int (key r)) rows = rev rows"
proof (rule properties_for_sort_key)
  have "sorted_wrt (\<lambda>x y. key x < key y) rows" using wf by (simp add: wf_table_def sorted_wrt_map)
  then have "sorted_wrt (\<lambda>x y. key y < key x) (rev rows)" by (simp add: sorted_wrt_rev)
  then have "sorted_wrt (\<lambda>x y. - int (key x) \<le> - int (key y)) (rev rows)"
    by (rule sorted_wrt_mono_rel [rotated]) simp
  then show "sorted (map (\<lambda>r. - int (key r)) (rev rows))" by (simp add: sorted_wrt_map)
  show "filter (\<lambda>x. - int (key k) = - int (key x)) (rev rows) = filter (\<lambda>x. - int (key k) = - int (key x)) rows"
    for k
  proof -
    have "length (filter (\<lambda>x. key x = key k \<and> True) rows) \<le> 1"
      using rows_matching_key [OF wf, of "key k" "\<lambda>_. True"] by (simp add: rows_matching_def split: if_splits)
    then have "length (filter (\<lambda>x. - int (key k) = - int (key x)) rows) \<le> 1"
      by (simp add: eq_commute)
    then show ?thesis unfolding rev_filter [symmetric]
      by (cases "filter (\<lambda>x. - int (key k) = - int (key x)) rows") auto
  qed
qed (simp add: mset_rev)

lemma keyset_page_wf:
  assumes "wf_table key rows"
  shows "keyset_page key p after limit rows = take limit (rev (filter (\<lambda>r. p r \<and> below key after r) rows))"
  using sort_desc_rev [OF wf_table_filter [OF assms]] by (simp add: keyset_page_def below_def)

text \<open>Following the pages visits every matching row exactly once, newest first.\<close>

lemma take_filter_below:
  assumes "sorted_wrt (\<lambda>x y. key y < key x) ys" and "take n ys \<noteq> []"
  shows "filter (\<lambda>r. key r < (key (last (take n ys)) :: nat)) ys = drop n ys"
proof -
  let ?x = "last (take n ys)"
  have split: "sorted_wrt (\<lambda>x y. key y < key x) (take n ys @ drop n ys)" using assms(1) by simp
  have "\<not> key r < key ?x" if "r \<in> set (take n ys)" for r
  proof -
    have "take n ys = butlast (take n ys) @ [?x]" using assms(2) by simp
    then have "sorted_wrt (\<lambda>x y. key y < key x) (butlast (take n ys) @ [?x])"
      using assms(1) by (metis sorted_wrt_take)
    then have "\<forall>y \<in> set (butlast (take n ys)). key ?x < key y" by (simp add: sorted_wrt_append)
    moreover have "r \<in> set (butlast (take n ys)) \<or> r = ?x"
      using that \<open>take n ys = butlast (take n ys) @ [?x]\<close>
      by (metis Un_iff empty_iff insert_iff list.set(1,2) set_append)
    ultimately show ?thesis by auto
  qed
  moreover have "key r < key ?x" if "r \<in> set (drop n ys)" for r
    using split that assms(2) by (auto simp: sorted_wrt_append simp del: append_take_drop_id)
  ultimately have "filter (\<lambda>r. key r < key ?x) (take n ys @ drop n ys) = drop n ys"
    by (simp only: filter_append) (simp add: filter_empty_conv filter_id_conv)
  then show ?thesis by simp
qed

lemma all_pages_complete:
  assumes "wf_table key rows" and "0 < limit"
  shows "all_pages key p limit rows after = rev (filter (\<lambda>r. p r \<and> below key after r) rows)"
  using assms
proof (induction key p limit rows after rule: all_pages.induct)
  case (1 key p limit rows after)
  let ?ys = "rev (filter (\<lambda>r. p r \<and> below key after r) rows)"
  let ?page = "take limit ?ys"
  have page: "keyset_page key p after limit rows = ?page"
    by (rule keyset_page_wf [OF 1(2)])
  show ?case
  proof (cases "?page = []")
    case True
    then have "?ys = []" using 1(3) by simp
    then show ?thesis using True page by (subst all_pages.simps) (simp add: Let_def)
  next
    case False
    let ?x = "last ?page"
    have "wf_table key (filter (\<lambda>r. p r \<and> below key after r) rows)" by (rule wf_table_filter [OF 1(2)])
    then have desc: "sorted_wrt (\<lambda>x y. key y < key x) ?ys"
      by (simp add: wf_table_def sorted_wrt_map sorted_wrt_rev)
    have x: "below key after ?x"
      using False in_set_takeD [of ?x limit ?ys] last_in_set [OF False] by auto
    have "all_pages key p limit rows (Some (key ?x)) =
      rev (filter (\<lambda>r. p r \<and> below key (Some (key ?x)) r) rows)"
      using 1(1) [OF refl] False 1(2,3) page by simp
    also have "\<dots> = filter (\<lambda>r. key r < key ?x) ?ys"
      using x by (auto simp: below_def rev_filter intro!: arg_cong [where f = rev] filter_cong split: option.splits)
    also have "\<dots> = drop limit ?ys" by (rule take_filter_below [OF desc False])
    finally have rest: "all_pages key p limit rows (Some (key ?x)) = drop limit ?ys" .
    show ?thesis using False
      by (subst all_pages.simps) (simp only: page Let_def rest if_False append_take_drop_id)
  qed
qed

section \<open>Loops over pages\<close>

text \<open>
  A loop with an accumulator and an early return, and the loop that fetches ascending pages after
  a cursor, runs its body on every row of the page and moves the cursor to the last row, until a
  page is empty.
\<close>

fun fold_res :: "('a \<Rightarrow> 'r \<Rightarrow> 'e + 'a) \<Rightarrow> 'a \<Rightarrow> 'r list \<Rightarrow> 'e + 'a" where
  "fold_res step a [] = Inr a"
| "fold_res step a (r # rows) = (case step a r of Inl e \<Rightarrow> Inl e | Inr a' \<Rightarrow> fold_res step a' rows)"

lemma fold_res_append:
  "fold_res step a (xs @ ys) = (case fold_res step a xs of Inl e \<Rightarrow> Inl e | Inr a' \<Rightarrow> fold_res step a' ys)"
  by (induction xs arbitrary: a) (auto split: sum.splits)

definition beyond :: "('r \<Rightarrow> 'k :: linorder) \<Rightarrow> 'k option \<Rightarrow> 'r \<Rightarrow> bool" where
  "beyond key after r = (case after of None \<Rightarrow> True | Some k \<Rightarrow> k < key r)"

definition ascending_page :: "('r \<Rightarrow> 'k :: linorder) \<Rightarrow> nat \<Rightarrow> 'r list \<Rightarrow> 'k option \<Rightarrow> 'r list" where
  "ascending_page key limit rows after = take limit (sort_key key (filter (beyond key after) rows))"

lemma ascending_page_in: "r \<in> set (ascending_page key limit rows after) \<Longrightarrow> r \<in> set rows \<and> beyond key after r"
  by (auto simp: ascending_page_def dest: in_set_takeD)

lemma filter_beyond:
  "beyond key after x \<Longrightarrow>
     filter (beyond key (Some (key x))) rows = filter (beyond key (Some (key x))) (filter (beyond key after) rows)"
  by (induction rows) (auto simp: beyond_def split: option.splits)

lemma beyond_shorter:
  assumes "x \<in> set rows" "beyond key after x"
  shows "length (filter (beyond key (Some (key x))) rows) < length (filter (beyond key after) rows)"
  using assms by (subst filter_beyond [OF assms(2)], intro length_filter_less [of x]) (auto simp: beyond_def)

function paged_fold ::
  "('r \<Rightarrow> 'k :: linorder) \<Rightarrow> ('a \<Rightarrow> 'r \<Rightarrow> 'e + 'a) \<Rightarrow> nat \<Rightarrow> 'r list \<Rightarrow> 'k option \<Rightarrow> 'a \<Rightarrow> 'e + 'a" where
  "paged_fold key step limit rows after a =
     (let page = ascending_page key limit rows after in
      if page = [] then Inr a
      else case fold_res step a page of Inl e \<Rightarrow> Inl e
        | Inr a' \<Rightarrow> paged_fold key step limit rows (Some (key (last page))) a')"
  by pat_completeness auto
termination
proof (relation "measure (\<lambda>(key, step, limit, rows, after, a). length (filter (beyond key after) rows))", goal_cases)
  case (2 key step limit rows after a page a')
  note page = 2(1,2)
  let ?x = "last page"
  have x: "?x \<in> set rows" "beyond key after ?x"
    using ascending_page_in [of ?x key limit rows after] page by auto
  show ?case using beyond_shorter [OF x] by simp
qed simp

declare paged_fold.simps [simp del]

text \<open>With distinct keys the pages are the rows in order, so the loop is one fold.\<close>

lemma beyond_drop:
  assumes "sorted_wrt (\<lambda>x y. key x < key y) ys" and "take n ys \<noteq> []"
  shows "filter (beyond key (Some (key (last (take n ys))))) ys = drop n ys"
proof -
  let ?x = "last (take n ys)"
  have split: "ys = take n ys @ drop n ys" by simp
  have s: "sorted_wrt (\<lambda>x y. key x < key y) (take n ys @ drop n ys)" using assms(1) by simp
  have le: "\<not> key ?x < key y" if "y \<in> set (take n ys)" for y
  proof -
    have eq: "butlast (take n ys) @ [?x] = take n ys" using assms(2) by simp
    have "sorted_wrt (\<lambda>x y. key x < key y) (butlast (take n ys) @ [?x])"
      using s unfolding eq by (simp add: sorted_wrt_append)
    then have "\<forall>y \<in> set (butlast (take n ys)). key y < key ?x" unfolding sorted_wrt_append by simp
    moreover have "y \<in> set (butlast (take n ys) @ [?x])" using that unfolding eq .
    ultimately show ?thesis by auto
  qed
  have gt: "key ?x < key y" if "y \<in> set (drop n ys)" for y
    using s that last_in_set [OF assms(2)] unfolding sorted_wrt_append by blast
  have "filter (beyond key (Some (key ?x))) (take n ys) = []"
    using le by (auto simp: filter_empty_conv beyond_def)
  moreover have "filter (beyond key (Some (key ?x))) (drop n ys) = drop n ys"
    using gt by (auto simp: filter_id_conv beyond_def)
  ultimately show ?thesis by (subst split) (simp only: filter_append append_Nil)
qed

lemma paged_fold_eq:
  assumes "distinct (map key rows)" "0 < limit"
  shows "paged_fold key step limit rows after a = fold_res step a (sort_key key (filter (beyond key after) rows))"
proof (induction "length (filter (beyond key after) rows)" arbitrary: after a rule: less_induct)
  case less
  let ?ys = "sort_key key (filter (beyond key after) rows)"
  have d: "distinct (map key ?ys)" using assms(1)
    by (metis distinct_map distinct_filter distinct_sort filter_is_subset inj_on_subset set_sort)
  then have s: "sorted_wrt (\<lambda>x y. key x < key y) ?ys"
    using strict_sorted_iff [of "map key ?ys"] sorted_sort_key [of key "filter (beyond key after) rows"]
    by (simp add: sorted_wrt_map)
  show ?case
  proof (cases "?ys = []")
    case True
    then show ?thesis by (subst paged_fold.simps) (simp add: ascending_page_def)
  next
    case False
    let ?p = "take limit ?ys"
    have p: "?p \<noteq> []" using False assms(2) by simp
    let ?k = "key (last ?p)"
    have xin: "last ?p \<in> set rows" "beyond key after (last ?p)"
      using ascending_page_in [of "last ?p" key limit rows after] p by (auto simp: ascending_page_def)
    note f = filter_beyond [OF xin(2), of rows] and shorter = beyond_shorter [OF xin]
    have rest: "sort_key key (filter (beyond key (Some ?k)) rows) = drop limit ?ys"
      using beyond_drop [OF s p] by (subst f) (simp add: filter_sort)
    have "paged_fold key step limit rows (Some ?k) a' = fold_res step a' (drop limit ?ys)" for a'
      using less [OF shorter, of a'] rest by simp
    then have "paged_fold key step limit rows after a = fold_res step a (?p @ drop limit ?ys)"
      using p unfolding fold_res_append
      by (subst paged_fold.simps) (simp only: Let_def ascending_page_def if_False split: sum.split, simp)
    then show ?thesis unfolding append_take_drop_id .
  qed
qed

section \<open>Interfaces shared by components\<close>

subsection \<open>Wire vocabularies\<close>

text \<open>An enum stored or sent as text: \<open>from_wire\<close> accepts exactly the strings \<open>as_str\<close> makes.\<close>

locale wire_vocab =
  fixes as_str :: "'a \<Rightarrow> string"
    and from_wire :: "string \<Rightarrow> 'a option"
  assumes parse_as_str: "from_wire (as_str x) = Some x"
    and as_str_parse: "from_wire s = Some x \<Longrightarrow> as_str x = s"
begin

lemma from_wire_iff: "from_wire s = Some x \<longleftrightarrow> s = as_str x"
  using parse_as_str as_str_parse by metis

lemma as_str_eq_iff: "as_str x = as_str y \<longleftrightarrow> x = y"
  using parse_as_str by (metis option.inject)

lemma from_wire_None: "from_wire s = None \<longleftrightarrow> s \<notin> range as_str"
  using from_wire_iff by (metis option.exhaust option.distinct(1) rangeE rangeI)

end

definition wire_find :: "'a list \<Rightarrow> ('a \<Rightarrow> string) \<Rightarrow> string \<Rightarrow> 'a option" where
  "wire_find all as_str s = find (\<lambda>k. as_str k = s) all"

lemma wire_find_vocab:
  assumes all: "set all = UNIV" and dist: "distinct (map as_str all)"
  shows "wire_vocab as_str (wire_find all as_str)"
proof
  have inj: "as_str x = as_str y \<Longrightarrow> x = y" for x y
    using all dist by (metis UNIV_I distinct_map inj_onD)
  show "wire_find all as_str (as_str x) = Some x" for x
  proof (cases "wire_find all as_str (as_str x)")
    case None
    then show ?thesis using all by (auto simp: wire_find_def find_None_iff)
  next
    case (Some y)
    then show ?thesis using inj [of y x] by (auto simp: wire_find_def dest: find_Some_in)
  qed
  show "wire_find all as_str s = Some x \<Longrightarrow> as_str x = s" for s x
    by (auto simp: wire_find_def dest: find_Some_in)
qed

subsection \<open>Lifecycles\<close>

text \<open>A state machine whose terminal states no step leaves.\<close>

locale lifecycle =
  fixes terminal :: "'s \<Rightarrow> bool"
    and next_state :: "'s \<Rightarrow> 's \<Rightarrow> bool"
  assumes absorbing: "terminal a \<Longrightarrow> next_state a b \<Longrightarrow> b = a"
begin

lemma terminal_forever: "next_state\<^sup>*\<^sup>* a b \<Longrightarrow> terminal a \<Longrightarrow> b = a"
  by (induction rule: rtranclp_induct) (auto dest: absorbing)

end

subsection \<open>Reachable states and invariants\<close>

inductive reach :: "('s \<Rightarrow> bool) \<Rightarrow> ('s \<Rightarrow> 's \<Rightarrow> bool) \<Rightarrow> 's \<Rightarrow> bool"
  for init :: "'s \<Rightarrow> bool" and step :: "'s \<Rightarrow> 's \<Rightarrow> bool" where
  reach_init: "init s \<Longrightarrow> reach init step s"
| reach_step: "reach init step s \<Longrightarrow> step s t \<Longrightarrow> reach init step t"

locale invariant_system =
  fixes init :: "'s \<Rightarrow> bool"
    and step :: "'s \<Rightarrow> 's \<Rightarrow> bool"
    and inv :: "'s \<Rightarrow> bool"
  assumes inv_init: "init s \<Longrightarrow> inv s"
    and inv_step: "inv s \<Longrightarrow> step s t \<Longrightarrow> inv t"
begin

lemma reach_inv: "reach init step s \<Longrightarrow> inv s"
  by (induction rule: reach.induct) (auto intro: inv_init inv_step)

lemma run_inv: "step\<^sup>*\<^sup>* s t \<Longrightarrow> inv s \<Longrightarrow> inv t"
  by (induction rule: rtranclp_induct) (auto intro: inv_step)

end

subsection \<open>Keeping the best candidate of a list\<close>

text \<open>The selection loops of the scheduler: keep the candidate so far unless the next is better.\<close>

fun keep_best :: "('a \<Rightarrow> 'a \<Rightarrow> bool) \<Rightarrow> 'a option \<Rightarrow> 'a list \<Rightarrow> 'a option" where
  "keep_best better best [] = best"
| "keep_best better None (x # xs) = keep_best better (Some x) xs"
| "keep_best better (Some b) (x # xs) = keep_best better (Some (if better x b then x else b)) xs"

locale preference =
  fixes ok :: "'a \<Rightarrow> bool"
    and better :: "'a \<Rightarrow> 'a \<Rightarrow> bool"
  assumes better_irrefl: "ok a \<Longrightarrow> \<not> better a a"
    and better_trans: "ok a \<Longrightarrow> ok b \<Longrightarrow> ok c \<Longrightarrow> better a b \<Longrightarrow> better b c \<Longrightarrow> better a c"
    and worse_trans: "ok a \<Longrightarrow> ok b \<Longrightarrow> ok c \<Longrightarrow> \<not> better a b \<Longrightarrow> \<not> better b c \<Longrightarrow> \<not> better a c"
begin

lemma keep_best_Some:
  "keep_best better (Some b) xs = Some r \<Longrightarrow> ok b \<Longrightarrow> (\<And>x. x \<in> set xs \<Longrightarrow> ok x) \<Longrightarrow>
     r \<in> insert b (set xs) \<and> (\<forall>x \<in> insert b (set xs). \<not> better x r)"
proof (induction xs arbitrary: b)
  case Nil
  then show ?case by (simp add: better_irrefl)
next
  case (Cons x xs)
  let ?c = "if better x b then x else b"
  have ok: "ok x" "ok b" "ok ?c" using Cons.prems by auto
  from Cons.prems have "keep_best better (Some ?c) xs = Some r" by simp
  from Cons.IH [OF this ok(3)] Cons.prems(3)
  have r: "r \<in> insert ?c (set xs)" "\<forall>y \<in> insert ?c (set xs). \<not> better y r" by auto
  then have "ok r" using ok Cons.prems(3) by auto
  have "better b x \<Longrightarrow> \<not> better x b"
    using better_trans [OF ok(2,1,2)] better_irrefl [OF ok(2)] by blast
  then have c: "\<not> better x ?c" "\<not> better b ?c"
    using better_irrefl ok by auto
  have "\<not> better ?c r" using r by blast
  then have "\<not> better x r" "\<not> better b r"
    using worse_trans [OF ok(1,3) \<open>ok r\<close> c(1)] worse_trans [OF ok(2,3) \<open>ok r\<close> c(2)] by blast+
  with r show ?case by auto
qed

lemma keep_best_total: "\<exists>r. keep_best better (Some b) xs = Some r"
  by (induction xs arbitrary: b) auto

lemma keep_best_None_iff: "keep_best better None xs = None \<longleftrightarrow> xs = []"
proof (cases xs)
  case (Cons a list)
  then show ?thesis using keep_best_total [of a list] by auto
qed simp

lemma keep_best_is_best:
  "keep_best better None xs = Some r \<Longrightarrow> (\<And>x. x \<in> set xs \<Longrightarrow> ok x) \<Longrightarrow>
     r \<in> set xs \<and> (\<forall>x \<in> set xs. \<not> better x r)"
proof (cases xs)
  case (Cons a list)
  assume "keep_best better None xs = Some r" "\<And>x. x \<in> set xs \<Longrightarrow> ok x"
  with keep_best_Some [of a list r] Cons show ?thesis by simp
qed simp

text \<open>Where no two different candidates tie, the choice does not depend on the order.\<close>

lemma keep_best_order:
  assumes same: "set xs = set ys" and ok: "\<And>x. x \<in> set xs \<Longrightarrow> ok x"
    and total: "\<And>a b. a \<in> set xs \<Longrightarrow> b \<in> set xs \<Longrightarrow> a \<noteq> b \<Longrightarrow> better a b \<or> better b a"
  shows "keep_best better None xs = keep_best better None ys"
proof (cases "keep_best better None xs")
  case None
  then have "ys = []" using same by (simp add: keep_best_None_iff)
  with None show ?thesis by (simp add: keep_best_None_iff)
next
  case (Some r)
  then have "ys \<noteq> []" using same by (cases xs) auto
  then obtain r' where r': "keep_best better None ys = Some r'"
    by (metis keep_best_None_iff option.exhaust)
  have r: "r \<in> set xs" "\<forall>x \<in> set xs. \<not> better x r"
    using keep_best_is_best [OF Some] ok by blast+
  have "r' \<in> set ys" "\<forall>x \<in> set ys. \<not> better x r'"
    using keep_best_is_best [OF r'] ok same by blast+
  with r same total [of r r'] have "r = r'" by blast
  with Some r' show ?thesis by simp
qed

end

end
