(* ===== verification/Voom_Errors.thy ===== *)
theory Voom_Errors
  imports Voom_Prelude
begin

text \<open>
  Errors and failures (\<^verbatim>\<open>crates/voom-core/src/error.rs\<close>,
  \<^verbatim>\<open>crates/voom-core/src/taxonomy/failure.rs\<close>, \<^verbatim>\<open>issue.rs\<close>): error codes and their wire
  names, failure classes with their retry class, the issue vocabularies a terminal failure is
  reported with, the error type \<open>voom_error\<close>, results, checked integer conversions
  (\<^verbatim>\<open>crates/voom-store/src/repo/common.rs\<close>) and transactions over a state.

  Human-readable message strings inside errors are not modelled: an error is its variant.
\<close>

section \<open>Error codes\<close>

datatype error_code =
    DbUnreachable | DbUninitialized | DbPartialSchema | DbDirtyMigration | DbSchemaTooNew
   | ConfigInvalid | NotFound | Internal | BadArgs | DependencyCycle | Conflict | Unauthorized
   | RequestTimeout | PayloadTooLarge | BlockedByUseLease | BlockedByPendingCommit
   | BlockedByClosureGrew | StaleIdentityEvidence | ClosureResolutionIncomplete
   | WorkerTimeout | WorkerCrash | NoEligibleWorker | ArtifactUnavailable
   | ArtifactChecksumMismatch | ExternalSystemUnavailable | ExternalSystemRateLimited
   | VerificationFailure | BackupFailure | CommitFailure | PolicyParseError
   | PolicyValidationError | PlanGenerationError | ComplianceReportError
   | PolicyExecutionError | MissingCapability | MalformedWorkerResult | MalformedMedia
   | UserCancellation | ApprovalRequired | PriorityPolicyConflict | WorkerRetired
   | WorkerIncarnationStale | AmbiguousWorkerSelection | Blocked

primrec error_code_as_str :: "error_code \<Rightarrow> string" where
  "error_code_as_str DbUnreachable = ''DB_UNREACHABLE''"
| "error_code_as_str DbUninitialized = ''DB_UNINITIALIZED''"
| "error_code_as_str DbPartialSchema = ''DB_PARTIAL_SCHEMA''"
| "error_code_as_str DbDirtyMigration = ''DB_DIRTY_MIGRATION''"
| "error_code_as_str DbSchemaTooNew = ''DB_SCHEMA_TOO_NEW''"
| "error_code_as_str ConfigInvalid = ''CONFIG_INVALID''"
| "error_code_as_str NotFound = ''NOT_FOUND''"
| "error_code_as_str Internal = ''INTERNAL''"
| "error_code_as_str BadArgs = ''BAD_ARGS''"
| "error_code_as_str DependencyCycle = ''DEPENDENCY_CYCLE''"
| "error_code_as_str Conflict = ''CONFLICT''"
| "error_code_as_str Unauthorized = ''UNAUTHORIZED''"
| "error_code_as_str RequestTimeout = ''REQUEST_TIMEOUT''"
| "error_code_as_str PayloadTooLarge = ''PAYLOAD_TOO_LARGE''"
| "error_code_as_str BlockedByUseLease = ''BLOCKED_BY_USE_LEASE''"
| "error_code_as_str BlockedByPendingCommit = ''BLOCKED_BY_PENDING_COMMIT''"
| "error_code_as_str BlockedByClosureGrew = ''BLOCKED_BY_CLOSURE_GREW''"
| "error_code_as_str StaleIdentityEvidence = ''STALE_IDENTITY_EVIDENCE''"
| "error_code_as_str ClosureResolutionIncomplete = ''CLOSURE_RESOLUTION_INCOMPLETE''"
| "error_code_as_str WorkerTimeout = ''WORKER_TIMEOUT''"
| "error_code_as_str WorkerCrash = ''WORKER_CRASH''"
| "error_code_as_str NoEligibleWorker = ''NO_ELIGIBLE_WORKER''"
| "error_code_as_str ArtifactUnavailable = ''ARTIFACT_UNAVAILABLE''"
| "error_code_as_str ArtifactChecksumMismatch = ''ARTIFACT_CHECKSUM_MISMATCH''"
| "error_code_as_str ExternalSystemUnavailable = ''EXTERNAL_SYSTEM_UNAVAILABLE''"
| "error_code_as_str ExternalSystemRateLimited = ''EXTERNAL_SYSTEM_RATE_LIMITED''"
| "error_code_as_str VerificationFailure = ''VERIFICATION_FAILURE''"
| "error_code_as_str BackupFailure = ''BACKUP_FAILURE''"
| "error_code_as_str CommitFailure = ''COMMIT_FAILURE''"
| "error_code_as_str PolicyParseError = ''POLICY_PARSE_ERROR''"
| "error_code_as_str PolicyValidationError = ''POLICY_VALIDATION_ERROR''"
| "error_code_as_str PlanGenerationError = ''PLAN_GENERATION_ERROR''"
| "error_code_as_str ComplianceReportError = ''COMPLIANCE_REPORT_ERROR''"
| "error_code_as_str PolicyExecutionError = ''POLICY_EXECUTION_ERROR''"
| "error_code_as_str MissingCapability = ''MISSING_CAPABILITY''"
| "error_code_as_str MalformedWorkerResult = ''MALFORMED_WORKER_RESULT''"
| "error_code_as_str MalformedMedia = ''MALFORMED_MEDIA''"
| "error_code_as_str UserCancellation = ''USER_CANCELLATION''"
| "error_code_as_str ApprovalRequired = ''APPROVAL_REQUIRED''"
| "error_code_as_str PriorityPolicyConflict = ''PRIORITY_POLICY_CONFLICT''"
| "error_code_as_str WorkerRetired = ''WORKER_RETIRED''"
| "error_code_as_str WorkerIncarnationStale = ''WORKER_INCARNATION_STALE''"
| "error_code_as_str AmbiguousWorkerSelection = ''AMBIGUOUS_WORKER_SELECTION''"
| "error_code_as_str Blocked = ''BLOCKED''"

definition error_code_ALL :: "error_code list" where
  "error_code_ALL =
    [DbUnreachable, DbUninitialized, DbPartialSchema, DbDirtyMigration, DbSchemaTooNew,
     ConfigInvalid, NotFound, Internal, BadArgs, DependencyCycle, Conflict, Unauthorized,
     RequestTimeout, PayloadTooLarge, BlockedByUseLease, BlockedByPendingCommit,
     BlockedByClosureGrew, StaleIdentityEvidence, ClosureResolutionIncomplete, WorkerTimeout,
     WorkerCrash, NoEligibleWorker, ArtifactUnavailable, ArtifactChecksumMismatch,
     ExternalSystemUnavailable, ExternalSystemRateLimited, VerificationFailure, BackupFailure,
     CommitFailure, PolicyParseError, PolicyValidationError, PlanGenerationError,
     ComplianceReportError, PolicyExecutionError, MissingCapability, MalformedWorkerResult,
     MalformedMedia, UserCancellation, ApprovalRequired, PriorityPolicyConflict, WorkerRetired,
     WorkerIncarnationStale, AmbiguousWorkerSelection, Blocked]"

definition error_code_from_wire_str :: "string \<Rightarrow> error_code option" where
  "error_code_from_wire_str s = wire_find error_code_ALL error_code_as_str s"

lemma error_code_all: "set error_code_ALL = UNIV"
proof -
  have "x \<in> set error_code_ALL" for x
    by (cases x) (simp_all add: error_code_ALL_def)
  then show ?thesis by blast
qed

lemma error_code_distinct: "distinct (map error_code_as_str error_code_ALL)"
  by (simp add: error_code_ALL_def)

interpretation error_code: wire_vocab error_code_as_str error_code_from_wire_str
  unfolding error_code_from_wire_str_def [abs_def]
  by (rule wire_find_vocab [OF error_code_all error_code_distinct])

section \<open>Issue severity and priority\<close>

datatype issue_severity =
    Critical | High | Medium | Low | Info

primrec issue_severity_as_str :: "issue_severity \<Rightarrow> string" where
  "issue_severity_as_str Critical = ''critical''"
| "issue_severity_as_str High = ''high''"
| "issue_severity_as_str Medium = ''medium''"
| "issue_severity_as_str Low = ''low''"
| "issue_severity_as_str Info = ''info''"

datatype issue_priority =
    Urgent | High | Normal | Low | Someday

primrec issue_priority_as_str :: "issue_priority \<Rightarrow> string" where
  "issue_priority_as_str Urgent = ''urgent''"
| "issue_priority_as_str High = ''high''"
| "issue_priority_as_str Normal = ''normal''"
| "issue_priority_as_str Low = ''low''"
| "issue_priority_as_str Someday = ''someday''"


section \<open>Failure classes\<close>

datatype failure_class =
    WorkerTimeout | WorkerCrash | NoEligibleWorker | ArtifactUnavailable
   | ArtifactChecksumMismatch | ExternalSystemUnavailable | ExternalSystemRateLimited
   | VerificationFailure | BackupFailure | CommitFailure | PolicyParseError
   | PolicyValidationError | MissingCapability | MalformedWorkerResult | UserCancellation
   | MalformedMedia | StaleIdentityEvidence | ClosureResolutionIncomplete
   | BlockedByActiveUseLease | ApprovalRequired | PriorityPolicyConflict | ProgressTimeout
   | AmbiguousWorkerSelection

datatype failure_retry_class = Retriable | NonRetriable | OperatorRequired

primrec failure_class_as_str :: "failure_class \<Rightarrow> string" where
  "failure_class_as_str WorkerTimeout = ''worker_timeout''"
| "failure_class_as_str WorkerCrash = ''worker_crash''"
| "failure_class_as_str NoEligibleWorker = ''no_eligible_worker''"
| "failure_class_as_str ArtifactUnavailable = ''artifact_unavailable''"
| "failure_class_as_str ArtifactChecksumMismatch = ''artifact_checksum_mismatch''"
| "failure_class_as_str ExternalSystemUnavailable = ''external_system_unavailable''"
| "failure_class_as_str ExternalSystemRateLimited = ''external_system_rate_limited''"
| "failure_class_as_str VerificationFailure = ''verification_failure''"
| "failure_class_as_str BackupFailure = ''backup_failure''"
| "failure_class_as_str CommitFailure = ''commit_failure''"
| "failure_class_as_str PolicyParseError = ''policy_parse_error''"
| "failure_class_as_str PolicyValidationError = ''policy_validation_error''"
| "failure_class_as_str MissingCapability = ''missing_capability''"
| "failure_class_as_str MalformedWorkerResult = ''malformed_worker_result''"
| "failure_class_as_str UserCancellation = ''user_cancellation''"
| "failure_class_as_str MalformedMedia = ''malformed_media''"
| "failure_class_as_str StaleIdentityEvidence = ''stale_identity_evidence''"
| "failure_class_as_str ClosureResolutionIncomplete = ''closure_resolution_incomplete''"
| "failure_class_as_str BlockedByActiveUseLease = ''blocked_by_active_use_lease''"
| "failure_class_as_str ApprovalRequired = ''approval_required''"
| "failure_class_as_str PriorityPolicyConflict = ''priority_policy_conflict''"
| "failure_class_as_str ProgressTimeout = ''progress_timeout''"
| "failure_class_as_str AmbiguousWorkerSelection = ''ambiguous_worker_selection''"

definition failure_class_ALL :: "failure_class list" where
  "failure_class_ALL =
    [WorkerTimeout, WorkerCrash, NoEligibleWorker, ArtifactUnavailable,
     ArtifactChecksumMismatch, ExternalSystemUnavailable, ExternalSystemRateLimited,
     VerificationFailure, BackupFailure, CommitFailure, PolicyParseError,
     PolicyValidationError, MissingCapability, MalformedWorkerResult, UserCancellation,
     MalformedMedia, StaleIdentityEvidence, ClosureResolutionIncomplete,
     BlockedByActiveUseLease, ApprovalRequired, PriorityPolicyConflict, ProgressTimeout,
     AmbiguousWorkerSelection]"

definition failure_class_from_wire_str :: "string \<Rightarrow> failure_class option" where
  "failure_class_from_wire_str s = wire_find failure_class_ALL failure_class_as_str s"

primrec retry_class :: "failure_class \<Rightarrow> failure_retry_class" where
  "retry_class WorkerTimeout = Retriable"
| "retry_class WorkerCrash = Retriable"
| "retry_class NoEligibleWorker = Retriable"
| "retry_class ArtifactUnavailable = Retriable"
| "retry_class ArtifactChecksumMismatch = Retriable"
| "retry_class ExternalSystemUnavailable = Retriable"
| "retry_class ExternalSystemRateLimited = Retriable"
| "retry_class VerificationFailure = Retriable"
| "retry_class BackupFailure = Retriable"
| "retry_class CommitFailure = Retriable"
| "retry_class PolicyParseError = NonRetriable"
| "retry_class PolicyValidationError = NonRetriable"
| "retry_class MissingCapability = NonRetriable"
| "retry_class MalformedWorkerResult = NonRetriable"
| "retry_class UserCancellation = NonRetriable"
| "retry_class MalformedMedia = NonRetriable"
| "retry_class StaleIdentityEvidence = OperatorRequired"
| "retry_class ClosureResolutionIncomplete = OperatorRequired"
| "retry_class BlockedByActiveUseLease = OperatorRequired"
| "retry_class ApprovalRequired = OperatorRequired"
| "retry_class PriorityPolicyConflict = OperatorRequired"
| "retry_class ProgressTimeout = Retriable"
| "retry_class AmbiguousWorkerSelection = OperatorRequired"

definition is_retriable :: "failure_class \<Rightarrow> bool" where
  "is_retriable c \<longleftrightarrow> retry_class c = Retriable"

definition class_issue_severity :: "failure_class \<Rightarrow> issue_severity" where
  "class_issue_severity c = (case retry_class c of
      OperatorRequired \<Rightarrow> issue_severity.High
    | NonRetriable \<Rightarrow> issue_severity.High
    | Retriable \<Rightarrow> issue_severity.Medium)"

definition class_issue_priority :: "failure_class \<Rightarrow> issue_priority" where
  "class_issue_priority c = (case retry_class c of
      OperatorRequired \<Rightarrow> issue_priority.High
    | NonRetriable \<Rightarrow> issue_priority.High
    | Retriable \<Rightarrow> issue_priority.Normal)"

primrec into_error_code :: "failure_class \<Rightarrow> error_code" where
  "into_error_code WorkerTimeout = error_code.WorkerTimeout"
| "into_error_code WorkerCrash = error_code.WorkerCrash"
| "into_error_code NoEligibleWorker = error_code.NoEligibleWorker"
| "into_error_code ArtifactUnavailable = error_code.ArtifactUnavailable"
| "into_error_code ArtifactChecksumMismatch = error_code.ArtifactChecksumMismatch"
| "into_error_code ExternalSystemUnavailable = error_code.ExternalSystemUnavailable"
| "into_error_code ExternalSystemRateLimited = error_code.ExternalSystemRateLimited"
| "into_error_code VerificationFailure = error_code.VerificationFailure"
| "into_error_code BackupFailure = error_code.BackupFailure"
| "into_error_code CommitFailure = error_code.CommitFailure"
| "into_error_code PolicyParseError = error_code.PolicyParseError"
| "into_error_code PolicyValidationError = error_code.PolicyValidationError"
| "into_error_code MissingCapability = error_code.MissingCapability"
| "into_error_code MalformedWorkerResult = error_code.MalformedWorkerResult"
| "into_error_code UserCancellation = error_code.UserCancellation"
| "into_error_code MalformedMedia = error_code.MalformedMedia"
| "into_error_code StaleIdentityEvidence = error_code.StaleIdentityEvidence"
| "into_error_code ClosureResolutionIncomplete = error_code.ClosureResolutionIncomplete"
| "into_error_code BlockedByActiveUseLease = error_code.BlockedByUseLease"
| "into_error_code ApprovalRequired = error_code.ApprovalRequired"
| "into_error_code PriorityPolicyConflict = error_code.PriorityPolicyConflict"
| "into_error_code ProgressTimeout = error_code.WorkerTimeout"
| "into_error_code AmbiguousWorkerSelection = error_code.AmbiguousWorkerSelection"

primrec from_error_code :: "error_code \<Rightarrow> failure_class option" where
  "from_error_code error_code.DbUnreachable = None"
| "from_error_code error_code.DbUninitialized = None"
| "from_error_code error_code.DbPartialSchema = None"
| "from_error_code error_code.DbDirtyMigration = None"
| "from_error_code error_code.DbSchemaTooNew = None"
| "from_error_code error_code.ConfigInvalid = None"
| "from_error_code error_code.NotFound = None"
| "from_error_code error_code.Internal = None"
| "from_error_code error_code.BadArgs = None"
| "from_error_code error_code.DependencyCycle = None"
| "from_error_code error_code.Conflict = None"
| "from_error_code error_code.Unauthorized = None"
| "from_error_code error_code.RequestTimeout = None"
| "from_error_code error_code.PayloadTooLarge = None"
| "from_error_code error_code.BlockedByUseLease = Some failure_class.BlockedByActiveUseLease"
| "from_error_code error_code.BlockedByPendingCommit = None"
| "from_error_code error_code.BlockedByClosureGrew = None"
| "from_error_code error_code.StaleIdentityEvidence = Some failure_class.StaleIdentityEvidence"
| "from_error_code error_code.ClosureResolutionIncomplete = Some failure_class.ClosureResolutionIncomplete"
| "from_error_code error_code.WorkerTimeout = Some failure_class.WorkerTimeout"
| "from_error_code error_code.WorkerCrash = Some failure_class.WorkerCrash"
| "from_error_code error_code.NoEligibleWorker = Some failure_class.NoEligibleWorker"
| "from_error_code error_code.ArtifactUnavailable = Some failure_class.ArtifactUnavailable"
| "from_error_code error_code.ArtifactChecksumMismatch = Some failure_class.ArtifactChecksumMismatch"
| "from_error_code error_code.ExternalSystemUnavailable = Some failure_class.ExternalSystemUnavailable"
| "from_error_code error_code.ExternalSystemRateLimited = Some failure_class.ExternalSystemRateLimited"
| "from_error_code error_code.VerificationFailure = Some failure_class.VerificationFailure"
| "from_error_code error_code.BackupFailure = Some failure_class.BackupFailure"
| "from_error_code error_code.CommitFailure = Some failure_class.CommitFailure"
| "from_error_code error_code.PolicyParseError = Some failure_class.PolicyParseError"
| "from_error_code error_code.PolicyValidationError = Some failure_class.PolicyValidationError"
| "from_error_code error_code.PlanGenerationError = None"
| "from_error_code error_code.ComplianceReportError = None"
| "from_error_code error_code.PolicyExecutionError = None"
| "from_error_code error_code.MissingCapability = Some failure_class.MissingCapability"
| "from_error_code error_code.MalformedWorkerResult = Some failure_class.MalformedWorkerResult"
| "from_error_code error_code.MalformedMedia = Some failure_class.MalformedMedia"
| "from_error_code error_code.UserCancellation = Some failure_class.UserCancellation"
| "from_error_code error_code.ApprovalRequired = Some failure_class.ApprovalRequired"
| "from_error_code error_code.PriorityPolicyConflict = Some failure_class.PriorityPolicyConflict"
| "from_error_code error_code.WorkerRetired = None"
| "from_error_code error_code.WorkerIncarnationStale = None"
| "from_error_code error_code.AmbiguousWorkerSelection = Some failure_class.AmbiguousWorkerSelection"
| "from_error_code error_code.Blocked = None"

lemma failure_class_all: "set failure_class_ALL = UNIV"
proof -
  have "x \<in> set failure_class_ALL" for x
    by (cases x) (simp_all add: failure_class_ALL_def)
  then show ?thesis by blast
qed

lemma failure_class_distinct: "distinct (map failure_class_as_str failure_class_ALL)"
  by (simp add: failure_class_ALL_def)

interpretation failure_class: wire_vocab failure_class_as_str failure_class_from_wire_str
  unfolding failure_class_from_wire_str_def [abs_def]
  by (rule wire_find_vocab [OF failure_class_all failure_class_distinct])

section \<open>Errors, results and identifiers\<close>

datatype voom_error =
    Database | UninitializedDatabase | Migration | DirtyMigration | SchemaTooNew
  | Config | NotFound | Internal | DependencyCycle | Conflict | Unauthorized
  | BlockedByUseLease | BlockedByPendingCommit | BlockedByClosureGrew
  | StaleIdentityEvidence | ClosureResolutionIncomplete
  | WorkerTimeout | WorkerCrash | NoEligibleWorker | ArtifactUnavailable
  | ArtifactChecksumMismatch | ExternalSystemUnavailable | ExternalSystemRateLimited
  | VerificationFailure | BackupFailure | CommitFailure
  | PolicyParseError | PolicyValidationError | PlanGeneration | ComplianceReport
  | PolicyExecution | MissingCapability | MalformedWorkerResult | UserCancellation
  | ApprovalRequired | PriorityPolicyConflict | WorkerRetired | WorkerIncarnationStale
  | AmbiguousWorkerSelection

primrec voom_error_code :: "voom_error \<Rightarrow> error_code" where
  "voom_error_code voom_error.Database = error_code.DbUnreachable"
| "voom_error_code voom_error.UninitializedDatabase = error_code.DbUninitialized"
| "voom_error_code voom_error.Migration = error_code.DbPartialSchema"
| "voom_error_code voom_error.DirtyMigration = error_code.DbDirtyMigration"
| "voom_error_code voom_error.SchemaTooNew = error_code.DbSchemaTooNew"
| "voom_error_code voom_error.Config = error_code.ConfigInvalid"
| "voom_error_code voom_error.NotFound = error_code.NotFound"
| "voom_error_code voom_error.Internal = error_code.Internal"
| "voom_error_code voom_error.DependencyCycle = error_code.DependencyCycle"
| "voom_error_code voom_error.Conflict = error_code.Conflict"
| "voom_error_code voom_error.Unauthorized = error_code.Unauthorized"
| "voom_error_code voom_error.BlockedByUseLease = error_code.BlockedByUseLease"
| "voom_error_code voom_error.BlockedByPendingCommit = error_code.BlockedByPendingCommit"
| "voom_error_code voom_error.BlockedByClosureGrew = error_code.BlockedByClosureGrew"
| "voom_error_code voom_error.StaleIdentityEvidence = error_code.StaleIdentityEvidence"
| "voom_error_code voom_error.ClosureResolutionIncomplete = error_code.ClosureResolutionIncomplete"
| "voom_error_code voom_error.WorkerTimeout = error_code.WorkerTimeout"
| "voom_error_code voom_error.WorkerCrash = error_code.WorkerCrash"
| "voom_error_code voom_error.NoEligibleWorker = error_code.NoEligibleWorker"
| "voom_error_code voom_error.ArtifactUnavailable = error_code.ArtifactUnavailable"
| "voom_error_code voom_error.ArtifactChecksumMismatch = error_code.ArtifactChecksumMismatch"
| "voom_error_code voom_error.ExternalSystemUnavailable = error_code.ExternalSystemUnavailable"
| "voom_error_code voom_error.ExternalSystemRateLimited = error_code.ExternalSystemRateLimited"
| "voom_error_code voom_error.VerificationFailure = error_code.VerificationFailure"
| "voom_error_code voom_error.BackupFailure = error_code.BackupFailure"
| "voom_error_code voom_error.CommitFailure = error_code.CommitFailure"
| "voom_error_code voom_error.PolicyParseError = error_code.PolicyParseError"
| "voom_error_code voom_error.PolicyValidationError = error_code.PolicyValidationError"
| "voom_error_code voom_error.PlanGeneration = error_code.PlanGenerationError"
| "voom_error_code voom_error.ComplianceReport = error_code.ComplianceReportError"
| "voom_error_code voom_error.PolicyExecution = error_code.PolicyExecutionError"
| "voom_error_code voom_error.MissingCapability = error_code.MissingCapability"
| "voom_error_code voom_error.MalformedWorkerResult = error_code.MalformedWorkerResult"
| "voom_error_code voom_error.UserCancellation = error_code.UserCancellation"
| "voom_error_code voom_error.ApprovalRequired = error_code.ApprovalRequired"
| "voom_error_code voom_error.PriorityPolicyConflict = error_code.PriorityPolicyConflict"
| "voom_error_code voom_error.WorkerRetired = error_code.WorkerRetired"
| "voom_error_code voom_error.WorkerIncarnationStale = error_code.WorkerIncarnationStale"
| "voom_error_code voom_error.AmbiguousWorkerSelection = error_code.AmbiguousWorkerSelection"

type_synonym 'a res = "voom_error + 'a"

text \<open>Instants are UTC nanoseconds; the store keeps them as ISO-8601 text whose order is theirs.\<close>

type_synonym instant = int

definition i64_from_u64 :: "nat \<Rightarrow> int res" where
  "i64_from_u64 v = (if v < 2 ^ 63 then Inr (int v) else Inl Database)"

definition u64_from_i64 :: "int \<Rightarrow> nat res" where
  "u64_from_i64 v = (if 0 \<le> v then Inr (nat v) else Inl Database)"

definition u32_from_i64 :: "int \<Rightarrow> nat res" where
  "u32_from_i64 v = (if 0 \<le> v \<and> v < 2 ^ 32 then Inr (nat v) else Inl Database)"

lemma i64_from_u64_Inr [simp]: "i64_from_u64 v = Inr i \<longleftrightarrow> v < 2 ^ 63 \<and> i = int v"
  by (auto simp: i64_from_u64_def)

lemma i64_from_u64_Inl [simp]: "i64_from_u64 v = Inl e \<longleftrightarrow> \<not> v < 2 ^ 63 \<and> e = Database"
  by (auto simp: i64_from_u64_def)

lemma u64_i64_roundtrip: "i64_from_u64 v = Inr i \<Longrightarrow> u64_from_i64 i = Inr v"
  by (auto simp: u64_from_i64_def)

section \<open>Transactions\<close>

text \<open>
  An operation on the database returns its result and the state of the transaction it leaves.
  \<open>transact\<close> is a committing wrapper: an error drops the \<^verbatim>\<open>sqlx::Transaction\<close>, which
  rolls the database back.
\<close>

type_synonym ('s, 'a) tx = "'s \<Rightarrow> 'a res \<times> 's"

definition bind_tx :: "('s, 'a) tx \<Rightarrow> ('a \<Rightarrow> ('s, 'b) tx) \<Rightarrow> ('s, 'b) tx" where
  "bind_tx m f = (\<lambda>s. case m s of (Inl e, s') \<Rightarrow> (Inl e, s') | (Inr x, s') \<Rightarrow> f x s')"

definition return_tx :: "'a \<Rightarrow> ('s, 'a) tx" where
  "return_tx x = (\<lambda>s. (Inr x, s))"

definition throw_tx :: "voom_error \<Rightarrow> ('s, 'a) tx" where
  "throw_tx e = (\<lambda>s. (Inl e, s))"

definition lift_res :: "'a res \<Rightarrow> ('s, 'a) tx" where
  "lift_res r = (\<lambda>s. (r, s))"

definition read_tx :: "('s \<Rightarrow> 'a) \<Rightarrow> ('s, 'a) tx" where
  "read_tx f = (\<lambda>s. (Inr (f s), s))"

definition modify_tx :: "('s \<Rightarrow> 's) \<Rightarrow> ('s, unit) tx" where
  "modify_tx f = (\<lambda>s. (Inr (), f s))"

definition transact :: "('s, 'a) tx \<Rightarrow> ('s, 'a) tx" where
  "transact m = (\<lambda>s. case m s of (Inl e, s') \<Rightarrow> (Inl e, s) | (Inr x, s') \<Rightarrow> (Inr x, s'))"

lemma bind_tx_Inr:
  "bind_tx m f s = (Inr y, s'') \<longleftrightarrow> (\<exists>x s'. m s = (Inr x, s') \<and> f x s' = (Inr y, s''))"
  by (auto simp: bind_tx_def split: prod.splits sum.splits)

lemma transact_Inl: "transact m s = (Inl e, s') \<Longrightarrow> s' = s"
  by (auto simp: transact_def split: prod.splits sum.splits)

lemma transact_Inr [simp]: "transact m s = (Inr x, s') \<longleftrightarrow> m s = (Inr x, s')"
  by (auto simp: transact_def split: prod.splits sum.splits)

lemma bind_tx_apply [simp]:
  "bind_tx (return_tx x) f s = f x s"
  "bind_tx (throw_tx e) f s = (Inl e, s)"
  "bind_tx (lift_res (Inr x)) f s = f x s"
  "bind_tx (lift_res (Inl e)) f s = (Inl e, s)"
  "bind_tx (read_tx g) f s = f (g s) s"
  "bind_tx (modify_tx h) k s = k () (h s)"
  by (simp_all add: bind_tx_def return_tx_def throw_tx_def lift_res_def read_tx_def modify_tx_def)

text \<open>A loop over a list whose body may fail, collecting the results.\<close>

fun for_tx :: "('a \<Rightarrow> ('s, 'b) tx) \<Rightarrow> 'a list \<Rightarrow> ('s, 'b list) tx" where
  "for_tx f [] = return_tx []"
| "for_tx f (x # xs) = bind_tx (f x) (\<lambda>y. bind_tx (for_tx f xs) (\<lambda>ys. return_tx (y # ys)))"

lemma return_tx_Inr [simp]: "return_tx x s = (Inr y, s') \<longleftrightarrow> y = x \<and> s' = s"
  by (auto simp: return_tx_def)

lemma throw_tx_Inr [simp]: "throw_tx e s \<noteq> (Inr y, s')"
  by (simp add: throw_tx_def)

lemma read_tx_Inr [simp]: "read_tx f s = (Inr y, s') \<longleftrightarrow> y = f s \<and> s' = s"
  by (auto simp: read_tx_def)

lemma lift_res_Inr [simp]: "lift_res r s = (Inr y, s') \<longleftrightarrow> r = Inr y \<and> s' = s"
  by (auto simp: lift_res_def)

lemma modify_tx_Inr [simp]: "modify_tx f s = (Inr u, s') \<longleftrightarrow> s' = f s"
  by (auto simp: modify_tx_def)

text \<open>A relation kept by every iteration is kept by the loop.\<close>

lemma for_tx_rel:
  assumes "for_tx f xs s = (Inr ys, s')"
    and "\<And>x y s s'. x \<in> set xs \<Longrightarrow> f x s = (Inr y, s') \<Longrightarrow> R s s'"
    and "\<And>s. R s s" and "\<And>a b c. R a b \<Longrightarrow> R b c \<Longrightarrow> R a c"
  shows "R s s'"
  using assms(1,2)
proof (induction xs arbitrary: s ys)
  case Nil
  then show ?case using assms(3) by simp
next
  case (Cons x xs)
  from Cons.prems(1) obtain y s1 zs where "f x s = (Inr y, s1)" "for_tx f xs s1 = (Inr zs, s')"
    by (auto simp: bind_tx_Inr)
  then show ?case using Cons.IH Cons.prems(2) assms(4) by (meson list.set_intros)
qed

end
