(* ===== verification/Taxonomy.thy ===== *)
theory Taxonomy
  imports Voom_Errors
begin

text \<open>
  The execution vocabularies of \<^verbatim>\<open>crates/voom-core/src/taxonomy\<close>: operation kinds and the
  ticket operation tokens built from them, artifact access modes, node and worker kinds and
  statuses. Every vocabulary interprets \<open>wire_vocab\<close>. A \<^verbatim>\<open>TicketOperation\<close> is its token.
\<close>

section \<open>Operation kinds\<close>

datatype operation_kind =
    ScanLibrary | ProbeFile | HashFile | IdentifyMedia | ScoreQuality | SyncExternalSystem
   | BackUpFile | Remux | TranscodeVideo | TranscodeAudio | EditTracks | ExtractAudio
   | VerifyArtifact | CommitArtifact | DeleteArtifact

primrec operation_kind_as_str :: "operation_kind \<Rightarrow> string" where
  "operation_kind_as_str ScanLibrary = ''scan_library''"
| "operation_kind_as_str ProbeFile = ''probe_file''"
| "operation_kind_as_str HashFile = ''hash_file''"
| "operation_kind_as_str IdentifyMedia = ''identify_media''"
| "operation_kind_as_str ScoreQuality = ''score_quality''"
| "operation_kind_as_str SyncExternalSystem = ''sync_external_system''"
| "operation_kind_as_str BackUpFile = ''back_up_file''"
| "operation_kind_as_str Remux = ''remux''"
| "operation_kind_as_str TranscodeVideo = ''transcode_video''"
| "operation_kind_as_str TranscodeAudio = ''transcode_audio''"
| "operation_kind_as_str EditTracks = ''edit_tracks''"
| "operation_kind_as_str ExtractAudio = ''extract_audio''"
| "operation_kind_as_str VerifyArtifact = ''verify_artifact''"
| "operation_kind_as_str CommitArtifact = ''commit_artifact''"
| "operation_kind_as_str DeleteArtifact = ''delete_artifact''"

definition operation_kind_ALL :: "operation_kind list" where
  "operation_kind_ALL =
    [ScanLibrary, ProbeFile, HashFile, IdentifyMedia, ScoreQuality, SyncExternalSystem,
     BackUpFile, Remux, TranscodeVideo, TranscodeAudio, EditTracks, ExtractAudio,
     VerifyArtifact, CommitArtifact, DeleteArtifact]"

definition operation_kind_from_wire :: "string \<Rightarrow> operation_kind option" where
  "operation_kind_from_wire token = wire_find operation_kind_ALL operation_kind_as_str token"

primrec is_byte_touching :: "operation_kind \<Rightarrow> bool" where
  "is_byte_touching ScanLibrary = True"
| "is_byte_touching ProbeFile = True"
| "is_byte_touching HashFile = True"
| "is_byte_touching IdentifyMedia = False"
| "is_byte_touching ScoreQuality = False"
| "is_byte_touching SyncExternalSystem = False"
| "is_byte_touching BackUpFile = True"
| "is_byte_touching Remux = True"
| "is_byte_touching TranscodeVideo = True"
| "is_byte_touching TranscodeAudio = True"
| "is_byte_touching EditTracks = True"
| "is_byte_touching ExtractAudio = True"
| "is_byte_touching VerifyArtifact = True"
| "is_byte_touching CommitArtifact = True"
| "is_byte_touching DeleteArtifact = True"

primrec is_node_local_media_dispatch :: "operation_kind \<Rightarrow> bool" where
  "is_node_local_media_dispatch ScanLibrary = False"
| "is_node_local_media_dispatch ProbeFile = True"
| "is_node_local_media_dispatch HashFile = False"
| "is_node_local_media_dispatch IdentifyMedia = False"
| "is_node_local_media_dispatch ScoreQuality = False"
| "is_node_local_media_dispatch SyncExternalSystem = False"
| "is_node_local_media_dispatch BackUpFile = True"
| "is_node_local_media_dispatch Remux = True"
| "is_node_local_media_dispatch TranscodeVideo = True"
| "is_node_local_media_dispatch TranscodeAudio = True"
| "is_node_local_media_dispatch EditTracks = False"
| "is_node_local_media_dispatch ExtractAudio = True"
| "is_node_local_media_dispatch VerifyArtifact = True"
| "is_node_local_media_dispatch CommitArtifact = False"
| "is_node_local_media_dispatch DeleteArtifact = False"

lemma operation_kind_all: "set operation_kind_ALL = UNIV"
proof -
  have "x \<in> set operation_kind_ALL" for x
    by (cases x) (simp_all add: operation_kind_ALL_def)
  then show ?thesis by blast
qed

lemma operation_kind_distinct: "distinct (map operation_kind_as_str operation_kind_ALL)"
  by (simp add: operation_kind_ALL_def)

interpretation operation_kind: wire_vocab operation_kind_as_str operation_kind_from_wire
  unfolding operation_kind_from_wire_def [abs_def]
  by (rule wire_find_vocab [OF operation_kind_all operation_kind_distinct])

lemma media_dispatch_is_byte_touching: "is_node_local_media_dispatch k \<Longrightarrow> is_byte_touching k"
  by (cases k) simp_all

section \<open>Ticket operation tokens\<close>

type_synonym ticket_operation = string

definition WORKFLOW_OPERATION_NAMESPACE :: string where
  "WORKFLOW_OPERATION_NAMESPACE = ''synthetic.workflow.operation.''"

definition is_token_char :: "char \<Rightarrow> bool" where
  "is_token_char c = (let n = (of_char c :: nat) in
     (48 \<le> n \<and> n \<le> 57) \<or> (65 \<le> n \<and> n \<le> 90) \<or> (97 \<le> n \<and> n \<le> 122) \<or>
     c = CHR ''_'' \<or> c = CHR ''-'' \<or> c = CHR ''.'')"

definition validate_operation_token :: "string \<Rightarrow> bool" where
  "validate_operation_token value \<longleftrightarrow> value \<noteq> [] \<and> list_all is_token_char value"

definition ticket_operation_new :: "string \<Rightarrow> ticket_operation res" where
  "ticket_operation_new value =
     (if validate_operation_token value then Inr value else Inl Config)"

definition ticket_operation_from_stored :: "string \<Rightarrow> ticket_operation res" where
  "ticket_operation_from_stored value =
     (if validate_operation_token value then Inr value else Inl Database)"

datatype normalized_ticket_operation =
    Known operation_kind bool
  | CustomLocal ticket_operation
  | UnknownNamespaced ticket_operation

definition normalize :: "ticket_operation \<Rightarrow> normalized_ticket_operation" where
  "normalize op =
     (case strip_prefix WORKFLOW_OPERATION_NAMESPACE op of
        Some suffix \<Rightarrow> (case operation_kind_from_wire suffix of
            None \<Rightarrow> UnknownNamespaced op
          | Some kind \<Rightarrow> Known kind True)
      | None \<Rightarrow> (case operation_kind_from_wire op of
            None \<Rightarrow> CustomLocal op
          | Some kind \<Rightarrow> Known kind False))"

fun matching_tokens :: "normalized_ticket_operation \<Rightarrow> ticket_operation list" where
  "matching_tokens (Known kind _) =
     [operation_kind_as_str kind, WORKFLOW_OPERATION_NAMESPACE @ operation_kind_as_str kind]"
| "matching_tokens (CustomLocal token) = [token]"
| "matching_tokens (UnknownNamespaced _) = []"

fun normalized_operation_kind :: "normalized_ticket_operation \<Rightarrow> operation_kind option" where
  "normalized_operation_kind (Known kind _) = Some kind"
| "normalized_operation_kind _ = None"

fun matching_token :: "normalized_ticket_operation \<Rightarrow> ticket_operation" where
  "matching_token (Known kind _) = operation_kind_as_str kind"
| "matching_token (CustomLocal token) = token"
| "matching_token (UnknownNamespaced token) = token"

lemma strip_namespace_bare [simp]:
  "strip_prefix WORKFLOW_OPERATION_NAMESPACE (operation_kind_as_str k) = None"
  by (cases k) (simp_all add: strip_prefix_def WORKFLOW_OPERATION_NAMESPACE_def)

lemma normalize_bare [simp]: "normalize (operation_kind_as_str k) = Known k False"
  by (simp add: normalize_def operation_kind.parse_as_str)

lemma normalize_namespaced [simp]:
  "normalize (WORKFLOW_OPERATION_NAMESPACE @ operation_kind_as_str k) = Known k True"
  by (simp add: normalize_def operation_kind.parse_as_str)

lemma normalize_Known_iff:
  "normalize op = Known k n \<longleftrightarrow>
     op = (if n then WORKFLOW_OPERATION_NAMESPACE @ operation_kind_as_str k
           else operation_kind_as_str k)"
proof
  assume "normalize op = Known k n"
  then show "op = (if n then WORKFLOW_OPERATION_NAMESPACE @ operation_kind_as_str k
           else operation_kind_as_str k)"
    by (auto simp: normalize_def operation_kind.from_wire_iff strip_prefix_Some
        split: option.splits)
next
  show "normalize op = Known k n" if
    "op = (if n then WORKFLOW_OPERATION_NAMESPACE @ operation_kind_as_str k
           else operation_kind_as_str k)"
    using that by (simp split: if_splits)
qed

lemma normalize_CustomLocal: "normalize op = CustomLocal t \<Longrightarrow> t = op"
  by (auto simp: normalize_def split: option.splits)

lemma normalize_UnknownNamespaced: "normalize op = UnknownNamespaced t \<Longrightarrow> t = op"
  by (auto simp: normalize_def split: option.splits)

section \<open>Access modes, nodes and workers\<close>

datatype artifact_access_mode =
    SharedMount | ControlPlanePlaceholder | StagedOutputPlaceholder

primrec artifact_access_mode_as_str :: "artifact_access_mode \<Rightarrow> string" where
  "artifact_access_mode_as_str artifact_access_mode.SharedMount = ''shared_mount''"
| "artifact_access_mode_as_str artifact_access_mode.ControlPlanePlaceholder = ''control_plane_placeholder''"
| "artifact_access_mode_as_str artifact_access_mode.StagedOutputPlaceholder = ''staged_output_placeholder''"

definition artifact_access_mode_from_wire :: "string \<Rightarrow> artifact_access_mode option" where
  "artifact_access_mode_from_wire s =
    (if s = ''shared_mount'' then Some artifact_access_mode.SharedMount else
     if s = ''control_plane_placeholder'' then Some artifact_access_mode.ControlPlanePlaceholder else
     if s = ''staged_output_placeholder'' then Some artifact_access_mode.StagedOutputPlaceholder else
     None)"

interpretation artifact_access_mode: wire_vocab artifact_access_mode_as_str artifact_access_mode_from_wire
proof
  show "artifact_access_mode_from_wire (artifact_access_mode_as_str x) = Some x" for x
    by (cases x) (simp_all add: artifact_access_mode_from_wire_def)
  show "artifact_access_mode_from_wire s = Some x \<Longrightarrow> artifact_access_mode_as_str x = s" for s x
    by (auto simp: artifact_access_mode_from_wire_def split: if_splits)
qed

datatype node_kind =
    Local | Remote | Synthetic

primrec node_kind_as_str :: "node_kind \<Rightarrow> string" where
  "node_kind_as_str node_kind.Local = ''local''"
| "node_kind_as_str node_kind.Remote = ''remote''"
| "node_kind_as_str node_kind.Synthetic = ''synthetic''"

definition node_kind_from_wire :: "string \<Rightarrow> node_kind option" where
  "node_kind_from_wire s =
    (if s = ''local'' then Some node_kind.Local else
     if s = ''remote'' then Some node_kind.Remote else
     if s = ''synthetic'' then Some node_kind.Synthetic else
     None)"

interpretation node_kind: wire_vocab node_kind_as_str node_kind_from_wire
proof
  show "node_kind_from_wire (node_kind_as_str x) = Some x" for x
    by (cases x) (simp_all add: node_kind_from_wire_def)
  show "node_kind_from_wire s = Some x \<Longrightarrow> node_kind_as_str x = s" for s x
    by (auto simp: node_kind_from_wire_def split: if_splits)
qed

datatype node_status =
    Registered | Active | Stale | Retired

primrec node_status_as_str :: "node_status \<Rightarrow> string" where
  "node_status_as_str node_status.Registered = ''registered''"
| "node_status_as_str node_status.Active = ''active''"
| "node_status_as_str node_status.Stale = ''stale''"
| "node_status_as_str node_status.Retired = ''retired''"

definition node_status_from_wire :: "string \<Rightarrow> node_status option" where
  "node_status_from_wire s =
    (if s = ''registered'' then Some node_status.Registered else
     if s = ''active'' then Some node_status.Active else
     if s = ''stale'' then Some node_status.Stale else
     if s = ''retired'' then Some node_status.Retired else
     None)"

interpretation node_status: wire_vocab node_status_as_str node_status_from_wire
proof
  show "node_status_from_wire (node_status_as_str x) = Some x" for x
    by (cases x) (simp_all add: node_status_from_wire_def)
  show "node_status_from_wire s = Some x \<Longrightarrow> node_status_as_str x = s" for s x
    by (auto simp: node_status_from_wire_def split: if_splits)
qed

datatype node_incarnation_status =
    Active | Superseded | Retired | Failed

primrec node_incarnation_status_as_str :: "node_incarnation_status \<Rightarrow> string" where
  "node_incarnation_status_as_str node_incarnation_status.Active = ''active''"
| "node_incarnation_status_as_str node_incarnation_status.Superseded = ''superseded''"
| "node_incarnation_status_as_str node_incarnation_status.Retired = ''retired''"
| "node_incarnation_status_as_str node_incarnation_status.Failed = ''failed''"

definition node_incarnation_status_parse :: "string \<Rightarrow> node_incarnation_status option" where
  "node_incarnation_status_parse s =
    (if s = ''active'' then Some node_incarnation_status.Active else
     if s = ''superseded'' then Some node_incarnation_status.Superseded else
     if s = ''retired'' then Some node_incarnation_status.Retired else
     if s = ''failed'' then Some node_incarnation_status.Failed else
     None)"

interpretation node_incarnation_status: wire_vocab node_incarnation_status_as_str node_incarnation_status_parse
proof
  show "node_incarnation_status_parse (node_incarnation_status_as_str x) = Some x" for x
    by (cases x) (simp_all add: node_incarnation_status_parse_def)
  show "node_incarnation_status_parse s = Some x \<Longrightarrow> node_incarnation_status_as_str x = s" for s x
    by (auto simp: node_incarnation_status_parse_def split: if_splits)
qed

datatype node_incarnation_end_reason =
    Superseded | GracefulShutdown | ChildStartupFailed | ChildRestartExhausted
   | HeartbeatExpired | LogicalNodeRetired

primrec node_incarnation_end_reason_as_str :: "node_incarnation_end_reason \<Rightarrow> string" where
  "node_incarnation_end_reason_as_str node_incarnation_end_reason.Superseded = ''superseded''"
| "node_incarnation_end_reason_as_str node_incarnation_end_reason.GracefulShutdown = ''graceful_shutdown''"
| "node_incarnation_end_reason_as_str node_incarnation_end_reason.ChildStartupFailed = ''child_startup_failed''"
| "node_incarnation_end_reason_as_str node_incarnation_end_reason.ChildRestartExhausted = ''child_restart_exhausted''"
| "node_incarnation_end_reason_as_str node_incarnation_end_reason.HeartbeatExpired = ''heartbeat_expired''"
| "node_incarnation_end_reason_as_str node_incarnation_end_reason.LogicalNodeRetired = ''logical_node_retired''"

definition node_incarnation_end_reason_parse :: "string \<Rightarrow> node_incarnation_end_reason option" where
  "node_incarnation_end_reason_parse s =
    (if s = ''superseded'' then Some node_incarnation_end_reason.Superseded else
     if s = ''graceful_shutdown'' then Some node_incarnation_end_reason.GracefulShutdown else
     if s = ''child_startup_failed'' then Some node_incarnation_end_reason.ChildStartupFailed else
     if s = ''child_restart_exhausted'' then Some node_incarnation_end_reason.ChildRestartExhausted else
     if s = ''heartbeat_expired'' then Some node_incarnation_end_reason.HeartbeatExpired else
     if s = ''logical_node_retired'' then Some node_incarnation_end_reason.LogicalNodeRetired else
     None)"

interpretation node_incarnation_end_reason: wire_vocab node_incarnation_end_reason_as_str node_incarnation_end_reason_parse
proof
  show "node_incarnation_end_reason_parse (node_incarnation_end_reason_as_str x) = Some x" for x
    by (cases x) (simp_all add: node_incarnation_end_reason_parse_def)
  show "node_incarnation_end_reason_parse s = Some x \<Longrightarrow> node_incarnation_end_reason_as_str x = s" for s x
    by (auto simp: node_incarnation_end_reason_parse_def split: if_splits)
qed

datatype worker_kind =
    Synthetic | Local | Remote

primrec worker_kind_as_str :: "worker_kind \<Rightarrow> string" where
  "worker_kind_as_str worker_kind.Synthetic = ''synthetic''"
| "worker_kind_as_str worker_kind.Local = ''local''"
| "worker_kind_as_str worker_kind.Remote = ''remote''"

definition worker_kind_from_wire :: "string \<Rightarrow> worker_kind option" where
  "worker_kind_from_wire s =
    (if s = ''synthetic'' then Some worker_kind.Synthetic else
     if s = ''local'' then Some worker_kind.Local else
     if s = ''remote'' then Some worker_kind.Remote else
     None)"

interpretation worker_kind: wire_vocab worker_kind_as_str worker_kind_from_wire
proof
  show "worker_kind_from_wire (worker_kind_as_str x) = Some x" for x
    by (cases x) (simp_all add: worker_kind_from_wire_def)
  show "worker_kind_from_wire s = Some x \<Longrightarrow> worker_kind_as_str x = s" for s x
    by (auto simp: worker_kind_from_wire_def split: if_splits)
qed

datatype worker_readiness = Ready | NotReady

datatype worker_status =
    Registered | Active | Stale | Retired

primrec worker_status_as_str :: "worker_status \<Rightarrow> string" where
  "worker_status_as_str worker_status.Registered = ''registered''"
| "worker_status_as_str worker_status.Active = ''active''"
| "worker_status_as_str worker_status.Stale = ''stale''"
| "worker_status_as_str worker_status.Retired = ''retired''"

definition worker_status_from_wire :: "string \<Rightarrow> worker_status option" where
  "worker_status_from_wire s =
    (if s = ''registered'' then Some worker_status.Registered else
     if s = ''active'' then Some worker_status.Active else
     if s = ''stale'' then Some worker_status.Stale else
     if s = ''retired'' then Some worker_status.Retired else
     None)"

interpretation worker_status: wire_vocab worker_status_as_str worker_status_from_wire
proof
  show "worker_status_from_wire (worker_status_as_str x) = Some x" for x
    by (cases x) (simp_all add: worker_status_from_wire_def)
  show "worker_status_from_wire s = Some x \<Longrightarrow> worker_status_as_str x = s" for s x
    by (auto simp: worker_status_from_wire_def split: if_splits)
qed

end
