(* ===== verification/Scheduler.thy ===== *)
theory Scheduler
  imports Taxonomy
begin

text \<open>
  The scheduler crate (\<^verbatim>\<open>crates/voom-scheduler/src/lib.rs\<close>): hard gates, scoring and the
  selection of one candidate by \<^verbatim>\<open>SchedulerScorer::score\<close>, with the JSON explanation it
  returns, and the selection of the least loaded worker. Counts of type \<^verbatim>\<open>u32\<close> and scores of
  type \<^verbatim>\<open>i64\<close> are \<open>nat\<close> and \<open>int\<close>; that the arithmetic stays within the Rust
  types is a lemma here (\<open>score_candidate_range\<close>, \<open>less_loaded_range\<close>).
\<close>

section \<open>Candidates\<close>

record ticket_candidate =
  tc_ticket_id :: nat
  tc_operation :: ticket_operation
  tc_priority :: int
  tc_next_eligible_at_epoch_seconds :: int

record worker_candidate =
  wc_worker_id :: nat
  wc_node_id :: nat
  wc_executable :: bool
  wc_has_capability :: bool
  wc_has_grant :: bool
  wc_denied :: bool
  wc_active_leases :: nat
  wc_max_parallel :: nat
  wc_artifact_access :: "artifact_access_mode list"

record node_candidate =
  nc_node_id :: nat
  nc_executable :: bool
  nc_heartbeat_fresh :: bool
  nc_active_leases :: nat
  nc_max_parallel_leases :: nat

record scheduler_candidate =
  sc_ticket :: ticket_candidate
  sc_worker :: worker_candidate
  sc_node :: node_candidate

record selected_candidate =
  sel_ticket_id :: nat
  sel_worker_id :: nat
  sel_node_id :: nat
  sel_access_mode :: artifact_access_mode
  sel_score :: int

datatype score_outcome = OutcomeSelected | OutcomeIdle | OutcomeNoEligibleCandidate

datatype score_reason_code =
    Selected | NoReadyTicket | MissingCapability | MissingGrant | OperationDenied
  | WorkerNotExecutable | NodeNotExecutable | HeartbeatExpired | UnsupportedArtifactAccess
  | WorkerCapacityFull | NodeCapacityFull | NoEligibleCandidate

primrec reason_as_str :: "score_reason_code \<Rightarrow> string" where
  "reason_as_str Selected = ''selected''"
| "reason_as_str NoReadyTicket = ''no_ready_ticket''"
| "reason_as_str MissingCapability = ''missing_capability''"
| "reason_as_str MissingGrant = ''missing_grant''"
| "reason_as_str OperationDenied = ''operation_denied''"
| "reason_as_str WorkerNotExecutable = ''worker_not_executable''"
| "reason_as_str NodeNotExecutable = ''node_not_executable''"
| "reason_as_str HeartbeatExpired = ''heartbeat_expired''"
| "reason_as_str UnsupportedArtifactAccess = ''unsupported_artifact_access''"
| "reason_as_str WorkerCapacityFull = ''worker_capacity_full''"
| "reason_as_str NodeCapacityFull = ''node_capacity_full''"
| "reason_as_str NoEligibleCandidate = ''no_eligible_candidate''"

primrec reason_priority :: "score_reason_code \<Rightarrow> nat" where
  "reason_priority MissingCapability = 0"
| "reason_priority MissingGrant = 1"
| "reason_priority OperationDenied = 2"
| "reason_priority WorkerNotExecutable = 3"
| "reason_priority NodeNotExecutable = 4"
| "reason_priority HeartbeatExpired = 5"
| "reason_priority UnsupportedArtifactAccess = 6"
| "reason_priority WorkerCapacityFull = 7"
| "reason_priority NodeCapacityFull = 8"
| "reason_priority Selected = 9"
| "reason_priority NoReadyTicket = 9"
| "reason_priority NoEligibleCandidate = 9"

definition reason_parse :: "string \<Rightarrow> score_reason_code option" where
  "reason_parse s =
    (if s = ''selected'' then Some Selected else
     if s = ''no_ready_ticket'' then Some NoReadyTicket else
     if s = ''missing_capability'' then Some MissingCapability else
     if s = ''missing_grant'' then Some MissingGrant else
     if s = ''operation_denied'' then Some OperationDenied else
     if s = ''worker_not_executable'' then Some WorkerNotExecutable else
     if s = ''node_not_executable'' then Some NodeNotExecutable else
     if s = ''heartbeat_expired'' then Some HeartbeatExpired else
     if s = ''unsupported_artifact_access'' then Some UnsupportedArtifactAccess else
     if s = ''worker_capacity_full'' then Some WorkerCapacityFull else
     if s = ''node_capacity_full'' then Some NodeCapacityFull else
     if s = ''no_eligible_candidate'' then Some NoEligibleCandidate else
     None)"

interpretation reason: wire_vocab reason_as_str reason_parse
proof
  show "reason_parse (reason_as_str x) = Some x" for x
    by (cases x) (simp_all add: reason_parse_def)
  show "reason_parse s = Some x \<Longrightarrow> reason_as_str x = s" for s x
    by (auto simp: reason_parse_def split: if_splits)
qed

record score_decision =
  sd_outcome :: score_outcome
  sd_selected :: "selected_candidate option"
  sd_candidate_count :: nat
  sd_reason_code :: score_reason_code
  sd_explanation :: json

section \<open>Gates and scores\<close>

definition SCORING_VERSION :: int where
  "SCORING_VERSION = 1"

definition weights_json :: json where
  "weights_json = JObject
     [(''capability'', JInt 1000), (''health'', JInt 500), (''artifact_access'', JInt 100),
      (''worker_capacity'', JInt 50), (''node_capacity'', JInt 20), (''locality'', JInt 20),
      (''cost'', JInt 20), (''tie_breaker'', JInt 1)]"

definition hard_gate_reasons ::
  "scheduler_candidate \<Rightarrow> artifact_access_mode option \<Rightarrow> score_reason_code list" where
  "hard_gate_reasons c access_mode =
     (if \<not> wc_has_capability (sc_worker c) then [MissingCapability] else []) @
     (if \<not> wc_has_grant (sc_worker c) then [MissingGrant] else []) @
     (if wc_denied (sc_worker c) then [OperationDenied] else []) @
     (if \<not> wc_executable (sc_worker c) then [WorkerNotExecutable] else []) @
     (if \<not> nc_executable (sc_node c) then [NodeNotExecutable] else []) @
     (if \<not> nc_heartbeat_fresh (sc_node c) then [HeartbeatExpired] else []) @
     (if access_mode = None then [UnsupportedArtifactAccess] else []) @
     (if wc_active_leases (sc_worker c) \<ge> wc_max_parallel (sc_worker c)
      then [WorkerCapacityFull] else []) @
     (if nc_active_leases (sc_node c) \<ge> nc_max_parallel_leases (sc_node c)
      then [NodeCapacityFull] else [])"

definition select_access_mode :: "artifact_access_mode list \<Rightarrow> artifact_access_mode option" where
  "select_access_mode modes =
     (if List.member modes SharedMount then Some SharedMount
      else if List.member modes ControlPlanePlaceholder then Some ControlPlanePlaceholder
      else if List.member modes StagedOutputPlaceholder then Some StagedOutputPlaceholder
      else None)"

primrec access_score :: "artifact_access_mode \<Rightarrow> int" where
  "access_score SharedMount = 100"
| "access_score ControlPlanePlaceholder = 50"
| "access_score StagedOutputPlaceholder = 25"

text \<open>Subtraction on \<open>nat\<close> is \<^verbatim>\<open>saturating_sub\<close>.\<close>

definition score_candidate :: "scheduler_candidate \<Rightarrow> artifact_access_mode \<Rightarrow> int" where
  "score_candidate c access_mode =
     (let worker_remaining = int (wc_max_parallel (sc_worker c) - wc_active_leases (sc_worker c));
          node_remaining = int (nc_max_parallel_leases (sc_node c) - nc_active_leases (sc_node c))
      in 1000 + 500 + access_score access_mode + worker_remaining * 50 + node_remaining * 20)"

definition factor_json ::
  "scheduler_candidate \<Rightarrow> artifact_access_mode option \<Rightarrow> int \<Rightarrow> json" where
  "factor_json c access_mode score = JObject
     [(''capability'', JInt (if wc_has_capability (sc_worker c) \<and> wc_has_grant (sc_worker c) \<and>
          \<not> wc_denied (sc_worker c) then 1000 else 0)),
      (''health'', JInt (if nc_executable (sc_node c) \<and> nc_heartbeat_fresh (sc_node c)
          then 500 else 0)),
      (''worker_capacity'',
         JInt (int (wc_max_parallel (sc_worker c) - wc_active_leases (sc_worker c)) * 50)),
      (''node_capacity'',
         JInt (int (nc_max_parallel_leases (sc_node c) - nc_active_leases (sc_node c)) * 20)),
      (''artifact_access'',
         JInt (case access_mode of None \<Rightarrow> 0 | Some mode \<Rightarrow> access_score mode)),
      (''tie_breaker'', JInt 0),
      (''total'', JInt score)]"

text \<open>\<^verbatim>\<open>Reverse(priority)\<close> as the negated priority; tuples compare lexicographically.\<close>

definition tie_key :: "scheduler_candidate \<Rightarrow> int \<times> int \<times> nat \<times> nat \<times> nat" where
  "tie_key c =
     (- tc_priority (sc_ticket c), tc_next_eligible_at_epoch_seconds (sc_ticket c),
      nc_node_id (sc_node c), wc_worker_id (sc_worker c), tc_ticket_id (sc_ticket c))"

text \<open>\<^verbatim>\<open>min_by_key\<close> keeps the first of several minima.\<close>

definition min_by_priority :: "score_reason_code list \<Rightarrow> score_reason_code option" where
  "min_by_priority rs = keep_best (\<lambda>a b. reason_priority a < reason_priority b) None rs"

definition first_rejection_reason :: "json list \<Rightarrow> score_reason_code" where
  "first_rejection_reason rows =
     (let reasons = concat (List.map_filter (\<lambda>row. as_array_json (json_index row ''reasons'')) rows);
          codes = List.map_filter reason_parse (List.map_filter as_str_json reasons)
      in case min_by_priority codes of Some r \<Rightarrow> r | None \<Rightarrow> NoEligibleCandidate)"

section \<open>The scoring loop\<close>

text \<open>The facts one iteration computes of a candidate, and its row of the explanation.\<close>

definition candidate_mode :: "scheduler_candidate \<Rightarrow> artifact_access_mode option" where
  "candidate_mode c = select_access_mode (wc_artifact_access (sc_worker c))"

definition candidate_reasons :: "scheduler_candidate \<Rightarrow> score_reason_code list" where
  "candidate_reasons c = hard_gate_reasons c (candidate_mode c)"

definition candidate_eligible :: "scheduler_candidate \<Rightarrow> bool" where
  "candidate_eligible c \<longleftrightarrow> candidate_reasons c = [] \<and> candidate_mode c \<noteq> None"

definition candidate_score :: "scheduler_candidate \<Rightarrow> int" where
  "candidate_score c = (case candidate_mode c of
      Some mode \<Rightarrow> if candidate_eligible c then score_candidate c mode else 0
    | None \<Rightarrow> 0)"

definition explanation_row :: "scheduler_candidate \<Rightarrow> json" where
  "explanation_row c = JObject
     [(''ticket_id'', JInt (int (tc_ticket_id (sc_ticket c)))),
      (''operation'', JString (tc_operation (sc_ticket c))),
      (''worker_id'', JInt (int (wc_worker_id (sc_worker c)))),
      (''node_id'', JInt (int (nc_node_id (sc_node c)))),
      (''eligible'', JBool (candidate_eligible c)),
      (''score'', JInt (candidate_score c)),
      (''selected_access_mode'', (case candidate_mode c of
          None \<Rightarrow> JNull | Some m \<Rightarrow> JString (artifact_access_mode_as_str m))),
      (''factors'', factor_json c (candidate_mode c) (candidate_score c)),
      (''reasons'', JArray (map (\<lambda>r. JString (reason_as_str r)) (candidate_reasons c)))]"

type_synonym best = "(nat \<times> int \<times> artifact_access_mode) option"

definition score_step :: "scheduler_candidate list \<Rightarrow> best \<Rightarrow> nat \<Rightarrow> scheduler_candidate \<Rightarrow> best" where
  "score_step cs best index c =
     (case candidate_mode c of
        None \<Rightarrow> best
      | Some mode \<Rightarrow>
          if \<not> candidate_eligible c then best
          else (case best of
              None \<Rightarrow> Some (index, candidate_score c, mode)
            | Some (best_index, best_score, _) \<Rightarrow>
                if candidate_score c > best_score \<or>
                   (candidate_score c = best_score \<and> tie_key c < tie_key (cs ! best_index))
                then Some (index, candidate_score c, mode)
                else best))"

fun score_loop ::
  "scheduler_candidate list \<Rightarrow> best \<Rightarrow> nat \<Rightarrow> scheduler_candidate list \<Rightarrow> best" where
  "score_loop cs best index [] = best"
| "score_loop cs best index (c # rest) = score_loop cs (score_step cs best index c) (Suc index) rest"

definition score :: "scheduler_candidate list \<Rightarrow> score_decision res" where
  "score candidates =
     (if candidates = [] then Inr \<lparr> sd_outcome = OutcomeIdle, sd_selected = None,
          sd_candidate_count = 0, sd_reason_code = NoReadyTicket,
          sd_explanation = JObject [(''scoring_version'', JInt SCORING_VERSION),
            (''operation'', JNull), (''weights'', weights_json), (''candidates'', JArray [])] \<rparr>
      else let operation = tc_operation (sc_ticket (hd candidates)) in
      if list_ex (\<lambda>c. tc_operation (sc_ticket c) \<noteq> operation) candidates then Inl Internal
      else if list_ex (\<lambda>c. wc_node_id (sc_worker c) \<noteq> nc_node_id (sc_node c)) candidates
        then Inl Internal
      else let best = score_loop candidates None 0 candidates;
               rows = map explanation_row candidates;
               explanation = JObject [(''scoring_version'', JInt SCORING_VERSION),
                 (''operation'', JString operation), (''weights'', weights_json),
                 (''candidates'', JArray rows)]
      in case best of
           Some (index, score, access_mode) \<Rightarrow>
             (let c = candidates ! index in
              Inr \<lparr> sd_outcome = OutcomeSelected,
                sd_selected = Some \<lparr> sel_ticket_id = tc_ticket_id (sc_ticket c),
                  sel_worker_id = wc_worker_id (sc_worker c),
                  sel_node_id = nc_node_id (sc_node c),
                  sel_access_mode = access_mode, sel_score = score \<rparr>,
                sd_candidate_count = length candidates, sd_reason_code = Selected,
                sd_explanation = explanation \<rparr>)
         | None \<Rightarrow>
             Inr \<lparr> sd_outcome = OutcomeNoEligibleCandidate, sd_selected = None,
                sd_candidate_count = length candidates,
                sd_reason_code = first_rejection_reason rows,
                sd_explanation = explanation \<rparr>)"

section \<open>The least loaded worker\<close>

record worker_view =
  wv_worker_id :: nat
  wv_supports :: "operation_kind list"
  wv_active_leases :: nat
  wv_max_parallel :: nat

definition less_loaded :: "worker_view \<Rightarrow> worker_view \<Rightarrow> bool" where
  "less_loaded candidate current =
     (let candidate_load = wv_active_leases candidate * wv_max_parallel current;
          current_load = wv_active_leases current * wv_max_parallel candidate
      in candidate_load < current_load \<or>
         (candidate_load = current_load \<and> wv_worker_id candidate < wv_worker_id current))"

fun select_loop ::
  "operation_kind \<Rightarrow> worker_view option \<Rightarrow> worker_view list \<Rightarrow> worker_view option" where
  "select_loop operation selected [] = selected"
| "select_loop operation selected (candidate # rest) =
     (if \<not> List.member (wv_supports candidate) operation \<or>
         wv_active_leases candidate \<ge> wv_max_parallel candidate
      then select_loop operation selected rest
      else (case selected of
          None \<Rightarrow> select_loop operation (Some candidate) rest
        | Some current \<Rightarrow>
            if less_loaded candidate current then select_loop operation (Some candidate) rest
            else select_loop operation selected rest))"

definition select_least_loaded_worker :: "operation_kind \<Rightarrow> worker_view list \<Rightarrow> nat res" where
  "select_least_loaded_worker operation candidates =
     (case select_loop operation None candidates of
        None \<Rightarrow> Inl NoEligibleWorker
      | Some worker \<Rightarrow> Inr (wv_worker_id worker))"

section \<open>Ranges of the machine arithmetic\<close>

definition candidate_in_range :: "scheduler_candidate \<Rightarrow> bool" where
  "candidate_in_range c \<longleftrightarrow>
     wc_active_leases (sc_worker c) < 2 ^ 32 \<and> wc_max_parallel (sc_worker c) < 2 ^ 32 \<and>
     nc_active_leases (sc_node c) < 2 ^ 32 \<and> nc_max_parallel_leases (sc_node c) < 2 ^ 32"

lemma access_score_bounds: "25 \<le> access_score m" "access_score m \<le> 100"
  by (cases m; simp)+

lemma score_candidate_range:
  assumes "candidate_in_range c"
  shows "1525 \<le> score_candidate c m" and "score_candidate c m < 2 ^ 63"
proof -
  let ?w = "int (wc_max_parallel (sc_worker c) - wc_active_leases (sc_worker c))"
  let ?n = "int (nc_max_parallel_leases (sc_node c) - nc_active_leases (sc_node c))"
  have bounds: "0 \<le> ?w" "0 \<le> ?n" "?w < 2 ^ 32" "?n < 2 ^ 32"
    using assms by (auto simp: candidate_in_range_def)
  show "1525 \<le> score_candidate c m"
    using bounds access_score_bounds [of m] by (simp add: score_candidate_def)
  have "score_candidate c m = 1500 + access_score m + ?w * 50 + ?n * 20"
    by (simp add: score_candidate_def)
  with bounds access_score_bounds [of m] show "score_candidate c m < 2 ^ 63"
    by simp
qed

lemma less_loaded_range:
  assumes "a < 2 ^ 32" and "b < 2 ^ 32"
  shows "(a::nat) * b < 2 ^ 64"
proof -
  have "a * b \<le> (2 ^ 32 - 1) * (2 ^ 32 - 1)"
    using assms by (intro mult_mono) auto
  then show ?thesis by simp
qed

section \<open>The scoring loop keeps the best eligible candidate\<close>

definition cand_better :: "scheduler_candidate \<Rightarrow> scheduler_candidate \<Rightarrow> bool" where
  "cand_better c b \<longleftrightarrow> candidate_score c > candidate_score b \<or>
     (candidate_score c = candidate_score b \<and> tie_key c < tie_key b)"

interpretation cand: preference "\<lambda>_. True" cand_better
  by unfold_locales (auto simp: cand_better_def)

interpretation rprio: preference "\<lambda>_. True" "\<lambda>a b. reason_priority a < reason_priority b"
  by unfold_locales auto

lemma candidate_eligible_iff:
  "candidate_eligible c \<longleftrightarrow>
     wc_has_capability (sc_worker c) \<and> wc_has_grant (sc_worker c) \<and> \<not> wc_denied (sc_worker c) \<and>
     wc_executable (sc_worker c) \<and> nc_executable (sc_node c) \<and> nc_heartbeat_fresh (sc_node c) \<and>
     wc_artifact_access (sc_worker c) \<noteq> [] \<and>
     wc_active_leases (sc_worker c) < wc_max_parallel (sc_worker c) \<and>
     nc_active_leases (sc_node c) < nc_max_parallel_leases (sc_node c)"
proof -
  have "candidate_mode c = None \<longleftrightarrow> wc_artifact_access (sc_worker c) = []"
  proof
    assume *: "candidate_mode c = None"
    have "m \<notin> set (wc_artifact_access (sc_worker c))" for m
      using * by (cases m) (auto simp: candidate_mode_def select_access_mode_def split: if_splits)
    then show "wc_artifact_access (sc_worker c) = []" by (metis list.set_intros(1) neq_Nil_conv)
  qed (simp add: candidate_mode_def select_access_mode_def)
  then show ?thesis
    by (simp add: candidate_eligible_def candidate_reasons_def hard_gate_reasons_def not_le)
qed

lemma ineligible_has_reason: "\<not> candidate_eligible c \<Longrightarrow> candidate_reasons c \<noteq> []"
  by (cases "candidate_mode c")
     (simp_all add: candidate_eligible_def candidate_reasons_def hard_gate_reasons_def)

lemma in_set_if: "x \<in> set (if P then [a] else []) \<longleftrightarrow> P \<and> x = a"
  by auto

lemma candidate_reason_priority: "r \<in> set (candidate_reasons c) \<Longrightarrow> reason_priority r < 9"
  unfolding candidate_reasons_def hard_gate_reasons_def set_append Un_iff in_set_if
  by (elim disjE conjE) simp_all

fun best_is :: "scheduler_candidate list \<Rightarrow> best \<Rightarrow> scheduler_candidate option \<Rightarrow> bool" where
  "best_is cs None None \<longleftrightarrow> True"
| "best_is cs (Some (i, s, m)) (Some c) \<longleftrightarrow>
     i < length cs \<and> cs ! i = c \<and> s = candidate_score c \<and> candidate_mode c = Some m"
| "best_is cs _ _ \<longleftrightarrow> False"

lemma score_step_best:
  assumes "best_is cs best b" and "i < length cs" and "cs ! i = c"
  shows "best_is cs (score_step cs best i c)
    (keep_best cand_better b (if candidate_eligible c then [c] else []))"
  using assms
  by (cases "(cs, best, b)" rule: best_is.cases)
     (auto simp: score_step_def cand_better_def candidate_eligible_def split: option.splits)

lemma keep_best_append: "keep_best better b (xs @ ys) = keep_best better (keep_best better b xs) ys"
  by (induction better b xs rule: keep_best.induct) auto

lemma score_loop_best:
  "best_is cs best b \<Longrightarrow> cs = pre @ rest \<Longrightarrow>
     best_is cs (score_loop cs best (length pre) rest)
       (keep_best cand_better b (filter candidate_eligible rest))"
proof (induction rest arbitrary: best b pre)
  case (Cons c rest)
  have step: "best_is cs (score_step cs best (length pre) c)
    (keep_best cand_better b (if candidate_eligible c then [c] else []))"
    using Cons.prems by (intro score_step_best) (auto simp: nth_append)
  have "filter candidate_eligible (c # rest) =
    (if candidate_eligible c then [c] else []) @ filter candidate_eligible rest" by simp
  then have eq: "keep_best cand_better b (filter candidate_eligible (c # rest)) =
    keep_best cand_better (keep_best cand_better b (if candidate_eligible c then [c] else []))
      (filter candidate_eligible rest)"
    by (metis keep_best_append)
  show ?case
    using Cons.IH [OF step, of "pre @ [c]"] Cons.prems(2) by (simp only: eq) simp
qed simp

text \<open>What a selection reports of a candidate.\<close>

definition selection_of :: "scheduler_candidate \<Rightarrow> selected_candidate" where
  "selection_of c = \<lparr> sel_ticket_id = tc_ticket_id (sc_ticket c),
     sel_worker_id = wc_worker_id (sc_worker c), sel_node_id = nc_node_id (sc_node c),
     sel_access_mode = the (candidate_mode c), sel_score = candidate_score c \<rparr>"

definition chosen :: "scheduler_candidate list \<Rightarrow> scheduler_candidate option" where
  "chosen cs = keep_best cand_better None (filter candidate_eligible cs)"

lemma score_loop_chosen: "best_is cs (score_loop cs None 0 cs) (chosen cs)"
  using score_loop_best [of cs None None "[]" cs] by (simp add: chosen_def)

definition mismatched :: "scheduler_candidate list \<Rightarrow> bool" where
  "mismatched cs \<longleftrightarrow>
     (\<exists>a \<in> set cs. \<exists>b \<in> set cs. tc_operation (sc_ticket a) \<noteq> tc_operation (sc_ticket b)) \<or>
     (\<exists>c \<in> set cs. wc_node_id (sc_worker c) \<noteq> nc_node_id (sc_node c))"

lemma mismatched_hd:
  assumes "cs \<noteq> []"
  shows "mismatched cs \<longleftrightarrow>
     list_ex (\<lambda>c. tc_operation (sc_ticket c) \<noteq> tc_operation (sc_ticket (hd cs))) cs \<or>
     list_ex (\<lambda>c. wc_node_id (sc_worker c) \<noteq> nc_node_id (sc_node c)) cs"
proof -
  have "hd cs \<in> set cs" using assms by simp
  then have "(\<exists>a \<in> set cs. \<exists>b \<in> set cs. tc_operation (sc_ticket a) \<noteq> tc_operation (sc_ticket b)) \<longleftrightarrow>
    (\<exists>c \<in> set cs. tc_operation (sc_ticket c) \<noteq> tc_operation (sc_ticket (hd cs)))" by metis
  then show ?thesis by (simp only: mismatched_def list_ex_iff)
qed

lemma score_mismatched:
  assumes "mismatched cs"
  shows "score cs = Inl Internal"
proof -
  have "cs \<noteq> []" using assms by (auto simp: mismatched_def)
  note gates = assms [unfolded mismatched_hd [OF this]]
  show ?thesis
    using gates \<open>cs \<noteq> []\<close>
    by (cases "list_ex (\<lambda>c. tc_operation (sc_ticket c) \<noteq> tc_operation (sc_ticket (hd cs))) cs")
       (simp_all add: score_def)
qed

lemma score_matched:
  assumes "\<not> mismatched cs"
  shows "\<exists>d. score cs = Inr d \<and> sd_selected d = map_option selection_of (chosen cs) \<and>
    (cs \<noteq> [] \<and> chosen cs = None \<longrightarrow>
       sd_reason_code d = first_rejection_reason (map explanation_row cs))"
proof (cases "cs = []")
  case True
  then show ?thesis by (simp add: score_def chosen_def)
next
  case False
  note gates = assms [unfolded mismatched_hd [OF False], simplified de_Morgan_disj]
  show ?thesis
  proof (cases "score_loop cs None 0 cs")
    case None
    then have "chosen cs = None"
      using score_loop_chosen [of cs] by (cases "chosen cs") auto
    then show ?thesis using False gates None by (simp add: score_def Let_def)
  next
    case (Some b)
    obtain i sc m where b: "b = (i, sc, m)" by (cases b) auto
    obtain c where c: "chosen cs = Some c"
      using score_loop_chosen [of cs] Some b by (cases "chosen cs") auto
    show ?thesis
      using score_loop_chosen [of cs] False gates Some b c
      by (simp add: score_def selection_of_def Let_def)
  qed
qed

lemma score_Inl: "score cs = Inl e \<longleftrightarrow> e = Internal \<and> mismatched cs"
  using score_mismatched [of cs] score_matched [of cs] by (cases "mismatched cs") auto

lemma score_selected:
  assumes "score cs = Inr d"
  shows "sd_selected d = map_option selection_of (chosen cs)"
  using assms score_mismatched [of cs] score_matched [of cs] by (cases "mismatched cs") auto

lemma chosen_None: "chosen cs = None \<longleftrightarrow> (\<forall>c \<in> set cs. \<not> candidate_eligible c)"
  by (auto simp: chosen_def cand.keep_best_None_iff filter_empty_conv)

lemma chosen_Some:
  assumes "chosen cs = Some c"
  shows "c \<in> set cs" and "candidate_eligible c"
    and "c' \<in> set cs \<Longrightarrow> candidate_eligible c' \<Longrightarrow> \<not> cand_better c' c"
  using cand.keep_best_is_best [OF assms [unfolded chosen_def]] by auto

section \<open>Properties of the scorer\<close>

text \<open>C34. A scoring call that returns selects a candidate exactly when one passes every hard
  gate, and then it reports one of the highest score among those that do, and among those of
  that score one with the smallest tie key (priority descending, then next-eligible time, node,
  worker and ticket id).\<close>

theorem score_selects_best:
  assumes "score cs = Inr d"
  shows "case sd_selected d of
      None \<Rightarrow> (\<forall>c \<in> set cs. \<not> candidate_eligible c)
    | Some s \<Rightarrow> (\<exists>c \<in> set cs. candidate_eligible c \<and> s = selection_of c \<and>
        (\<forall>c' \<in> set cs. candidate_eligible c' \<longrightarrow> candidate_score c' < candidate_score c \<or>
           (candidate_score c' = candidate_score c \<and> tie_key c \<le> tie_key c')))"
proof (cases "chosen cs")
  case None
  then show ?thesis using score_selected [OF assms] chosen_None [of cs] by simp
next
  case (Some c)
  have "candidate_score c' < candidate_score c \<or>
      (candidate_score c' = candidate_score c \<and> tie_key c \<le> tie_key c')"
    if "c' \<in> set cs" "candidate_eligible c'" for c'
    using chosen_Some(3) [OF Some that] by (auto simp: cand_better_def not_less)
  then show ?thesis
    using Some score_selected [OF assms] chosen_Some(1,2) [OF Some] by auto
qed

text \<open>C37. The selection does not depend on the order in which candidates are listed: for two
  listings of the same candidates, where no two different candidates share a tie key, the scorer
  fails on both or selects the same on both.\<close>

theorem score_order_independent:
  assumes "set cs = set ds"
    and "\<And>a b. a \<in> set cs \<Longrightarrow> b \<in> set cs \<Longrightarrow> tie_key a = tie_key b \<Longrightarrow> a = b"
  shows "map_sum id sd_selected (score cs) = map_sum id sd_selected (score ds)"
proof -
  have total: "cand_better a b \<or> cand_better b a"
    if "a \<in> set cs" "b \<in> set cs" "a \<noteq> b" for a b
  proof -
    have "tie_key a \<noteq> tie_key b" using assms(2) that by blast
    then show ?thesis unfolding cand_better_def
      by (meson linorder_cases)
  qed
  have same: "chosen cs = chosen ds"
    unfolding chosen_def using assms(1) total by (intro cand.keep_best_order) auto
  have mm: "mismatched cs \<longleftrightarrow> mismatched ds"
    using assms(1) by (simp add: mismatched_def)
  show ?thesis
  proof (cases "mismatched cs")
    case True
    then have "score cs = Inl Internal" "score ds = Inl Internal"
      using mm by (simp_all add: score_Inl)
    then show ?thesis by simp
  next
    case False
    then obtain d d' where d: "score cs = Inr d" "score ds = Inr d'"
      using mm score_Inl by (metis sum.exhaust)
    then show ?thesis using score_selected [OF d(1)] score_selected [OF d(2)] same by simp
  qed
qed

text \<open>Reading the reasons back from the explanation rows gives the candidates' reasons.\<close>

lemma row_reasons:
  "as_array_json (json_index (explanation_row c) ''reasons'') =
     Some (map (\<lambda>r. JString (reason_as_str r)) (candidate_reasons c))"
  by (simp add: explanation_row_def json_index_def json_get_def)

lemma rows_reasons:
  "concat (List.map_filter (\<lambda>row. as_array_json (json_index row ''reasons'')) (map explanation_row cs)) =
     map (\<lambda>r. JString (reason_as_str r)) (concat (map candidate_reasons cs))"
  by (induction cs) (simp_all add: List.map_filter_def row_reasons)

lemma parse_reasons:
  "List.map_filter reason_parse
     (List.map_filter as_str_json (map (\<lambda>r. JString (reason_as_str r)) rs)) = rs"
  by (induction rs) (simp_all add: List.map_filter_def reason.parse_as_str)

lemma first_rejection_reason_eq:
  "first_rejection_reason (map explanation_row cs) =
     (case min_by_priority (concat (map candidate_reasons cs)) of
        Some r \<Rightarrow> r | None \<Rightarrow> NoEligibleCandidate)"
  by (simp add: first_rejection_reason_def rows_reasons parse_reasons)

text \<open>C38. When there are candidates and none is selected, the reason code of the decision, which
  the scorer reads back from the JSON explanation, is a hard-gate failure of some candidate, and
  no candidate fails a gate of a more fundamental (smaller) priority.\<close>

theorem score_reports_most_fundamental_reason:
  assumes "score cs = Inr d" and "cs \<noteq> []" and "sd_selected d = None"
  shows "(\<exists>c \<in> set cs. sd_reason_code d \<in> set (candidate_reasons c)) \<and>
    (\<forall>c \<in> set cs. \<forall>r \<in> set (candidate_reasons c). reason_priority (sd_reason_code d) \<le> reason_priority r)"
proof -
  let ?rs = "concat (map candidate_reasons cs)"
  have ok: "\<not> mismatched cs" using assms(1) score_mismatched [of cs] by auto
  have none: "chosen cs = None" using assms score_selected by simp
  then have "?rs \<noteq> []"
    using assms(2) ineligible_has_reason [of "hd cs"] chosen_None [of cs] by (cases cs) auto
  then obtain r where r: "min_by_priority ?rs = Some r"
    using rprio.keep_best_None_iff [of ?rs] unfolding min_by_priority_def
    by (cases "min_by_priority ?rs") (auto simp: min_by_priority_def)
  have "sd_reason_code d = first_rejection_reason (map explanation_row cs)"
    using score_matched [OF ok] assms none by auto
  then have "sd_reason_code d = r"
    by (simp add: first_rejection_reason_eq r)
  moreover have "r \<in> set ?rs \<and> (\<forall>x \<in> set ?rs. \<not> reason_priority x < reason_priority r)"
    using rprio.keep_best_is_best [of ?rs r] r by (simp add: min_by_priority_def)
  ultimately show ?thesis by (auto simp: not_less)
qed

section \<open>The least loaded worker is minimal\<close>

definition worker_fits :: "operation_kind \<Rightarrow> worker_view \<Rightarrow> bool" where
  "worker_fits operation w \<longleftrightarrow>
     operation \<in> set (wv_supports w) \<and> wv_active_leases w < wv_max_parallel w"

lemma load_trans:
  fixes a b c A B C :: nat
  assumes "a * B \<le> b * A" and "b * C \<le> c * B" and "0 < B"
  shows "a * C \<le> c * A" and "a * B < b * A \<or> b * C < c * B \<Longrightarrow> 0 < C \<Longrightarrow> 0 < A \<Longrightarrow> a * C < c * A"
proof -
  have le1: "(a * B) * C \<le> (b * A) * C" using assms(1) by (rule mult_le_mono1)
  have le2: "(b * C) * A \<le> (c * B) * A" using assms(2) by (rule mult_le_mono1)
  have eqs: "(a * B) * C = B * (a * C)" "(b * C) * A = (b * A) * C" "(c * B) * A = B * (c * A)"
    by (simp_all only: ac_simps)
  have "B * (a * C) \<le> B * (c * A)"
    using le1 le2 unfolding eqs by (rule le_trans)
  then show "a * C \<le> c * A" using assms(3) by simp
  assume strict: "a * B < b * A \<or> b * C < c * B" and pos: "0 < C" "0 < A"
  have "(a * B) * C < (b * A) * C \<or> (b * C) * A < (c * B) * A"
    using strict pos by (meson mult_less_mono1)
  then have "B * (a * C) < B * (c * A)"
    using le1 le2 unfolding eqs by linarith
  then show "a * C < c * A" by simp
qed

lemma load_less_trans:
  fixes a b c A B C :: nat and i j k :: nat
  assumes ab: "a * B < b * A \<or> (a * B = b * A \<and> i < j)"
    and bc: "b * C < c * B \<or> (b * C = c * B \<and> j < k)" and pos: "0 < A" "0 < B" "0 < C"
  shows "a * C < c * A \<or> (a * C = c * A \<and> i < k)"
proof -
  have h: "a * B \<le> b * A" "b * C \<le> c * B" using ab bc by linarith+
  show ?thesis
  proof (cases "a * B < b * A \<or> b * C < c * B")
    case True
    then show ?thesis using load_trans(2) [OF h pos(2)] pos by blast
  next
    case False
    then have "i < k" using ab bc by linarith
    then show ?thesis using load_trans(1) [OF h pos(2)] by linarith
  qed
qed

lemma load_le_trans:
  fixes a b c A B C :: nat and i j k :: nat
  assumes ab: "a * B < b * A \<or> (a * B = b * A \<and> i \<le> j)"
    and bc: "b * C < c * B \<or> (b * C = c * B \<and> j \<le> k)" and pos: "0 < A" "0 < B" "0 < C"
  shows "a * C < c * A \<or> (a * C = c * A \<and> i \<le> k)"
proof -
  have h: "a * B \<le> b * A" "b * C \<le> c * B" using ab bc by linarith+
  show ?thesis
  proof (cases "a * B < b * A \<or> b * C < c * B")
    case True
    then show ?thesis using load_trans(2) [OF h pos(2)] pos by blast
  next
    case False
    then have "i \<le> k" using ab bc by linarith
    then show ?thesis using load_trans(1) [OF h pos(2)] by linarith
  qed
qed

lemma not_less_loaded:
  "\<not> less_loaded v w \<longleftrightarrow>
     wv_active_leases w * wv_max_parallel v < wv_active_leases v * wv_max_parallel w \<or>
     (wv_active_leases w * wv_max_parallel v = wv_active_leases v * wv_max_parallel w \<and>
      wv_worker_id w \<le> wv_worker_id v)"
  unfolding less_loaded_def Let_def by linarith

interpretation load: preference "\<lambda>w. 0 < wv_max_parallel w" less_loaded
proof
  fix a b c :: worker_view
  assume pos: "0 < wv_max_parallel a" "0 < wv_max_parallel b" "0 < wv_max_parallel c"
  show "\<not> less_loaded a a" by (simp add: less_loaded_def)
  show "less_loaded a b \<Longrightarrow> less_loaded b c \<Longrightarrow> less_loaded a c"
    unfolding less_loaded_def Let_def by (rule load_less_trans [OF _ _ pos])
  show "\<not> less_loaded a b \<Longrightarrow> \<not> less_loaded b c \<Longrightarrow> \<not> less_loaded a c"
    unfolding not_less_loaded by (rule load_le_trans [OF _ _ pos(3,2,1)])
qed

lemma select_loop_best:
  "select_loop operation selected ws =
     keep_best less_loaded selected (filter (worker_fits operation) ws)"
  by (induction operation selected ws rule: select_loop.induct)
     (auto simp: worker_fits_def not_le split: option.splits)

text \<open>C39. The least loaded selection fails with \<open>NoEligibleWorker\<close> exactly when no worker supports
  the operation with spare capacity; otherwise it returns such a worker whose utilisation
  (active over limit, compared by cross multiplication) is minimal, the smallest worker id
  breaking ties.\<close>

theorem least_loaded_is_minimal:
  "case select_least_loaded_worker operation ws of
     Inl e \<Rightarrow> e = NoEligibleWorker \<and> (\<forall>w \<in> set ws. \<not> worker_fits operation w)
   | Inr i \<Rightarrow> (\<exists>w \<in> set ws. wv_worker_id w = i \<and> worker_fits operation w \<and>
       (\<forall>v \<in> set ws. worker_fits operation v \<longrightarrow>
          wv_active_leases w * wv_max_parallel v < wv_active_leases v * wv_max_parallel w \<or>
          (wv_active_leases w * wv_max_parallel v = wv_active_leases v * wv_max_parallel w \<and>
           wv_worker_id w \<le> wv_worker_id v)))"
proof (cases "select_loop operation None ws")
  case None
  then show ?thesis
    by (simp add: select_least_loaded_worker_def select_loop_best load.keep_best_None_iff
        filter_empty_conv)
next
  case (Some w)
  have "w \<in> set (filter (worker_fits operation) ws) \<and>
    (\<forall>v \<in> set (filter (worker_fits operation) ws). \<not> less_loaded v w)"
    by (rule load.keep_best_is_best [OF Some [unfolded select_loop_best]])
       (simp add: worker_fits_def)
  then have w: "w \<in> set ws" "worker_fits operation w"
    and min: "\<And>v. v \<in> set ws \<Longrightarrow> worker_fits operation v \<Longrightarrow> \<not> less_loaded v w" by auto
  have "wv_active_leases w * wv_max_parallel v < wv_active_leases v * wv_max_parallel w \<or>
      (wv_active_leases w * wv_max_parallel v = wv_active_leases v * wv_max_parallel w \<and>
       wv_worker_id w \<le> wv_worker_id v)" if "v \<in> set ws" "worker_fits operation v" for v
    using min [OF that] by (simp only: not_less_loaded)
  then show ?thesis using w Some by (auto simp: select_least_loaded_worker_def)
qed

text \<open>The scorer fails only with \<open>Internal\<close>, and exactly when the candidates disagree on the
  operation or one pairs a worker with a node that is not its own.\<close>

theorem score_fails_iff_mismatched: "score cs = Inl e \<longleftrightarrow> e = Internal \<and> mismatched cs"
  by (rule score_Inl)

text \<open>C40. With every count within \<^verbatim>\<open>u32\<close>, the score of an eligible candidate is positive and
  within \<^verbatim>\<open>i64\<close>, so that the unchecked additions of \<^verbatim>\<open>score_candidate\<close> cannot overflow,
  and an eligible candidate always scores above the 0 an ineligible one is listed with.\<close>

theorem candidate_score_in_i64:
  assumes "candidate_in_range c"
  shows "candidate_score c = 0 \<and> \<not> candidate_eligible c \<or>
    1525 \<le> candidate_score c \<and> candidate_score c < 2 ^ 63 \<and> candidate_eligible c"
  using score_candidate_range [OF assms]
  by (cases "candidate_mode c") (auto simp: candidate_score_def candidate_eligible_def)

section \<open>Examples\<close>

definition example_candidate :: "nat \<Rightarrow> nat \<Rightarrow> scheduler_candidate" where
  "example_candidate i active =
     \<lparr> sc_ticket = \<lparr> tc_ticket_id = 7, tc_operation = ''remux'', tc_priority = 0,
         tc_next_eligible_at_epoch_seconds = 0 \<rparr>,
       sc_worker = \<lparr> wc_worker_id = i, wc_node_id = 1, wc_executable = True,
         wc_has_capability = True, wc_has_grant = True, wc_denied = False,
         wc_active_leases = active, wc_max_parallel = 3, wc_artifact_access = [SharedMount] \<rparr>,
       sc_node = \<lparr> nc_node_id = 1, nc_executable = True, nc_heartbeat_fresh = True,
         nc_active_leases = 2, nc_max_parallel_leases = 8 \<rparr> \<rparr>"

lemmas score_eval = score_def score_step_def candidate_eligible_def candidate_reasons_def
  candidate_mode_def candidate_score_def hard_gate_reasons_def select_access_mode_def
  score_candidate_def tie_key_def example_candidate_def selection_of_def Let_def

theorem score_selects_best_witness:
  "\<exists>d. score [example_candidate 5 2, example_candidate 6 1] = Inr d \<and>
     sd_selected d = Some (selection_of (example_candidate 6 1))"
proof -
  obtain d where d: "score [example_candidate 5 2, example_candidate 6 1] = Inr d"
    by (simp add: score_eval)
  have "sd_selected d = Some (selection_of (example_candidate 6 1))"
    using score_selects_best [OF d] by (auto simp: score_eval split: option.splits)
  with d show ?thesis by blast
qed

theorem score_order_independent_witness:
  "map_sum id sd_selected (score [example_candidate 5 2, example_candidate 6 1]) =
   map_sum id sd_selected (score [example_candidate 6 1, example_candidate 5 2])"
  by (rule score_order_independent) (auto simp: tie_key_def example_candidate_def)

theorem score_reports_most_fundamental_reason_witness:
  "\<exists>d. score [example_candidate 5 3] = Inr d \<and> sd_reason_code d = WorkerCapacityFull"
proof -
  obtain d where d: "score [example_candidate 5 3] = Inr d" "sd_selected d = None"
    by (simp add: score_eval)
  have "sd_reason_code d = WorkerCapacityFull"
    using score_reports_most_fundamental_reason [OF d(1) _ d(2)] by (simp add: score_eval)
  with d show ?thesis by blast
qed

definition example_view :: "nat \<Rightarrow> nat \<Rightarrow> nat \<Rightarrow> worker_view" where
  "example_view i active limit =
     \<lparr> wv_worker_id = i, wv_supports = [Remux], wv_active_leases = active, wv_max_parallel = limit \<rparr>"

theorem least_loaded_is_minimal_witness:
  "select_least_loaded_worker Remux [example_view 1 1 2, example_view 2 1 3] = Inr 2 \<and>
   \<not> (\<exists>e. select_least_loaded_worker Remux [example_view 1 1 2, example_view 2 1 3] = Inl e)"
  using least_loaded_is_minimal
    [where operation = Remux and ws = "[example_view 1 1 2, example_view 2 1 3]"]
  by (auto simp: worker_fits_def example_view_def split: sum.splits)

theorem candidate_score_in_i64_witness:
  "1525 \<le> candidate_score (example_candidate 5 1) \<and> candidate_score (example_candidate 5 1) < 2 ^ 63"
proof -
  have "candidate_in_range (example_candidate 5 1)"
    by (simp add: candidate_in_range_def example_candidate_def)
  from candidate_score_in_i64 [OF this] show ?thesis
    by (simp add: score_eval)
qed

end
