(* ===== verification/Store.thy ===== *)
theory Store
  imports Taxonomy
begin

text \<open>
  The database of the execution core: the row types of
  \<^verbatim>\<open>crates/voom-store/src/repo\<close> and the tables of
  \<^verbatim>\<open>migrations/0001_schema.sql\<close> the modelled operations read and write, as one record
  \<open>db\<close> of row lists. Rows are typed: a row that fails to decode is not representable. The
  lifecycle enums of jobs, tickets and leases are here because every component reads them.

  Row ids are \<^verbatim>\<open>u64\<close> newtypes in Rust and \<open>nat\<close> here; an operation that binds an id
  checks that it fits SQLite's \<^verbatim>\<open>i64\<close> first (\<open>bind_i64\<close>).
\<close>

section \<open>Lifecycle states\<close>

datatype job_state = JobOpen | JobSucceeded | JobFailed | JobCancelled

primrec job_state_as_str :: "job_state \<Rightarrow> string" where
  "job_state_as_str JobOpen = ''open''"
| "job_state_as_str JobSucceeded = ''succeeded''"
| "job_state_as_str JobFailed = ''failed''"
| "job_state_as_str JobCancelled = ''cancelled''"

definition job_state_parse :: "string \<Rightarrow> job_state option" where
  "job_state_parse s =
    (if s = ''open'' then Some JobOpen else
     if s = ''succeeded'' then Some JobSucceeded else
     if s = ''failed'' then Some JobFailed else
     if s = ''cancelled'' then Some JobCancelled else None)"

datatype ticket_state = Pending | Ready | Leased | Succeeded | Failed

primrec ticket_state_as_str :: "ticket_state \<Rightarrow> string" where
  "ticket_state_as_str Pending = ''pending''"
| "ticket_state_as_str Ready = ''ready''"
| "ticket_state_as_str Leased = ''leased''"
| "ticket_state_as_str Succeeded = ''succeeded''"
| "ticket_state_as_str Failed = ''failed''"

definition ticket_state_parse :: "string \<Rightarrow> ticket_state option" where
  "ticket_state_parse s =
    (if s = ''pending'' then Some Pending else
     if s = ''ready'' then Some Ready else
     if s = ''leased'' then Some Leased else
     if s = ''succeeded'' then Some Succeeded else
     if s = ''failed'' then Some Failed else None)"

datatype lease_state = Held | Released | Expired | ForceReleased

primrec lease_state_as_str :: "lease_state \<Rightarrow> string" where
  "lease_state_as_str Held = ''held''"
| "lease_state_as_str Released = ''released''"
| "lease_state_as_str Expired = ''expired''"
| "lease_state_as_str ForceReleased = ''force_released''"

definition lease_state_parse :: "string \<Rightarrow> lease_state option" where
  "lease_state_parse s =
    (if s = ''held'' then Some Held else
     if s = ''released'' then Some Released else
     if s = ''expired'' then Some Expired else
     if s = ''force_released'' then Some ForceReleased else None)"

datatype release_reason =
    ReasonReleased | FailedRetriable | FailedTerminal | IssuerLost | ReasonForceReleased

primrec release_reason_as_str :: "release_reason \<Rightarrow> string" where
  "release_reason_as_str ReasonReleased = ''released''"
| "release_reason_as_str FailedRetriable = ''failed_retriable''"
| "release_reason_as_str FailedTerminal = ''failed_terminal''"
| "release_reason_as_str IssuerLost = ''issuer_lost''"
| "release_reason_as_str ReasonForceReleased = ''force_released''"

definition release_reason_parse :: "string \<Rightarrow> release_reason option" where
  "release_reason_parse s =
    (if s = ''released'' then Some ReasonReleased else
     if s = ''failed_retriable'' then Some FailedRetriable else
     if s = ''failed_terminal'' then Some FailedTerminal else
     if s = ''issuer_lost'' then Some IssuerLost else
     if s = ''force_released'' then Some ReasonForceReleased else None)"

interpretation job_state: wire_vocab job_state_as_str job_state_parse
proof
  show "job_state_parse (job_state_as_str x) = Some x" for x
    by (cases x) (simp_all add: job_state_parse_def)
  show "job_state_parse s = Some x \<Longrightarrow> job_state_as_str x = s" for s x
    by (auto simp: job_state_parse_def split: if_splits)
qed

interpretation ticket_state: wire_vocab ticket_state_as_str ticket_state_parse
proof
  show "ticket_state_parse (ticket_state_as_str x) = Some x" for x
    by (cases x) (simp_all add: ticket_state_parse_def)
  show "ticket_state_parse s = Some x \<Longrightarrow> ticket_state_as_str x = s" for s x
    by (auto simp: ticket_state_parse_def split: if_splits)
qed

interpretation lease_state: wire_vocab lease_state_as_str lease_state_parse
proof
  show "lease_state_parse (lease_state_as_str x) = Some x" for x
    by (cases x) (simp_all add: lease_state_parse_def)
  show "lease_state_parse s = Some x \<Longrightarrow> lease_state_as_str x = s" for s x
    by (auto simp: lease_state_parse_def split: if_splits)
qed

interpretation release_reason: wire_vocab release_reason_as_str release_reason_parse
proof
  show "release_reason_parse (release_reason_as_str x) = Some x" for x
    by (cases x) (simp_all add: release_reason_parse_def)
  show "release_reason_parse s = Some x \<Longrightarrow> release_reason_as_str x = s" for s x
    by (auto simp: release_reason_parse_def split: if_splits)
qed

section \<open>Rows\<close>

record job =
  j_id :: nat
  j_kind :: string
  j_state :: job_state
  j_priority :: int
  j_created_at :: instant
  j_updated_at :: instant
  j_epoch :: nat

record ticket =
  t_id :: nat
  t_job_id :: "nat option"
  t_kind :: ticket_operation
  t_state :: ticket_state
  t_priority :: int
  t_payload :: json
  t_result :: "json option"
  t_attempt :: nat
  t_max_attempts :: nat
  t_next_eligible_at :: instant
  t_created_at :: instant
  t_state_changed_at :: instant
  t_epoch :: nat

text \<open>A row of \<^verbatim>\<open>ticket_dependencies\<close>; its kind is always \<^verbatim>\<open>phase\<close>.\<close>

record ticket_dependency =
  td_ticket_id :: nat
  td_depends_on_ticket_id :: nat

record worker =
  w_id :: nat
  w_node_id :: "nat option"
  w_node_incarnation_id :: "string option"
  w_name :: string
  w_kind :: worker_kind
  w_status :: worker_status
  w_registered_at :: instant
  w_last_seen_at :: instant
  w_retired_at :: "instant option"
  w_epoch :: nat

record capability =
  cap_id :: nat
  cap_worker_id :: nat
  cap_operation :: ticket_operation
  cap_codecs :: "string list"
  cap_hardware :: "string list"
  cap_artifact_access :: "string list"
  cap_extra :: json

record grant =
  g_id :: nat
  g_worker_id :: nat
  g_can_execute :: "ticket_operation list"
  g_can_access_read :: "string list"
  g_can_access_write :: "string list"
  g_denies :: "ticket_operation list"
  g_max_parallel :: json

record lease =
  l_id :: nat
  l_ticket_id :: nat
  l_worker_id :: nat
  l_state :: lease_state
  l_acquired_at :: instant
  l_expires_at :: instant
  l_last_heartbeat_at :: instant
  l_ttl_seconds :: int
  l_release_reason :: "release_reason option"
  l_released_at :: "instant option"
  l_epoch :: nat

record accelerator_claim =
  ac_hardware_token :: string
  ac_backend :: string
  ac_worker_id :: nat
  ac_boot_id :: string
  ac_supervisor_pid :: nat
  ac_supervisor_start_identity :: "string option"
  ac_process_group_id :: nat
  ac_capacity :: nat
  ac_claimed_at :: instant

record scheduler_node_limit =
  nl_node_id :: nat
  nl_max_parallel_leases :: nat
  nl_created_at :: instant
  nl_updated_at :: instant

text \<open>The columns of \<^verbatim>\<open>nodes\<close> and \<^verbatim>\<open>node_incarnations\<close> that worker ownership reads.\<close>

record node =
  n_id :: nat
  n_kind :: node_kind
  n_status :: node_status
  n_last_seen_at :: instant

record node_incarnation =
  ni_incarnation_id :: string
  ni_node_id :: nat
  ni_status :: node_incarnation_status

datatype issue_status = IssueOpen | IssuePlanned | IssueResolved | IssueSuppressed | IssueAccepted

datatype issue_kind =
    UnknownIdentity | MissingSubtitle | DuplicateCandidate | PolicyNoncompliant | HealthFailed
  | ExternalSyncFailed | IssueArtifactUnavailable | VariantRetentionConflict
  | WorkerUntrusted | TerminalFailure

record issue =
  is_id :: nat
  is_kind :: issue_kind
  is_severity :: issue_severity
  is_priority :: issue_priority
  is_priority_source :: string
  is_priority_reason :: "string option"
  is_status :: issue_status
  is_suppressed_until :: "instant option"
  is_title :: string
  is_body :: string
  is_created_at :: instant
  is_updated_at :: instant
  is_resolved_at :: "instant option"
  is_epoch :: nat
  is_dedupe_key :: "string option"

record issue_link =
  il_issue_id :: nat
  il_link_type :: string
  il_target_type :: string
  il_target_id :: nat
  il_created_at :: instant

text \<open>
  The columns of \<^verbatim>\<open>audio_extract_operations\<close> and \<^verbatim>\<open>audio_synthesis_operations\<close> that tie an
  operation's claim to the lease it was dispatched under.
\<close>

record audio_operation =
  ao_operation_key :: string
  ao_committed :: bool
  ao_claim_lease_id :: "nat option"
  ao_claim_token :: "string option"
  ao_claim_expires_at :: "instant option"

section \<open>Scan sessions\<close>

datatype scan_session_status =
    ScanRequested | ScanRunning | ScanSucceeded | ScanFailed | ScanCancelled | ScanStale

primrec scan_session_status_as_str :: "scan_session_status \<Rightarrow> string" where
  "scan_session_status_as_str ScanRequested = ''requested''"
| "scan_session_status_as_str ScanRunning = ''running''"
| "scan_session_status_as_str ScanSucceeded = ''succeeded''"
| "scan_session_status_as_str ScanFailed = ''failed''"
| "scan_session_status_as_str ScanCancelled = ''cancelled''"
| "scan_session_status_as_str ScanStale = ''stale''"

record scan_session =
  ss_id :: nat
  ss_storage_root_id :: nat
  ss_root_epoch :: nat
  ss_owner_node_id :: nat
  ss_owner_incarnation_id :: "string option"
  ss_status :: scan_session_status
  ss_next_sequence :: nat
  ss_batch_count :: nat
  ss_observation_count :: nat
  ss_idle_timeout_seconds :: nat
  ss_progress_deadline_at :: instant
  ss_location_high_watermark_id :: "nat option"
  ss_requested_at :: instant
  ss_started_at :: "instant option"
  ss_terminal_at :: "instant option"
  ss_terminal_reason :: "string option"
  ss_retired_location_count :: nat

text \<open>The evidence an owner node reports with an observation.\<close>

record file_key_facts =
  fk_dev :: nat
  fk_ino :: nat
  fk_nlink :: nat

record scan_sidecar_evidence =
  se_provider_relative_locator :: string
  se_role :: string
  se_blake3_hex :: string
  se_size_bytes :: nat

record scan_observation_evidence =
  oe_content_hash :: string
  oe_size_bytes :: nat
  oe_modified_at :: string
  oe_file_key :: "file_key_facts option"
  oe_sidecars :: "scan_sidecar_evidence list"
  oe_probe_snapshot :: json
  oe_hash_reused :: bool

record scan_observation =
  ob_provider_relative_locator :: string
  ob_provider_object_identity :: string
  ob_size_bytes :: nat
  ob_modified_at :: instant
  ob_stability_started_at :: instant
  ob_stability_confirmed_at :: instant
  ob_evidence :: "scan_observation_evidence option"

record scan_observation_batch =
  sb_scan_session_id :: nat
  sb_sequence :: nat
  sb_previous_sequence :: "nat option"
  sb_request_hash :: string
  sb_observation_count :: nat
  sb_accepted_at :: instant
  sb_cumulative_observation_count :: nat

text \<open>A row of \<^verbatim>\<open>scan_observations\<close>: its key and the observation.\<close>

record scan_observation_row =
  so_scan_session_id :: nat
  so_batch_sequence :: nat
  so_ordinal :: nat
  so_observation :: scan_observation

text \<open>The columns of \<^verbatim>\<open>file_locations\<close> and \<^verbatim>\<open>library_roots\<close> a scan reads and writes.\<close>

record file_location =
  fl_id :: nat
  fl_rooted :: bool
  fl_storage_root_id :: "nat option"
  fl_provider_relative_locator :: "string option"
  fl_retired_at :: "instant option"
  fl_retired_by_scan_session_id :: "nat option"
  fl_epoch :: nat

record library_root =
  lr_id :: nat
  lr_root_epoch :: nat
  lr_owner_node_id :: "nat option"
  lr_last_scan_session_id :: "nat option"

text \<open>
  Commit intents, destructive and fenced: their states and the locations they cover, which a
  scan consults before it retires a location.
\<close>

datatype commit_intent_state =
    IntentPending | IntentAuthorized | IntentCompleted | IntentAborted | IntentRecoveryRequired

record commit_intent =
  ci_id :: nat
  ci_state :: commit_intent_state

record commit_intent_scope_member =
  cm_commit_intent_id :: nat
  cm_scope_location_id :: "nat option"

record artifact_commit_intent =
  ai_id :: nat
  ai_state :: commit_intent_state
  ai_staging_location_id :: nat

section \<open>Events\<close>

text \<open>
  The payloads of \<^verbatim>\<open>voom-events/src/payload/execution.rs\<close>, in the order of their fields, and
  the payloads of \<^verbatim>\<open>payload/policy.rs\<close> and \<^verbatim>\<open>payload/scan.rs\<close>.
\<close>

record issue_lifecycle_payload =
  ip_issue_id :: nat
  ip_kind :: string
  ip_status :: string
  ip_dedupe_key :: "string option"
  ip_policy_version_id :: "nat option"
  ip_report_id :: "string option"

datatype event =
    JobOpenedEvent nat string int
  | JobSucceededEvent nat
  | JobFailedEvent nat string
  | JobCancelledEvent nat string
  | TicketCreatedEvent nat "nat option" ticket_operation int nat
  | TicketReadyEvent nat
  | TicketLeasedEvent nat nat nat nat
  | TicketSucceededEvent nat nat
  | TicketFailedRetriableEvent nat nat nat string failure_class instant
  | TicketFailedTerminalEvent nat nat nat string failure_class "nat option"
  | TicketRequeuedAfterLeaseExpiryEvent nat nat
  | TicketRequeuedAfterForceReleaseEvent nat nat string string
  | LeaseAcquiredEvent nat nat nat int instant
  | LeaseReleasedEvent nat nat string
  | LeaseExpiredEvent nat nat
  | LeaseForceReleasedEvent nat nat string string bool
  | IssueOpenedEvent issue_lifecycle_payload
  | IssueUpdatedEvent issue_lifecycle_payload
  | IssueResolvedEvent issue_lifecycle_payload
  | ScanSessionRequestedEvent nat nat scan_session_status
  | ScanSessionStartedEvent nat nat scan_session_status
  | ScanSessionFailedEvent nat nat scan_session_status
  | ScanSessionCancelledEvent nat nat scan_session_status
  | ScanSessionStaleEvent nat nat scan_session_status
  | ScanObservationBatchAcceptedEvent nat nat nat nat
  | ScanSessionSucceededEvent nat nat nat nat

datatype subject_type =
    SystemSubject | JobSubject | TicketSubject | LeaseSubject | NodeSubject | StorageRootSubject
  | ScanSessionSubject | WorkerSubject | ArtifactHandleSubject | ArtifactLocationSubject
  | MediaWorkSubject | MediaVariantSubject | AssetBundleSubject | FileAssetSubject
  | FileVersionSubject | FileLocationSubject | IdentityEvidenceSubject | MediaSnapshotSubject
  | AssetUseLeaseSubject | CommitIntentSubject | ExternalSystemSubject

record event_envelope =
  ev_occurred_at :: instant
  ev_subject_type :: subject_type
  ev_subject_id :: "nat option"
  ev_payload :: event

section \<open>The database\<close>

record db =
  jobs :: "job list"
  tickets :: "ticket list"
  ticket_dependencies :: "ticket_dependency list"
  workers :: "worker list"
  worker_capabilities :: "capability list"
  worker_grants :: "grant list"
  leases :: "lease list"
  accelerator_claims :: "accelerator_claim list"
  scheduler_node_limits :: "scheduler_node_limit list"
  nodes :: "node list"
  node_incarnations :: "node_incarnation list"
  issues :: "issue list"
  issue_links :: "issue_link list"
  audio_extract_operations :: "audio_operation list"
  audio_synthesis_operations :: "audio_operation list"
  scan_sessions :: "scan_session list"
  scan_observation_batches :: "scan_observation_batch list"
  scan_observations :: "scan_observation_row list"
  file_locations :: "file_location list"
  library_roots :: "library_root list"
  commit_intents :: "commit_intent list"
  commit_intent_scope_members :: "commit_intent_scope_member list"
  artifact_commit_intents :: "artifact_commit_intent list"
  events :: "event_envelope list"

definition empty_db :: db where
  "empty_db = \<lparr> jobs = [], tickets = [], ticket_dependencies = [], workers = [],
     worker_capabilities = [], worker_grants = [], leases = [], accelerator_claims = [],
     scheduler_node_limits = [], nodes = [], node_incarnations = [], issues = [],
     issue_links = [], audio_extract_operations = [], audio_synthesis_operations = [],
     scan_sessions = [], scan_observation_batches = [], scan_observations = [],
     file_locations = [], library_roots = [],
     commit_intents = [], commit_intent_scope_members = [], artifact_commit_intents = [], events = [] \<rparr>"

text \<open>Binding an id as a SQLite integer.\<close>

definition bind_i64 :: "nat \<Rightarrow> ('s, 'a) tx \<Rightarrow> ('s, 'a) tx" where
  "bind_i64 v k = (\<lambda>s. case i64_from_u64 v of Inl e \<Rightarrow> (Inl e, s) | Inr _ \<Rightarrow> k s)"

lemma bind_i64_Inr: "bind_i64 v k s = (Inr x, s') \<longleftrightarrow> v < 2 ^ 63 \<and> k s = (Inr x, s')"
  by (auto simp: bind_i64_def i64_from_u64_def)

lemma bind_i64_apply: "bind_i64 v k s = (if v < 2 ^ 63 then k s else (Inl Database, s))"
  by (simp add: bind_i64_def i64_from_u64_def)

text \<open>Lookups by primary key.\<close>

definition job_by_id :: "db \<Rightarrow> nat \<Rightarrow> job option" where
  "job_by_id db i = find (\<lambda>j. j_id j = i) (jobs db)"

definition ticket_by_id :: "db \<Rightarrow> nat \<Rightarrow> ticket option" where
  "ticket_by_id db i = find (\<lambda>t. t_id t = i) (tickets db)"

definition lease_by_id :: "db \<Rightarrow> nat \<Rightarrow> lease option" where
  "lease_by_id db i = find (\<lambda>l. l_id l = i) (leases db)"

definition worker_by_id :: "db \<Rightarrow> nat \<Rightarrow> worker option" where
  "worker_by_id db i = find (\<lambda>w. w_id w = i) (workers db)"

end
