(* ===== verification/Exec_Spec.thy ===== *)
theory Exec_Spec
  imports Store
begin

text \<open>
  The abstract specification of the execution core: what the ticket and lease tables promise,
  as a transition system over finite maps from ids to the columns that matter, with its
  inductive invariant. The concrete operations of the store refine it: each is a sequence of
  these actions on the abstraction of the database (\<open>abs_exec\<close>), which is proved
  operation by operation in the component theories.
\<close>

section \<open>Abstract state and actions\<close>

record aticket =
  at_state :: ticket_state
  at_attempt :: nat
  at_max :: nat

record alease =
  al_ticket :: nat
  al_held :: bool

record exec =
  x_tickets :: "nat \<rightharpoonup> aticket"
  x_leases :: "nat \<rightharpoonup> alease"
  x_deps :: "(nat \<times> nat) set"

definition has_state :: "exec \<Rightarrow> nat \<Rightarrow> ticket_state \<Rightarrow> bool" where
  "has_state s t st \<longleftrightarrow> (\<exists>a. x_tickets s t = Some a \<and> at_state a = st)"

inductive act :: "exec \<Rightarrow> exec \<Rightarrow> bool" where
  act_create: "x_tickets s i = None \<Longrightarrow> 1 \<le> m \<Longrightarrow>
    act s (s\<lparr>x_tickets := (x_tickets s)(i \<mapsto> \<lparr>at_state = Pending, at_attempt = 0, at_max = m\<rparr>)\<rparr>)"
| act_depend: "has_state s t Pending \<Longrightarrow> d \<in> dom (x_tickets s) \<Longrightarrow> t \<noteq> d \<Longrightarrow>
    (d, t) \<notin> (x_deps s)\<^sup>+ \<Longrightarrow> act s (s\<lparr>x_deps := insert (t, d) (x_deps s)\<rparr>)"
| act_promote: "x_tickets s t = Some a \<Longrightarrow> at_state a = Pending \<Longrightarrow>
    (\<And>d. (t, d) \<in> x_deps s \<Longrightarrow> has_state s d Succeeded) \<Longrightarrow>
    act s (s\<lparr>x_tickets := (x_tickets s)(t \<mapsto> a\<lparr>at_state := Ready\<rparr>)\<rparr>)"
| act_acquire: "x_tickets s t = Some a \<Longrightarrow> at_state a = Ready \<Longrightarrow> at_attempt a < at_max a \<Longrightarrow>
    x_leases s l = None \<Longrightarrow>
    act s (s\<lparr>x_tickets := (x_tickets s)(t \<mapsto> a\<lparr>at_state := Leased, at_attempt := Suc (at_attempt a)\<rparr>),
            x_leases := (x_leases s)(l \<mapsto> \<lparr>al_ticket = t, al_held = True\<rparr>)\<rparr>)"
| act_close: "x_leases s l = Some b \<Longrightarrow> al_held b \<Longrightarrow> x_tickets s (al_ticket b) = Some a \<Longrightarrow>
    at_state a = Leased \<Longrightarrow>
    st \<in> {Succeeded, Failed} \<or> (st = Ready \<and> at_attempt a < at_max a) \<Longrightarrow>
    act s (s\<lparr>x_tickets := (x_tickets s)(al_ticket b \<mapsto> a\<lparr>at_state := st\<rparr>),
            x_leases := (x_leases s)(l \<mapsto> b\<lparr>al_held := False\<rparr>)\<rparr>)"
| act_prelease: "x_tickets s t = Some a \<Longrightarrow> at_state a = Ready \<Longrightarrow> at_attempt a < at_max a \<Longrightarrow>
    st = Failed \<or> (st = Ready \<and> Suc (at_attempt a) < at_max a) \<Longrightarrow>
    act s (s\<lparr>x_tickets := (x_tickets s)(t \<mapsto> a\<lparr>at_state := st, at_attempt := Suc (at_attempt a)\<rparr>)\<rparr>)"

inductive_cases actE: "act s s'"

section \<open>The invariant\<close>

definition leases_of :: "exec \<Rightarrow> nat \<Rightarrow> nat set" where
  "leases_of s t = {l. \<exists>b. x_leases s l = Some b \<and> al_ticket b = t}"

definition held :: "exec \<Rightarrow> nat \<Rightarrow> nat \<Rightarrow> bool" where
  "held s l t \<longleftrightarrow> (\<exists>b. x_leases s l = Some b \<and> al_held b \<and> al_ticket b = t)"

definition inv_leases :: "exec \<Rightarrow> bool" where
  "inv_leases s \<longleftrightarrow>
     (\<forall>l b. x_leases s l = Some b \<longrightarrow> al_ticket b \<in> dom (x_tickets s)) \<and>
     (\<forall>l t. held s l t \<longrightarrow> has_state s t Leased) \<and>
     (\<forall>t. has_state s t Leased \<longrightarrow> (\<exists>l. held s l t)) \<and>
     (\<forall>l l' t. held s l t \<and> held s l' t \<longrightarrow> l = l')"

definition inv_attempts :: "exec \<Rightarrow> bool" where
  "inv_attempts s \<longleftrightarrow>
     (\<forall>t a. x_tickets s t = Some a \<longrightarrow>
        at_attempt a \<le> at_max a \<and> (at_state a \<in> {Pending, Ready} \<longrightarrow> at_attempt a < at_max a)) \<and>
     (\<forall>t a. x_tickets s t = Some a \<longrightarrow>
        finite (leases_of s t) \<and> card (leases_of s t) \<le> at_attempt a)"

definition inv_deps :: "exec \<Rightarrow> bool" where
  "inv_deps s \<longleftrightarrow> acyclic (x_deps s) \<and>
     (\<forall>t d. (t, d) \<in> x_deps s \<longrightarrow> t \<in> dom (x_tickets s) \<and> d \<in> dom (x_tickets s)) \<and>
     (\<forall>t d. (t, d) \<in> x_deps s \<longrightarrow> has_state s t Pending \<or> has_state s d Succeeded)"

definition exec_inv :: "exec \<Rightarrow> bool" where
  "exec_inv s \<longleftrightarrow> inv_leases s \<and> inv_attempts s \<and> inv_deps s"

definition exec_init :: "exec \<Rightarrow> bool" where
  "exec_init s \<longleftrightarrow> x_tickets s = Map.empty \<and> x_leases s = Map.empty \<and> x_deps s = {}"

lemmas inv_defs = inv_leases_def inv_attempts_def inv_deps_def has_state_def leases_of_def held_def

lemma exec_inv_init: "exec_init s \<Longrightarrow> exec_inv s"
  by (simp add: exec_init_def exec_inv_def inv_defs acyclic_def)

text \<open>How each kind of action changes the two relations the invariant speaks of.\<close>

lemma has_state_upd [simp]:
  "has_state (s\<lparr>x_tickets := (x_tickets s)(t \<mapsto> a)\<rparr>) u st \<longleftrightarrow>
     (if u = t then at_state a = st else has_state s u st)"
  by (auto simp: has_state_def)

lemma has_state_leases [simp]:
  "has_state (s\<lparr>x_leases := ls\<rparr>) u st = has_state s u st"
  "has_state (s\<lparr>x_tickets := ts, x_leases := ls\<rparr>) u st = has_state (s\<lparr>x_tickets := ts\<rparr>) u st"
  "has_state (s\<lparr>x_deps := ds\<rparr>) u st = has_state s u st"
  by (simp_all add: has_state_def)

lemma held_upd [simp]:
  "held (s\<lparr>x_tickets := ts\<rparr>) l t = held s l t"
  "held (s\<lparr>x_deps := ds\<rparr>) l t = held s l t"
  "held (s\<lparr>x_tickets := ts, x_leases := (x_leases s)(k \<mapsto> b)\<rparr>) l t \<longleftrightarrow>
     (if l = k then al_held b \<and> al_ticket b = t else held s l t)"
  by (auto simp: held_def)

lemma has_state_unique: "has_state s t a \<Longrightarrow> has_state s t b \<Longrightarrow> a = b"
  by (auto simp: has_state_def)

lemma inv_leases_ticket:
  assumes "inv_leases s" and "\<not> has_state s t Leased" and "at_state a \<noteq> Leased"
  shows "inv_leases (s\<lparr>x_tickets := (x_tickets s)(t \<mapsto> a)\<rparr>)"
  using assms unfolding inv_leases_def by (simp add: domIff) metis

lemma inv_leases_acquire:
  assumes inv: "inv_leases s" and t: "x_tickets s t = Some a" "at_state a = Ready"
    and l: "x_leases s l = None" and a': "at_state a' = Leased"
  shows "inv_leases (s\<lparr>x_tickets := (x_tickets s)(t \<mapsto> a'),
    x_leases := (x_leases s)(l \<mapsto> \<lparr>al_ticket = t, al_held = True\<rparr>)\<rparr>)"
proof -
  have "\<not> has_state s t Leased" using t by (simp add: has_state_def)
  then have free: "\<not> held s k t" for k using inv by (auto simp: inv_leases_def)
  show ?thesis using inv free a' l unfolding inv_leases_def
    by (simp add: domIff) (metis held_def option.distinct(1))
qed

lemma inv_leases_close:
  assumes inv: "inv_leases s" and b: "x_leases s l = Some b" "al_held b" and st: "at_state a' \<noteq> Leased"
  shows "inv_leases (s\<lparr>x_tickets := (x_tickets s)(al_ticket b \<mapsto> a'),
    x_leases := (x_leases s)(l \<mapsto> b\<lparr>al_held := False\<rparr>)\<rparr>)"
proof -
  have held: "held s l (al_ticket b)" using b by (auto simp: held_def)
  then have other: "k \<noteq> l \<Longrightarrow> \<not> held s k (al_ticket b)" for k
    using inv unfolding inv_leases_def by blast
  show ?thesis unfolding inv_leases_def
  proof (intro conjI allI impI)
    fix k c
    assume "x_leases (s\<lparr>x_tickets := (x_tickets s)(al_ticket b \<mapsto> a'),
      x_leases := (x_leases s)(l \<mapsto> b\<lparr>al_held := False\<rparr>)\<rparr>) k = Some c"
    then show "al_ticket c \<in> dom (x_tickets (s\<lparr>x_tickets := (x_tickets s)(al_ticket b \<mapsto> a'),
      x_leases := (x_leases s)(l \<mapsto> b\<lparr>al_held := False\<rparr>)\<rparr>))"
      using inv b by (auto simp: inv_leases_def split: if_splits)
  next
    fix t
    assume "has_state (s\<lparr>x_tickets := (x_tickets s)(al_ticket b \<mapsto> a'),
      x_leases := (x_leases s)(l \<mapsto> b\<lparr>al_held := False\<rparr>)\<rparr>) t Leased"
    then have t: "t \<noteq> al_ticket b" "has_state s t Leased" using st by (auto split: if_splits)
    then obtain k where k: "held s k t" using inv unfolding inv_leases_def by blast
    then have "k \<noteq> l" using t(1) b(1) by (auto simp: held_def)
    then show "\<exists>k. held (s\<lparr>x_tickets := (x_tickets s)(al_ticket b \<mapsto> a'),
      x_leases := (x_leases s)(l \<mapsto> b\<lparr>al_held := False\<rparr>)\<rparr>) k t"
      using k by (intro exI [of _ k]) simp
  next
    fix k k' t
    assume "held (s\<lparr>x_tickets := (x_tickets s)(al_ticket b \<mapsto> a'),
        x_leases := (x_leases s)(l \<mapsto> b\<lparr>al_held := False\<rparr>)\<rparr>) k t \<and>
      held (s\<lparr>x_tickets := (x_tickets s)(al_ticket b \<mapsto> a'),
        x_leases := (x_leases s)(l \<mapsto> b\<lparr>al_held := False\<rparr>)\<rparr>) k' t"
    then have "held s k t" "held s k' t" by (auto split: if_splits)
    then show "k = k'" using inv unfolding inv_leases_def by blast
  qed (use inv other st in \<open>auto simp: inv_leases_def split: if_splits\<close>)
qed

lemma inv_leases_step: "act s s' \<Longrightarrow> inv_leases s \<Longrightarrow> inv_leases s'"
proof (induction rule: act.induct)
  case (act_acquire s t a l)
  then show ?case by (intro inv_leases_acquire) auto
next
  case (act_close s l b a st)
  then show ?case by (intro inv_leases_close) auto
next
  case (act_depend s t d)
  then show ?case by (simp add: inv_leases_def)
qed (auto intro!: inv_leases_ticket simp: has_state_def)

lemma inv_attempts_step:
  assumes "act s s'" and "inv_attempts s" and "inv_leases s"
  shows "inv_attempts s'"
  using assms
proof (induction rule: act.induct)
  case (act_create s i m)
  have "leases_of s i = {}" using act_create by (auto simp: leases_of_def inv_leases_def dest: spec)
  moreover have "leases_of (s\<lparr>x_tickets := ts\<rparr>) t = leases_of s t" for ts t
    by (simp add: leases_of_def)
  ultimately show ?case using act_create by (auto simp: inv_attempts_def)
next
  case (act_acquire s t a l)
  have "leases_of (s\<lparr>x_tickets := ts, x_leases := (x_leases s)(l \<mapsto> \<lparr>al_ticket = t, al_held = True\<rparr>)\<rparr>) u =
    (if u = t then insert l (leases_of s t) else leases_of s u)" for ts u
    using act_acquire by (auto simp: leases_of_def)
  moreover have "l \<notin> leases_of s t" using act_acquire by (simp add: leases_of_def)
  ultimately show ?case using act_acquire by (auto simp: inv_attempts_def card_insert_if Suc_le_eq less_Suc_eq_le)
next
  case (act_close s l b a st)
  have "leases_of (s\<lparr>x_tickets := ts, x_leases := (x_leases s)(l \<mapsto> b\<lparr>al_held := False\<rparr>)\<rparr>) u = leases_of s u"
    for ts u
    using act_close by (auto simp: leases_of_def)
  then show ?case using act_close by (auto simp: inv_attempts_def)
next
  case (act_promote s t a)
  then show ?case by (auto simp: inv_attempts_def leases_of_def)
next
  case (act_prelease s t a st)
  then show ?case
    by (auto simp: inv_attempts_def leases_of_def Suc_le_eq intro: le_SucI)
qed (simp add: inv_attempts_def leases_of_def)

lemma inv_deps_ticket:
  assumes inv: "inv_deps s" and t: "x_tickets s t = Some a" "at_state a \<noteq> Succeeded"
    and step: "at_state a = Pending \<Longrightarrow> at_state a' \<noteq> Pending \<Longrightarrow>
      (\<And>d. (t, d) \<in> x_deps s \<Longrightarrow> has_state s d Succeeded)"
    and stay: "at_state a \<noteq> Pending \<Longrightarrow> at_state a' \<noteq> Pending"
  shows "inv_deps (s\<lparr>x_tickets := (x_tickets s)(t \<mapsto> a')\<rparr>)"
proof -
  have "has_state s d Succeeded \<Longrightarrow> d \<noteq> t" for d using t by (auto simp: has_state_def)
  moreover have "has_state s t Pending \<longleftrightarrow> at_state a = Pending" using t by (simp add: has_state_def)
  ultimately have "has_state (s\<lparr>x_tickets := (x_tickets s)(t \<mapsto> a')\<rparr>) u Pending \<or>
      has_state (s\<lparr>x_tickets := (x_tickets s)(t \<mapsto> a')\<rparr>) d Succeeded"
    if "(u, d) \<in> x_deps s" for u d
    using inv that step stay unfolding inv_deps_def by (simp split: if_splits) metis
  then show ?thesis using inv unfolding inv_deps_def by (simp add: domIff)
qed

lemma inv_deps_leases: "inv_deps (s\<lparr>x_tickets := ts, x_leases := ls\<rparr>) = inv_deps (s\<lparr>x_tickets := ts\<rparr>)"
  by (simp add: inv_deps_def)

lemma inv_deps_step: "act s s' \<Longrightarrow> inv_deps s \<Longrightarrow> inv_deps s'"
proof (induction rule: act.induct)
  case (act_create s i m)
  then show ?case by (auto simp: inv_deps_def has_state_def)
next
  case (act_depend s t d)
  then have "acyclic (insert (t, d) (x_deps s))"
    by (simp add: inv_deps_def acyclic_insert trancl_into_rtrancl rtrancl_eq_or_trancl)
  moreover have "t \<in> dom (x_tickets s)" using act_depend(1) by (auto simp: has_state_def)
  ultimately show ?case using act_depend by (auto simp: inv_deps_def)
next
  case (act_promote s t a)
  then show ?case by (intro inv_deps_ticket) auto
next
  case (act_acquire s t a l)
  then show ?case unfolding inv_deps_leases by (intro inv_deps_ticket) auto
next
  case (act_close s l b a st)
  then show ?case unfolding inv_deps_leases by (intro inv_deps_ticket) auto
next
  case (act_prelease s t a st)
  then show ?case by (intro inv_deps_ticket) auto
qed

lemma exec_inv_step: "exec_inv s \<Longrightarrow> act s s' \<Longrightarrow> exec_inv s'"
  by (simp add: exec_inv_def inv_leases_step inv_attempts_step inv_deps_step)

interpretation spec: invariant_system exec_init act exec_inv
  by unfold_locales (auto intro: exec_inv_init exec_inv_step)

section \<open>Lifecycle of a ticket and of a lease\<close>

text \<open>The transitions of one ticket: its states in every action, terminal ones absorbing.\<close>

definition ticket_terminal :: "ticket_state \<Rightarrow> bool" where
  "ticket_terminal st \<longleftrightarrow> st = Succeeded \<or> st = Failed"

fun ticket_next :: "ticket_state \<Rightarrow> ticket_state \<Rightarrow> bool" where
  "ticket_next Pending st \<longleftrightarrow> st \<in> {Pending, Ready}"
| "ticket_next Ready st \<longleftrightarrow> st \<in> {Ready, Leased, Failed}"
| "ticket_next Leased st \<longleftrightarrow> st \<in> {Leased, Ready, Succeeded, Failed}"
| "ticket_next Succeeded st \<longleftrightarrow> st = Succeeded"
| "ticket_next Failed st \<longleftrightarrow> st = Failed"

interpretation ticket_life: lifecycle ticket_terminal ticket_next
  by unfold_locales (auto simp: ticket_terminal_def)

lemma ticket_next_refl [simp]: "ticket_next st st"
  by (cases st) simp_all

lemma act_ticket_next:
  "act s s' \<Longrightarrow> x_tickets s t = Some a \<Longrightarrow>
     \<exists>a'. x_tickets s' t = Some a' \<and> ticket_next (at_state a) (at_state a') \<and>
       at_max a' = at_max a \<and> at_attempt a \<le> at_attempt a'"
  by (induction rule: act.induct) auto

lemma act_lease_next:
  "act s s' \<Longrightarrow> x_leases s l = Some b \<Longrightarrow>
     \<exists>b'. x_leases s' l = Some b' \<and> al_ticket b' = al_ticket b \<and> (al_held b' \<longrightarrow> al_held b)"
  by (induction rule: act.induct) auto

lemma run_ticket_next:
  assumes "act\<^sup>*\<^sup>* s s'" and "x_tickets s t = Some a"
  shows "\<exists>a'. x_tickets s' t = Some a' \<and> ticket_next\<^sup>*\<^sup>* (at_state a) (at_state a') \<and>
    at_max a' = at_max a \<and> at_attempt a \<le> at_attempt a'"
  using assms
proof (induction rule: rtranclp_induct)
  case (step s' s'')
  then show ?case by (metis act_ticket_next le_trans rtranclp.rtrancl_into_rtrancl)
qed auto

lemma run_lease_next:
  assumes "act\<^sup>*\<^sup>* s s'" and "x_leases s l = Some b"
  shows "\<exists>b'. x_leases s' l = Some b' \<and> al_ticket b' = al_ticket b \<and> (al_held b' \<longrightarrow> al_held b)"
  using assms
proof (induction rule: rtranclp_induct)
  case (step s' s'')
  then show ?case by (metis act_lease_next)
qed auto

section \<open>Abstraction of the database\<close>

definition abs_ticket :: "ticket \<Rightarrow> aticket" where
  "abs_ticket t = \<lparr> at_state = t_state t, at_attempt = t_attempt t, at_max = t_max_attempts t \<rparr>"

definition abs_lease :: "lease \<Rightarrow> alease" where
  "abs_lease l = \<lparr> al_ticket = l_ticket_id l, al_held = (l_state l = Held) \<rparr>"

definition dep_edges :: "ticket_dependency list \<Rightarrow> (nat \<times> nat) list" where
  "dep_edges ds = map (\<lambda>d. (td_ticket_id d, td_depends_on_ticket_id d)) ds"

definition abs_exec :: "db \<Rightarrow> exec" where
  "abs_exec db = \<lparr> x_tickets = table_map t_id abs_ticket (tickets db),
     x_leases = table_map l_id abs_lease (leases db),
     x_deps = set (dep_edges (ticket_dependencies db)) \<rparr>"

text \<open>Row ids grow with insertion, and a lease row has the shape its state requires.\<close>

definition lease_shape :: "lease \<Rightarrow> bool" where
  "lease_shape l \<longleftrightarrow> 0 < l_ttl_seconds l \<and>
     (l_state l = Held \<longleftrightarrow> l_release_reason l = None) \<and>
     (l_state l = Held \<longleftrightarrow> l_released_at l = None)"

definition wf_db :: "db \<Rightarrow> bool" where
  "wf_db db \<longleftrightarrow> wf_table j_id (jobs db) \<and> wf_table t_id (tickets db) \<and>
     wf_table l_id (leases db) \<and> wf_table w_id (workers db) \<and> wf_table is_id (issues db) \<and>
     (\<forall>l \<in> set (leases db). lease_shape l) \<and>
     (\<forall>t \<in> set (tickets db). t_state t = Succeeded \<longleftrightarrow> t_result t \<noteq> None)"

lemma wf_db_tables:
  assumes "wf_db db"
  shows "wf_table j_id (jobs db)" "wf_table t_id (tickets db)" "wf_table l_id (leases db)"
    "wf_table w_id (workers db)" "wf_table is_id (issues db)"
  using assms by (simp_all add: wf_db_def)

lemma x_deps_abs: "x_deps (abs_exec db) = set (dep_edges (ticket_dependencies db))"
  by (simp add: abs_exec_def)

text \<open>
  A database that satisfies the specification, and an operation that takes it to another one by
  actions of the specification.
\<close>

definition good_db :: "db \<Rightarrow> bool" where
  "good_db db \<longleftrightarrow> wf_db db \<and> exec_inv (abs_exec db)"

definition refines :: "db \<Rightarrow> db \<Rightarrow> bool" where
  "refines db db' \<longleftrightarrow> (good_db db \<longrightarrow> wf_db db' \<and> act\<^sup>*\<^sup>* (abs_exec db) (abs_exec db'))"

lemma good_wf [dest]: "good_db db \<Longrightarrow> wf_db db"
  by (simp add: good_db_def)

lemma refines_refl [simp]: "refines db db"
  by (auto simp: refines_def)

lemma refines_good: "refines db db' \<Longrightarrow> good_db db \<Longrightarrow> good_db db'"
  unfolding refines_def good_db_def using spec.run_inv by blast

lemma refines_trans: "refines a b \<Longrightarrow> refines b c \<Longrightarrow> refines a c"
  using refines_good unfolding refines_def by (meson rtranclp_trans)

lemma refines_same:
  "(wf_db db \<Longrightarrow> wf_db db') \<Longrightarrow> abs_exec db' = abs_exec db \<Longrightarrow> refines db db'"
  by (auto simp: refines_def)

lemma refines_act:
  "(good_db db \<Longrightarrow> wf_db db') \<Longrightarrow> (good_db db \<Longrightarrow> act (abs_exec db) (abs_exec db')) \<Longrightarrow> refines db db'"
  by (simp add: refines_def r_into_rtranclp)

lemma good_deps_exist:
  "good_db db \<Longrightarrow> (t, d) \<in> x_deps (abs_exec db) \<Longrightarrow>
     t \<in> dom (x_tickets (abs_exec db)) \<and> d \<in> dom (x_tickets (abs_exec db))"
  unfolding good_db_def exec_inv_def inv_deps_def by blast

end
