(* ===== verification/Jobs.thy ===== *)
theory Jobs
  imports Exec_Spec
begin

text \<open>
  The job repository (\<^verbatim>\<open>crates/voom-store/src/repo/execution/jobs.rs\<close>): creation, lookup,
  listing and the three terminal transitions of a job. A committing wrapper such as
  \<^verbatim>\<open>create\<close> is \<open>transact\<close> around the corresponding \<open>_in_tx\<close> operation.
\<close>

record new_job =
  nj_kind :: string
  nj_priority :: int
  nj_created_at :: instant

definition job_create_in_tx :: "new_job \<Rightarrow> (db, job) tx" where
  "job_create_in_tx input db =
     (let job = \<lparr> j_id = next_rowid j_id (jobs db), j_kind = nj_kind input, j_state = JobOpen,
          j_priority = nj_priority input, j_created_at = nj_created_at input,
          j_updated_at = nj_created_at input, j_epoch = 0 \<rparr>
      in (Inr job, db\<lparr>jobs := jobs db @ [job]\<rparr>))"

definition job_create :: "new_job \<Rightarrow> (db, job) tx" where
  "job_create input = transact (job_create_in_tx input)"

definition job_get :: "nat \<Rightarrow> (db, job option) tx" where
  "job_get i = bind_i64 i (read_tx (\<lambda>db. job_by_id db i))"

definition job_list :: "job_state option \<Rightarrow> nat option \<Rightarrow> nat \<Rightarrow> (db, job list) tx" where
  "job_list st after limit =
     (case after of
        Some a \<Rightarrow> bind_i64 a (read_tx (\<lambda>db.
          keyset_page j_id (\<lambda>j. st = None \<or> st = Some (j_state j)) after limit (jobs db)))
      | None \<Rightarrow> read_tx (\<lambda>db.
          keyset_page j_id (\<lambda>j. st = None \<or> st = Some (j_state j)) after limit (jobs db)))"

definition job_list_by_state :: "job_state \<Rightarrow> nat \<Rightarrow> (db, job list) tx" where
  "job_list_by_state st limit = read_tx (\<lambda>db.
     take limit (sort_key (\<lambda>j. (- j_priority j, j_id j)) (filter (\<lambda>j. j_state j = st) (jobs db))))"

definition transition_open_to :: "nat \<Rightarrow> job_state \<Rightarrow> instant \<Rightarrow> (db, job) tx" where
  "transition_open_to i next now = bind_i64 i (\<lambda>db.
     let p = (\<lambda>j. j_id j = i \<and> j_state j = JobOpen);
         db' = db\<lparr>jobs := update_where p
           (\<lambda>j. j\<lparr>j_state := next, j_updated_at := now, j_epoch := j_epoch j + 1\<rparr>) (jobs db)\<rparr>
     in if rows_matching p (jobs db) = 0
        then (case job_by_id db i of None \<Rightarrow> (Inl NotFound, db') | Some _ \<Rightarrow> (Inl Conflict, db'))
        else (case job_by_id db' i of Some job \<Rightarrow> (Inr job, db') | None \<Rightarrow> (Inl Internal, db')))"

definition job_succeed_in_tx :: "nat \<Rightarrow> instant \<Rightarrow> (db, job) tx" where
  "job_succeed_in_tx i now = transition_open_to i JobSucceeded now"

definition job_fail_in_tx :: "nat \<Rightarrow> instant \<Rightarrow> (db, job) tx" where
  "job_fail_in_tx i now = transition_open_to i JobFailed now"

definition job_cancel_in_tx :: "nat \<Rightarrow> instant \<Rightarrow> (db, job) tx" where
  "job_cancel_in_tx i now = transition_open_to i JobCancelled now"

definition job_succeed :: "nat \<Rightarrow> instant \<Rightarrow> (db, job) tx" where
  "job_succeed i now = transact (job_succeed_in_tx i now)"

definition job_fail :: "nat \<Rightarrow> instant \<Rightarrow> (db, job) tx" where
  "job_fail i now = transact (job_fail_in_tx i now)"

definition job_cancel :: "nat \<Rightarrow> instant \<Rightarrow> (db, job) tx" where
  "job_cancel i now = transact (job_cancel_in_tx i now)"

section \<open>Transitions\<close>

definition job_terminal :: "job_state \<Rightarrow> bool" where
  "job_terminal st \<longleftrightarrow> st \<noteq> JobOpen"

definition job_next :: "job_state \<Rightarrow> job_state \<Rightarrow> bool" where
  "job_next a b \<longleftrightarrow> a = b \<or> a = JobOpen"

interpretation job_life: lifecycle job_terminal job_next
  by unfold_locales (auto simp: job_terminal_def job_next_def)

lemma transition_open_to_Inr:
  assumes wf: "wf_table j_id (jobs db)"
  shows "transition_open_to i next now db = (Inr job, db') \<longleftrightarrow>
    i < 2 ^ 63 \<and> (\<exists>j \<in> set (jobs db). j_id j = i \<and> j_state j = JobOpen \<and>
      job = j\<lparr>j_state := next, j_updated_at := now, j_epoch := j_epoch j + 1\<rparr>) \<and>
    db' = db\<lparr>jobs := update_where (\<lambda>j. j_id j = i \<and> j_state j = JobOpen)
      (\<lambda>j. j\<lparr>j_state := next, j_updated_at := now, j_epoch := j_epoch j + 1\<rparr>) (jobs db)\<rparr>"
  (is "?L \<longleftrightarrow> ?R")
proof -
  let ?p = "\<lambda>j. j_id j = i \<and> j_state j = JobOpen"
  let ?f = "\<lambda>j. j\<lparr>j_state := next, j_updated_at := now, j_epoch := j_epoch j + 1\<rparr>"
  have wf': "wf_table j_id (update_where ?p ?f (jobs db))"
    using wf by (rule wf_table_update) simp
  have after: "find (\<lambda>j. j_id j = i) (update_where ?p ?f (jobs db)) = Some (?f j)"
    if "j \<in> set (jobs db)" "?p j" for j
    unfolding find_id [OF wf'] in_update_where using that by (auto intro!: bexI [of _ j])
  show ?thesis
  proof (cases "\<exists>j \<in> set (jobs db). ?p j")
    case True
    then obtain j where j: "j \<in> set (jobs db)" "?p j" by blast
    have "j' = j" if "j' \<in> set (jobs db)" "j_id j' = i" for j'
      using that j wf_table_same [OF wf] by blast
    then have "(\<exists>x \<in> set (jobs db). j_id x = i \<and> j_state x = JobOpen \<and> job = ?f x) \<longleftrightarrow> job = ?f j"
      using j by blast
    moreover have "rows_matching ?p (jobs db) \<noteq> 0" using True by (simp only: rows_matching_0) blast
    ultimately show ?thesis
      using after [OF j] by (auto simp: transition_open_to_def bind_i64_Inr job_by_id_def Let_def)
  next
    case False
    then have "rows_matching ?p (jobs db) = 0" by (simp only: rows_matching_0) blast
    then show ?thesis using False
      by (auto simp: transition_open_to_def bind_i64_Inr Let_def split: option.splits)
  qed
qed

lemma abs_exec_jobs [simp]: "abs_exec (db\<lparr>jobs := js\<rparr>) = abs_exec db"
  by (simp add: abs_exec_def)

lemma job_create_refines: "job_create_in_tx input db = (Inr j, db') \<Longrightarrow> refines db db'"
  by (auto simp: job_create_in_tx_def Let_def wf_db_def wf_table_insert intro!: refines_same)

lemma transition_open_to_refines:
  "transition_open_to i next now db = (Inr j, db') \<Longrightarrow> refines db db'"
  unfolding refines_def good_db_def
  by (auto simp: transition_open_to_Inr wf_db_def wf_table_update)

section \<open>Properties of the job repository\<close>

definition closed_job :: "job_state \<Rightarrow> instant \<Rightarrow> job \<Rightarrow> job" where
  "closed_job st now j = j\<lparr>j_state := st, j_updated_at := now, j_epoch := j_epoch j + 1\<rparr>"

lemma transition_outcome:
  assumes wf: "wf_table j_id (jobs db)" and i: "i < 2 ^ 63"
  shows "transact (transition_open_to i st now) db =
    (case job_by_id db i of
       None \<Rightarrow> (Inl NotFound, db)
     | Some j \<Rightarrow>
         if j_state j = JobOpen
         then (Inr (closed_job st now j), db\<lparr>jobs := map (\<lambda>k. if k = j then closed_job st now j else k) (jobs db)\<rparr>)
         else (Inl Conflict, db))"
proof (cases "job_by_id db i")
  case None
  then have "\<forall>j \<in> set (jobs db). j_id j \<noteq> i" by (auto simp: job_by_id_def find_None_iff)
  then show ?thesis using None i
    by (auto simp: transact_def transition_open_to_def bind_i64_apply Let_def)
next
  case (Some j)
  then have j: "j \<in> set (jobs db)" "j_id j = i" using find_id [OF wf, of i j] by (auto simp: job_by_id_def)
  then have same: "k = j" if "k \<in> set (jobs db)" "j_id k = i" for k
    using that wf_table_same [OF wf] by blast
  show ?thesis
  proof (cases "j_state j = JobOpen")
    case True
    have "update_where (\<lambda>k. j_id k = i \<and> j_state k = JobOpen)
        (\<lambda>j. j\<lparr>j_state := st, j_updated_at := now, j_epoch := j_epoch j + 1\<rparr>) (jobs db) =
      map (\<lambda>k. if k = j then closed_job st now j else k) (jobs db)"
      unfolding update_where_def map_eq_conv
    proof
      fix k assume "k \<in> set (jobs db)"
      then have "j_id k = i \<longleftrightarrow> k = j" using same j by blast
      then show "(if j_id k = i \<and> j_state k = JobOpen
          then k\<lparr>j_state := st, j_updated_at := now, j_epoch := j_epoch k + 1\<rparr> else k) =
        (if k = j then closed_job st now j else k)"
        using True by (cases "k = j") (simp_all add: closed_job_def)
    qed
    moreover have "transition_open_to i st now db = (Inr (closed_job st now j),
        db\<lparr>jobs := update_where (\<lambda>k. j_id k = i \<and> j_state k = JobOpen)
        (\<lambda>j. j\<lparr>j_state := st, j_updated_at := now, j_epoch := j_epoch j + 1\<rparr>) (jobs db)\<rparr>)"
      unfolding transition_open_to_Inr [OF wf] using i j True by (auto simp: closed_job_def)
    ultimately show ?thesis using Some True by (simp add: transact_def)
  next
    case False
    then have "rows_matching (\<lambda>k. j_id k = i \<and> j_state k = JobOpen) (jobs db) = 0"
      unfolding rows_matching_0 using same by blast
    then show ?thesis using Some False i
      by (simp add: transact_def transition_open_to_def bind_i64_apply Let_def)
  qed
qed


definition example_job :: job where
  "example_job = \<lparr> j_id = 1, j_kind = ''scan'', j_state = JobOpen, j_priority = 0, j_created_at = 0,
     j_updated_at = 0, j_epoch = 0 \<rparr>"


end
