(* ===== verification/Tickets.thy ===== *)
theory Tickets
  imports Jobs "HOL-Library.List_Lexorder" "HOL-Library.Char_ord"
begin

text \<open>
  The ticket repository (\<^verbatim>\<open>crates/voom-store/src/repo/execution/tickets.rs\<close>): creation,
  dependency edges with the recursive cycle check, promotion of unblocked tickets, retry backoff,
  the transition of a ticket that fails before it is leased, and the reads the scheduler and the
  workflow executor issue. The reads that use \<^verbatim>\<open>GLOB\<close> and the scan-session join are not
  modelled. \<open>json_text\<close> and \<open>json_int\<close> read a JSON path as a SQL text or integer;
  a path that holds an array or an object compares equal to no bound text here.

  The value the random generator of \<^verbatim>\<open>default_backoff\<close> draws is its argument \<open>draw\<close>.
\<close>

definition json_text :: "json \<Rightarrow> string list \<Rightarrow> string option" where
  "json_text v path = (case json_extract v path of Some (JString s) \<Rightarrow> Some s | _ \<Rightarrow> None)"

definition json_int :: "json \<Rightarrow> string list \<Rightarrow> int option" where
  "json_int v path = (case json_extract v path of
      Some (JInt n) \<Rightarrow> Some n | Some (JBool b) \<Rightarrow> Some (of_bool b) | _ \<Rightarrow> None)"

section \<open>Retry backoff\<close>

definition NANOS_PER_SECOND :: int where
  "NANOS_PER_SECOND = 1000000000"

definition DEFAULT_BACKOFF_BASE_SECS :: nat where
  "DEFAULT_BACKOFF_BASE_SECS = 5"

definition DEFAULT_BACKOFF_CAP_SECS :: nat where
  "DEFAULT_BACKOFF_CAP_SECS = 300"

definition u64_max :: nat where
  "u64_max = 2 ^ 64 - 1"

definition backoff_cap_secs :: "nat \<Rightarrow> nat" where
  "backoff_cap_secs attempt =
     (let shifted = (if attempt < 64 then 2 ^ attempt else u64_max);
          exp_secs = min (DEFAULT_BACKOFF_BASE_SECS * shifted) u64_max
      in min exp_secs DEFAULT_BACKOFF_CAP_SECS)"

definition default_backoff_secs :: "nat \<Rightarrow> nat \<Rightarrow> nat" where
  "default_backoff_secs attempt draw =
     (let cap_secs = backoff_cap_secs attempt;
          buckets = min (cap_secs + 1) (2 ^ 128 - 1);
          raw = min (draw * buckets) (2 ^ 128 - 1);
          jitter_secs = (if raw div 2 ^ 32 \<le> u64_max then raw div 2 ^ 32 else cap_secs)
      in if jitter_secs < 2 ^ 63 then jitter_secs else 2 ^ 63 - 1)"

definition default_backoff :: "nat \<Rightarrow> nat \<Rightarrow> int" where
  "default_backoff attempt draw = int (default_backoff_secs attempt draw) * NANOS_PER_SECOND"

section \<open>Creation\<close>

record new_ticket =
  nt_job_id :: "nat option"
  nt_kind :: ticket_operation
  nt_priority :: int
  nt_payload :: json
  nt_max_attempts :: nat
  nt_created_at :: instant

definition bind_i64_option :: "nat option \<Rightarrow> ('s, 'a) tx \<Rightarrow> ('s, 'a) tx" where
  "bind_i64_option v k = (case v of None \<Rightarrow> k | Some i \<Rightarrow> bind_i64 i k)"

definition ticket_get_in_tx :: "nat \<Rightarrow> (db, ticket option) tx" where
  "ticket_get_in_tx i = bind_i64 i (read_tx (\<lambda>db. ticket_by_id db i))"

definition ticket_create_in_tx :: "new_ticket \<Rightarrow> (db, ticket) tx" where
  "ticket_create_in_tx input = bind_i64_option (nt_job_id input) (\<lambda>db.
     if nt_max_attempts input < 1 then (Inl Database, db)
     else if (case nt_job_id input of None \<Rightarrow> False | Some j \<Rightarrow> job_by_id db j = None)
       then (Inl Database, db)
     else
       let i = next_rowid t_id (tickets db);
           row = \<lparr> t_id = i, t_job_id = nt_job_id input, t_kind = nt_kind input, t_state = Pending,
             t_priority = nt_priority input, t_payload = nt_payload input, t_result = None,
             t_attempt = 0, t_max_attempts = nt_max_attempts input,
             t_next_eligible_at = nt_created_at input, t_created_at = nt_created_at input,
             t_state_changed_at = nt_created_at input, t_epoch = 0 \<rparr>
       in bind_tx (ticket_get_in_tx i)
            (\<lambda>r. case r of Some t \<Rightarrow> return_tx t | None \<Rightarrow> throw_tx Internal)
            (db\<lparr>tickets := tickets db @ [row]\<rparr>))"

definition ticket_create :: "new_ticket \<Rightarrow> (db, ticket) tx" where
  "ticket_create input = transact (ticket_create_in_tx input)"

section \<open>Dependencies\<close>

text \<open>
  The recursive query \<^verbatim>\<open>WITH RECURSIVE reach(id)\<close> as SQLite evaluates it: a queue of rows,
  each of which adds the rows its step yields that were not produced before (\<^verbatim>\<open>UNION\<close>).
\<close>

definition dep_step :: "(nat \<times> nat) list \<Rightarrow> nat \<Rightarrow> nat list" where
  "dep_step edges t = remdups (map snd (filter (\<lambda>e. fst e = t) edges))"

function (sequential) dep_reach :: "(nat \<times> nat) list \<Rightarrow> nat list \<Rightarrow> nat list \<Rightarrow> nat list" where
  "dep_reach edges [] seen = seen"
| "dep_reach edges (t # queue) seen =
     (let new = filter (\<lambda>d. d \<notin> set seen) (dep_step edges t)
      in dep_reach edges (queue @ new) (seen @ new))"
  by pat_completeness auto
termination
proof (relation "measures [\<lambda>(edges, queue, seen). card (snd ` set edges - set seen),
    \<lambda>(edges, queue, seen). length queue]")
  fix edges :: "(nat \<times> nat) list" and t queue seen new
  assume new: "new = filter (\<lambda>d. d \<notin> set seen) (dep_step edges t)"
  have sub: "set new \<subseteq> snd ` set edges - set seen" using new by (auto simp: dep_step_def)
  show "((edges, queue @ new, seen @ new), edges, t # queue, seen) \<in>
    measures [\<lambda>(edges, queue, seen). card (snd ` set edges - set seen),
      \<lambda>(edges, queue, seen). length queue]"
  proof (cases "new = []")
    case False
    then obtain d where "d \<in> set new" by (meson last_in_set)
    then have "snd ` set edges - set (seen @ new) \<subset> snd ` set edges - set seen"
      using sub by auto
    then have "card (snd ` set edges - set (seen @ new)) < card (snd ` set edges - set seen)"
      by (intro psubset_card_mono) auto
    then show ?thesis by simp
  qed simp
qed simp

definition reach_query :: "(nat \<times> nat) list \<Rightarrow> nat \<Rightarrow> nat list" where
  "reach_query edges start = dep_reach edges (dep_step edges start) (dep_step edges start)"

definition add_dependency_in_tx :: "nat \<Rightarrow> nat \<Rightarrow> (db, unit) tx" where
  "add_dependency_in_tx ticket_id depends_on db =
     (if ticket_id = depends_on then (Inl DependencyCycle, db)
      else bind_i64 ticket_id (\<lambda>db.
        case ticket_by_id db ticket_id of
          None \<Rightarrow> (Inl NotFound, db)
        | Some t \<Rightarrow>
            if t_state t \<noteq> Pending then (Inl Conflict, db)
            else bind_i64 depends_on (\<lambda>db.
              if ticket_id \<in> set (reach_query (dep_edges (ticket_dependencies db)) depends_on)
              then (Inl DependencyCycle, db)
              else if ticket_by_id db depends_on = None then (Inl Database, db)
              else if (ticket_id, depends_on) \<in> set (dep_edges (ticket_dependencies db))
              then (Inl Database, db)
              else (Inr (), db\<lparr>ticket_dependencies := ticket_dependencies db @
                [\<lparr>td_ticket_id = ticket_id, td_depends_on_ticket_id = depends_on\<rparr>]\<rparr>)) db) db)"

definition add_dependency :: "nat \<Rightarrow> nat \<Rightarrow> (db, unit) tx" where
  "add_dependency ticket_id depends_on = transact (add_dependency_in_tx ticket_id depends_on)"

definition dependency_exists_in_tx :: "nat \<Rightarrow> nat \<Rightarrow> (db, bool) tx" where
  "dependency_exists_in_tx ticket_id depends_on =
     bind_i64 ticket_id (bind_i64 depends_on (read_tx (\<lambda>db.
       (ticket_id, depends_on) \<in> set (dep_edges (ticket_dependencies db)))))"

text \<open>The count of unsucceeded dependencies, a join of edges with tickets.\<close>

definition unsucceeded_dependencies :: "db \<Rightarrow> nat \<Rightarrow> nat" where
  "unsucceeded_dependencies db ticket_id =
     length (concat (map (\<lambda>d. filter (\<lambda>t. t_id t = td_depends_on_ticket_id d \<and> t_state t \<noteq> Succeeded)
         (tickets db))
       (filter (\<lambda>d. td_ticket_id d = ticket_id) (ticket_dependencies db))))"

definition mark_ready_if_unblocked_in_tx :: "nat \<Rightarrow> instant \<Rightarrow> (db, ticket list) tx" where
  "mark_ready_if_unblocked_in_tx ticket_id now = bind_i64 ticket_id (\<lambda>db.
     case ticket_by_id db ticket_id of
       None \<Rightarrow> (Inl NotFound, db)
     | Some t \<Rightarrow>
         if t_state t \<noteq> Pending then (Inr [], db)
         else if unsucceeded_dependencies db ticket_id > 0 then (Inr [], db)
         else
           let p = (\<lambda>t. t_id t = ticket_id \<and> t_state t = Pending);
               f = (\<lambda>t. t\<lparr>t_state := Ready, t_state_changed_at := now, t_epoch := t_epoch t + 1\<rparr>)
           in case find p (tickets db) of
                None \<Rightarrow> (Inl Conflict, db)
              | Some t \<Rightarrow> (Inr [f t], db\<lparr>tickets := update_where p f (tickets db)\<rparr>))"

definition mark_ready_if_unblocked :: "nat \<Rightarrow> instant \<Rightarrow> (db, ticket list) tx" where
  "mark_ready_if_unblocked ticket_id now = transact (mark_ready_if_unblocked_in_tx ticket_id now)"

text \<open>The dependents of a ticket, a join of edges with tickets in id order.\<close>

definition list_dependents_in_tx :: "nat \<Rightarrow> (db, ticket list) tx" where
  "list_dependents_in_tx depends_on = bind_i64 depends_on (read_tx (\<lambda>db.
     sort_key t_id (concat (map (\<lambda>d. filter (\<lambda>t. t_id t = td_ticket_id d) (tickets db))
       (filter (\<lambda>d. td_depends_on_ticket_id d = depends_on) (ticket_dependencies db))))))"

section \<open>Failure before a lease\<close>

datatype pre_lease_failure_transition = Terminal | RetryAt instant

definition transition_ready_before_lease_failure_in_tx ::
  "nat \<Rightarrow> nat \<Rightarrow> nat \<Rightarrow> pre_lease_failure_transition \<Rightarrow> instant \<Rightarrow> (db, ticket) tx" where
  "transition_ready_before_lease_failure_in_tx ticket_id previous_attempt next_attempt transition now =
     (let state = (case transition of Terminal \<Rightarrow> Failed | RetryAt _ \<Rightarrow> Ready);
          next_eligible = (case transition of Terminal \<Rightarrow> None | RetryAt at \<Rightarrow> Some at);
          f = (\<lambda>t. t\<lparr>t_state := state, t_state_changed_at := now, t_attempt := next_attempt,
             t_next_eligible_at := (case next_eligible of Some at \<Rightarrow> at | None \<Rightarrow> t_next_eligible_at t),
             t_epoch := t_epoch t + 1\<rparr>)
      in bind_i64 ticket_id (\<lambda>db.
        let p = (\<lambda>t. t_id t = ticket_id \<and> t_state t = Ready \<and> t_attempt t = previous_attempt \<and>
              t_next_eligible_at t \<le> now)
        in case find p (tickets db) of
             None \<Rightarrow> (Inl Conflict, db)
           | Some t \<Rightarrow> (Inr (f t), db\<lparr>tickets := update_where p f (tickets db)\<rparr>)))"

section \<open>Reads\<close>

definition ticket_get :: "nat \<Rightarrow> (db, ticket option) tx" where
  "ticket_get i = bind_i64 i (read_tx (\<lambda>db. ticket_by_id db i))"

definition ticket_list :: "ticket_state option \<Rightarrow> nat option \<Rightarrow> nat \<Rightarrow> (db, ticket list) tx" where
  "ticket_list st after limit = bind_i64_option after (read_tx (\<lambda>db.
     keyset_page t_id (\<lambda>t. st = None \<or> st = Some (t_state t)) after limit (tickets db)))"

text \<open>\<^verbatim>\<open>ORDER BY priority DESC, next_eligible_at ASC, id ASC\<close>.\<close>

definition scheduling_key :: "ticket \<Rightarrow> int \<times> int \<times> nat" where
  "scheduling_key t = (- t_priority t, t_next_eligible_at t, t_id t)"

definition ticket_list_by_state :: "ticket_state \<Rightarrow> nat \<Rightarrow> (db, ticket list) tx" where
  "ticket_list_by_state st limit = read_tx (\<lambda>db.
     take limit (sort_key scheduling_key (filter (\<lambda>t. t_state t = st) (tickets db))))"

definition ticket_list_for_job :: "nat \<Rightarrow> (db, ticket list) tx" where
  "ticket_list_for_job job_id = bind_i64 job_id (read_tx (\<lambda>db.
     sort_key t_id (filter (\<lambda>t. t_job_id t = Some job_id) (tickets db))))"

definition job_allows :: "db \<Rightarrow> ticket \<Rightarrow> bool" where
  "job_allows db t = (case t_job_id t of None \<Rightarrow> True
     | Some j \<Rightarrow> list_ex (\<lambda>r. j_id r = j \<and> j_state r = JobOpen) (jobs db))"

definition ready_for_operations_in_tx :: "ticket_operation list \<Rightarrow> instant \<Rightarrow> (db, ticket list) tx" where
  "ready_for_operations_in_tx operations now =
     (let tokens = concat (map (\<lambda>op. matching_tokens (normalize op)) operations)
      in if tokens = [] then return_tx []
         else read_tx (\<lambda>db. sort_key scheduling_key (filter (\<lambda>t.
           t_state t = Ready \<and> t_next_eligible_at t \<le> now \<and> t_attempt t < t_max_attempts t \<and>
           job_allows db t \<and> t_kind t \<in> set tokens) (tickets db))))"

definition next_ready_for_operations_in_tx ::
  "ticket_operation list \<Rightarrow> instant \<Rightarrow> (db, ticket option) tx" where
  "next_ready_for_operations_in_tx operations now =
     bind_tx (ready_for_operations_in_tx operations now)
       (\<lambda>ts. return_tx (case ts of [] \<Rightarrow> None | t # _ \<Rightarrow> Some t))"

definition succeeded_results_for_job_and_operation ::
  "nat \<Rightarrow> ticket_operation \<Rightarrow> (db, (nat \<times> json) list) tx" where
  "succeeded_results_for_job_and_operation job_id operation = bind_i64 job_id (read_tx (\<lambda>db.
     List.map_filter (\<lambda>t. map_option (Pair (t_id t)) (t_result t))
       (sort_key t_id (filter (\<lambda>t. t_job_id t = Some job_id \<and> t_kind t = operation \<and>
          t_state t = Succeeded \<and> t_result t \<noteq> None) (tickets db)))))"

section \<open>Workflow reads\<close>

definition in_workflow :: "nat \<Rightarrow> string \<Rightarrow> ticket \<Rightarrow> bool" where
  "in_workflow job_id workflow_id t \<longleftrightarrow>
     t_job_id t = Some job_id \<and> json_text (t_payload t) [''workflow_id''] = Some workflow_id"

definition succeeded_workflow_node_ids :: "nat \<Rightarrow> string \<Rightarrow> (db, string list) tx" where
  "succeeded_workflow_node_ids job_id workflow_id = bind_i64 job_id (read_tx (\<lambda>db.
     sort (remdups (List.map_filter (\<lambda>t. json_text (t_payload t) [''node_id''])
       (filter (\<lambda>t. in_workflow job_id workflow_id t \<and> t_state t = Succeeded) (tickets db))))))"

definition workflow_ticket_exists_in_tx ::
  "nat \<Rightarrow> string \<Rightarrow> string \<Rightarrow> string \<Rightarrow> (db, bool) tx" where
  "workflow_ticket_exists_in_tx job_id workflow_id branch_id node_id =
     bind_i64 job_id (read_tx (\<lambda>db. list_ex (\<lambda>t. in_workflow job_id workflow_id t \<and>
       json_text (t_payload t) [''branch_id''] = Some branch_id \<and>
       json_text (t_payload t) [''node_id''] = Some node_id) (tickets db)))"

definition ready_workflow_tickets ::
  "nat \<Rightarrow> string \<Rightarrow> instant \<Rightarrow> nat \<Rightarrow> (db, ticket list) tx" where
  "ready_workflow_tickets job_id workflow_id now limit = bind_i64 job_id (read_tx (\<lambda>db.
     take limit (sort_key scheduling_key (filter (\<lambda>t. in_workflow job_id workflow_id t \<and>
       t_state t = Ready \<and> t_next_eligible_at t \<le> now) (tickets db)))))"

record workflow_ticket_fact =
  wf_unfinished :: nat
  wf_ready :: nat
  wf_leased :: nat
  wf_failed :: nat
  wf_ready_node_local_media :: nat

definition MEDIA_OPERATIONS :: "string list" where
  "MEDIA_OPERATIONS = [''probe_file'', ''transcode_audio'', ''extract_audio'', ''transcode_video'',
     ''remux'', ''back_up_file'', ''verify_artifact'']"

definition is_media_ticket :: "ticket \<Rightarrow> bool" where
  "is_media_ticket t = (case json_text (t_payload t) [''operation''] of
     Some op \<Rightarrow> op \<in> set MEDIA_OPERATIONS | None \<Rightarrow> False)"

definition workflow_ticket_facts :: "nat \<Rightarrow> string \<Rightarrow> (db, workflow_ticket_fact) tx" where
  "workflow_ticket_facts job_id workflow_id = bind_i64 job_id (\<lambda>db.
     let rows = filter (in_workflow job_id workflow_id) (tickets db);
         facts = \<lparr> wf_unfinished = rows_matching (\<lambda>t. t_state t \<in> {Pending, Ready, Leased}) rows,
           wf_ready = rows_matching (\<lambda>t. t_state t = Ready) rows,
           wf_leased = rows_matching (\<lambda>t. t_state t = Leased) rows,
           wf_failed = rows_matching (\<lambda>t. t_state t = Failed) rows,
           wf_ready_node_local_media = rows_matching (\<lambda>t. t_state t = Ready \<and> is_media_ticket t) rows \<rparr>
     in if list_all (\<lambda>n. n < 2 ^ 32) [wf_unfinished facts, wf_ready facts, wf_leased facts,
          wf_failed facts, wf_ready_node_local_media facts]
        then (Inr facts, db) else (Inl Database, db))"

definition terminal_workflow_media_tickets ::
  "nat \<Rightarrow> string \<Rightarrow> (db, (nat \<times> ticket_state \<times> string) list) tx" where
  "terminal_workflow_media_tickets job_id workflow_id = bind_i64 job_id (read_tx (\<lambda>db.
     List.map_filter (\<lambda>t. map_option (\<lambda>op. (t_id t, t_state t, op)) (json_text (t_payload t) [''operation'']))
       (sort_key t_id (filter (\<lambda>t. in_workflow job_id workflow_id t \<and>
          t_state t \<in> {Succeeded, Failed} \<and> is_media_ticket t) (tickets db)))))"

definition first_failed_workflow_ticket :: "nat \<Rightarrow> string \<Rightarrow> (db, ticket option) tx" where
  "first_failed_workflow_ticket job_id workflow_id = bind_i64 job_id (read_tx (\<lambda>db.
     case sort_key t_id (filter (\<lambda>t. in_workflow job_id workflow_id t \<and> t_state t = Failed) (tickets db))
     of [] \<Rightarrow> None | t # _ \<Rightarrow> Some t))"

definition retry_eligible_at :: "nat \<Rightarrow> string \<Rightarrow> instant \<Rightarrow> (db, instant option) tx" where
  "retry_eligible_at job_id workflow_id now = bind_i64 job_id (read_tx (\<lambda>db.
     case map t_next_eligible_at (filter (\<lambda>t. in_workflow job_id workflow_id t \<and>
       t_state t = Ready \<and> t_next_eligible_at t > now) (tickets db))
     of [] \<Rightarrow> None | x # xs \<Rightarrow> Some (foldr min xs x)))"

record workflow_ticket_identity =
  wi_job_id :: nat
  wi_workflow_id :: string
  wi_branch_id :: string
  wi_node_id :: string
  wi_source_file_version_id :: "nat option"

definition find_workflow_ticket_id_in_tx :: "workflow_ticket_identity \<Rightarrow> (db, nat option) tx" where
  "find_workflow_ticket_id_in_tx identity =
     bind_i64_option (wi_source_file_version_id identity) (bind_i64 (wi_job_id identity) (\<lambda>db.
       let path = [''rendered_payload'', ''source_file_version_id''];
           rows = take 2 (sort_key t_id (filter (\<lambda>t.
             in_workflow (wi_job_id identity) (wi_workflow_id identity) t \<and>
             json_text (t_payload t) [''branch_id''] = Some (wi_branch_id identity) \<and>
             json_text (t_payload t) [''node_id''] = Some (wi_node_id identity) \<and>
             (case wi_source_file_version_id identity of
                None \<Rightarrow> json_extract (t_payload t) path = None
              | Some v \<Rightarrow> json_int (t_payload t) path = Some (int v))) (tickets db)))
       in case rows of
            [] \<Rightarrow> (Inr None, db)
          | [t] \<Rightarrow> (Inr (Some (t_id t)), db)
          | _ \<Rightarrow> (Inl Conflict, db)))"

section \<open>The recursive query computes the transitive dependencies\<close>

lemma dep_step_iff: "d \<in> set (dep_step edges t) \<longleftrightarrow> (t, d) \<in> set edges"
  by (force simp: dep_step_def)

lemma dep_reach_seen: "set seen \<subseteq> set (dep_reach edges queue seen)"
proof (induction edges queue seen rule: dep_reach.induct)
  case (2 edges t queue seen)
  then show ?case by (auto simp: Let_def)
qed simp

lemma dep_reach_sound:
  "set queue \<subseteq> set seen \<Longrightarrow> (\<And>d. d \<in> set seen \<Longrightarrow> (start, d) \<in> (set edges)\<^sup>+) \<Longrightarrow>
     d \<in> set (dep_reach edges queue seen) \<Longrightarrow> (start, d) \<in> (set edges)\<^sup>+"
proof (induction edges queue seen rule: dep_reach.induct)
  case (2 edges t queue seen)
  let ?new = "filter (\<lambda>d. d \<notin> set seen) (dep_step edges t)"
  have "(start, t) \<in> (set edges)\<^sup>+" using 2(2,3) by simp
  then have new: "(start, x) \<in> (set edges)\<^sup>+" if "x \<in> set ?new" for x
    using that by (auto simp: dep_step_iff intro: trancl_into_trancl)
  show ?case
  proof (rule 2(1) [OF refl])
    show "set (queue @ ?new) \<subseteq> set (seen @ ?new)" using 2(2) by auto
    show "\<And>d. d \<in> set (seen @ ?new) \<Longrightarrow> (start, d) \<in> (set edges)\<^sup>+"
      using 2(3) new by (metis Un_iff set_append)
    show "d \<in> set (dep_reach edges (queue @ ?new) (seen @ ?new))" using 2(4) by (simp add: Let_def)
  qed
qed simp

lemma dep_reach_closed:
  "(\<And>x. x \<in> set seen \<Longrightarrow> x \<notin> set queue \<Longrightarrow> set (dep_step edges x) \<subseteq> set seen) \<Longrightarrow>
     x \<in> set (dep_reach edges queue seen) \<Longrightarrow> (x, d) \<in> set edges \<Longrightarrow>
     d \<in> set (dep_reach edges queue seen)"
proof (induction edges queue seen rule: dep_reach.induct)
  case (1 edges seen)
  then show ?case using dep_step_iff by fastforce
next
  case (2 edges t queue seen)
  let ?new = "filter (\<lambda>d. d \<notin> set seen) (dep_step edges t)"
  have "d \<in> set (dep_reach edges (queue @ ?new) (seen @ ?new))"
  proof (rule 2(1) [OF refl])
    show "set (dep_step edges y) \<subseteq> set (seen @ ?new)"
      if "y \<in> set (seen @ ?new)" "y \<notin> set (queue @ ?new)" for y
    proof (cases "y = t")
      case False
      then show ?thesis using that 2(2) [of y] by auto
    qed auto
    show "x \<in> set (dep_reach edges (queue @ ?new) (seen @ ?new))" using 2(3) by (simp add: Let_def)
    show "(x, d) \<in> set edges" by (rule 2(4))
  qed
  then show ?case by (simp add: Let_def)
qed

lemma reach_query_trancl: "d \<in> set (reach_query edges start) \<longleftrightarrow> (start, d) \<in> (set edges)\<^sup>+"
proof
  assume "d \<in> set (reach_query edges start)"
  then show "(start, d) \<in> (set edges)\<^sup>+"
    unfolding reach_query_def by (rule dep_reach_sound [rotated -1]) (auto simp: dep_step_iff)
next
  assume "(start, d) \<in> (set edges)\<^sup>+"
  then show "d \<in> set (reach_query edges start)"
  proof (induction rule: trancl_induct)
    case (base d)
    then show ?case unfolding reach_query_def
      using dep_reach_seen [of "dep_step edges start" edges "dep_step edges start"]
      by (auto simp: dep_step_iff)
  next
    case (step x d)
    then show ?case unfolding reach_query_def
      by (intro dep_reach_closed [of "dep_step edges start" "dep_step edges start" edges x d]) auto
  qed
qed

section \<open>Refinement\<close>

lemma bind_i64_option_Inr:
  "bind_i64_option v k s = (Inr x, s') \<Longrightarrow> k s = (Inr x, s')"
  by (cases v) (auto simp: bind_i64_option_def bind_i64_Inr)

lemma ticket_create_Inr:
  assumes "ticket_create_in_tx input db = (Inr t, db')" and "wf_table t_id (tickets db)"
  shows "1 \<le> nt_max_attempts input \<and> db' = db\<lparr>tickets := tickets db @ [t]\<rparr> \<and>
    t = \<lparr> t_id = next_rowid t_id (tickets db), t_job_id = nt_job_id input, t_kind = nt_kind input,
      t_state = Pending, t_priority = nt_priority input, t_payload = nt_payload input,
      t_result = None, t_attempt = 0, t_max_attempts = nt_max_attempts input,
      t_next_eligible_at = nt_created_at input, t_created_at = nt_created_at input,
      t_state_changed_at = nt_created_at input, t_epoch = 0 \<rparr> \<and>
    (\<forall>j. nt_job_id input = Some j \<longrightarrow> job_by_id db j \<noteq> None)"
proof -
  let ?row = "\<lparr> t_id = next_rowid t_id (tickets db), t_job_id = nt_job_id input, t_kind = nt_kind input,
      t_state = Pending, t_priority = nt_priority input, t_payload = nt_payload input,
      t_result = None, t_attempt = 0, t_max_attempts = nt_max_attempts input,
      t_next_eligible_at = nt_created_at input, t_created_at = nt_created_at input,
      t_state_changed_at = nt_created_at input, t_epoch = 0 \<rparr>"
  have "wf_table t_id (tickets db @ [?row])" by (rule wf_table_insert [OF assms(2)]) simp
  then have find: "find (\<lambda>t. t_id t = next_rowid t_id (tickets db)) (tickets db @ [?row]) = Some ?row"
    by (simp add: find_id)
  show ?thesis
    using bind_i64_option_Inr [OF assms(1) [unfolded ticket_create_in_tx_def]]
    by (auto simp: Let_def bind_tx_Inr ticket_get_in_tx_def bind_i64_Inr read_tx_def ticket_by_id_def
        find return_tx_def throw_tx_def split: if_splits option.splits)
qed

lemma ticket_create_refines:
  assumes "ticket_create_in_tx input db = (Inr t, db')"
  shows "refines db db'"
proof (rule refines_act)
  assume "good_db db"
  then have wf: "wf_db db" by blast
  note shape = ticket_create_Inr [OF assms wf_db_tables(2) [OF wf]]
  have id: "t_id t = next_rowid t_id (tickets db)" using shape by simp
  show "wf_db db'" using shape wf by (auto simp: wf_db_def wf_table_insert)
  have "x_tickets (abs_exec db) (t_id t) = None"
    using id by (auto simp: abs_exec_def table_map_None dest: next_rowid_fresh [of _ _ t_id])
  moreover have "abs_exec db' = (abs_exec db)\<lparr>x_tickets := (x_tickets (abs_exec db))(t_id t \<mapsto>
      \<lparr>at_state = Pending, at_attempt = 0, at_max = nt_max_attempts input\<rparr>)\<rparr>"
    using shape table_map_next_rowid [OF id, of abs_ticket] by (auto simp: abs_exec_def abs_ticket_def)
  ultimately show "act (abs_exec db) (abs_exec db')"
    using shape act_create by simp
qed

lemma ticket_by_id_Some:
  "wf_db db \<Longrightarrow> ticket_by_id db i = Some t \<longleftrightarrow> t \<in> set (tickets db) \<and> t_id t = i"
  by (simp add: ticket_by_id_def find_id wf_db_def)

lemma ticket_by_id_None: "ticket_by_id db i = None \<longleftrightarrow> (\<forall>t \<in> set (tickets db). t_id t \<noteq> i)"
  by (auto simp: ticket_by_id_def find_None_iff)

lemma x_tickets_abs:
  "wf_db db \<Longrightarrow> x_tickets (abs_exec db) i = map_option abs_ticket (ticket_by_id db i)"
proof (rule option_eqI)
  fix a
  assume wf: "wf_db db"
  show "x_tickets (abs_exec db) i = Some a \<longleftrightarrow> map_option abs_ticket (ticket_by_id db i) = Some a"
    using wf by (auto simp: abs_exec_def table_map_Some wf_db_tables ticket_by_id_Some)
qed

lemma add_dependency_Inr:
  assumes "add_dependency_in_tx t d db = (Inr u, db')"
  shows "t \<noteq> d \<and> (\<exists>r. ticket_by_id db t = Some r \<and> t_state r = Pending) \<and>
    ticket_by_id db d \<noteq> None \<and> (d, t) \<notin> (set (dep_edges (ticket_dependencies db)))\<^sup>+ \<and>
    (t, d) \<notin> set (dep_edges (ticket_dependencies db)) \<and>
    db' = db\<lparr>ticket_dependencies := ticket_dependencies db @
      [\<lparr>td_ticket_id = t, td_depends_on_ticket_id = d\<rparr>]\<rparr>"
  using assms
  by (auto simp: add_dependency_in_tx_def bind_i64_Inr reach_query_trancl
      split: if_splits option.splits)

lemma add_dependency_refines:
  assumes "add_dependency_in_tx t d db = (Inr u, db')"
  shows "refines db db'"
proof (rule refines_act)
  assume "good_db db"
  then have wf: "wf_db db" by blast
  note shape = add_dependency_Inr [OF assms]
  show "wf_db db'" using shape wf by (auto simp: wf_db_def)
  have "abs_exec db' = (abs_exec db)\<lparr>x_deps := insert (t, d) (x_deps (abs_exec db))\<rparr>"
    using shape by (auto simp: abs_exec_def dep_edges_def)
  moreover have "act (abs_exec db) ((abs_exec db)\<lparr>x_deps := insert (t, d) (x_deps (abs_exec db))\<rparr>)"
    using shape by (intro act_depend) (auto simp: has_state_def x_tickets_abs [OF wf] x_deps_abs
        abs_ticket_def domIff)
  ultimately show "act (abs_exec db) (abs_exec db')" by simp
qed

text \<open>Updating one ticket row by its id is one map update of the abstraction.\<close>

lemma abs_exec_ticket_update:
  assumes "wf_db db" and "t \<in> set (tickets db)" "q t" and "\<And>t. t_id (f t) = t_id t"
  shows "abs_exec (db\<lparr>tickets := update_where (\<lambda>r. t_id r = t_id t \<and> q r) f (tickets db)\<rparr>) =
    (abs_exec db)\<lparr>x_tickets := (x_tickets (abs_exec db))(t_id t \<mapsto> abs_ticket (f t))\<rparr>"
  using table_map_update [of t_id "tickets db" t "t_id t" q f abs_ticket] assms
  by (simp add: abs_exec_def wf_db_tables)

lemma wf_db_tickets:
  assumes "wf_db db" and "\<And>t. t_id (f t) = t_id t"
    and "\<And>t. t \<in> set (tickets db) \<Longrightarrow> p t \<Longrightarrow> t_state (f t) = Succeeded \<longleftrightarrow> t_result (f t) \<noteq> None"
  shows "wf_db (db\<lparr>tickets := update_where p f (tickets db)\<rparr>)"
  using assms by (auto simp: wf_db_def wf_table_update in_update_where)

lemma unsucceeded_0:
  assumes "unsucceeded_dependencies db t = 0" and "(t, d) \<in> set (dep_edges (ticket_dependencies db))"
    and "r \<in> set (tickets db)" "t_id r = d"
  shows "t_state r = Succeeded"
  using assms by (fastforce simp: unsucceeded_dependencies_def dep_edges_def filter_empty_conv)

lemma mark_ready_Inr:
  assumes "mark_ready_if_unblocked_in_tx t now db = (Inr ts, db')" and "wf_db db"
  shows "ts = [] \<and> db' = db \<or>
    (\<exists>r \<in> set (tickets db). t_id r = t \<and> t_state r = Pending \<and> unsucceeded_dependencies db t = 0 \<and>
      ts = [r\<lparr>t_state := Ready, t_state_changed_at := now, t_epoch := t_epoch r + 1\<rparr>] \<and>
      db' = db\<lparr>tickets := update_where (\<lambda>r. t_id r = t \<and> t_state r = Pending)
        (\<lambda>r. r\<lparr>t_state := Ready, t_state_changed_at := now, t_epoch := t_epoch r + 1\<rparr>) (tickets db)\<rparr>)"
  using assms
  by (auto simp: mark_ready_if_unblocked_in_tx_def bind_i64_Inr Let_def dest: find_Some_in
      split: if_splits option.splits)

lemma mark_ready_refines:
  assumes run: "mark_ready_if_unblocked_in_tx t now db = (Inr ts, db')"
  shows "refines db db'"
proof (cases "good_db db")
  case good: True
  then have wf: "wf_db db" by blast
  consider "ts = []" "db' = db"
    | r where "r \<in> set (tickets db)" "t_id r = t" "t_state r = Pending"
        "unsucceeded_dependencies db t = 0"
        "db' = db\<lparr>tickets := update_where (\<lambda>r. t_id r = t \<and> t_state r = Pending)
          (\<lambda>r. r\<lparr>t_state := Ready, t_state_changed_at := now, t_epoch := t_epoch r + 1\<rparr>) (tickets db)\<rparr>"
    using mark_ready_Inr [OF run wf] by blast
  then show ?thesis
  proof cases
    case 2
    have succ: "has_state (abs_exec db) d Succeeded" if edge: "(t, d) \<in> x_deps (abs_exec db)" for d
    proof -
      obtain r where "ticket_by_id db d = Some r"
        using good_deps_exist [OF good edge] by (auto simp: x_tickets_abs [OF wf])
      moreover then have "t_state r = Succeeded"
        using unsucceeded_0 [OF 2(4), of d r] edge ticket_by_id_Some [OF wf] by (simp add: x_deps_abs)
      ultimately show ?thesis by (simp add: has_state_def x_tickets_abs [OF wf] abs_ticket_def)
    qed
    show ?thesis
    proof (rule refines_act)
      show "wf_db db'" unfolding 2(5)
        using wf 2(3) by (intro wf_db_tickets) (auto simp: wf_db_def)
      have "x_tickets (abs_exec db) t = Some (abs_ticket r)"
        using 2 ticket_by_id_Some [OF wf, of t r] by (simp add: x_tickets_abs [OF wf])
      moreover have "abs_exec db' = (abs_exec db)\<lparr>x_tickets := (x_tickets (abs_exec db))(t \<mapsto>
          (abs_ticket r)\<lparr>at_state := Ready\<rparr>)\<rparr>"
        using abs_exec_ticket_update [OF wf 2(1), of "\<lambda>r. t_state r = Pending"
          "\<lambda>r. r\<lparr>t_state := Ready, t_state_changed_at := now, t_epoch := t_epoch r + 1\<rparr>"] 2
        by (simp add: abs_ticket_def)
      ultimately show "act (abs_exec db) (abs_exec db')"
        using act_promote [of "abs_exec db" t "abs_ticket r"] succ 2(3) by (simp add: abs_ticket_def)
    qed
  qed simp
qed (simp add: refines_def)

section \<open>Properties of the ticket repository\<close>

lemma backoff_cap: "backoff_cap_secs attempt = min (5 * 2 ^ attempt) 300"
proof (cases "attempt < 64")
  case True
  then show ?thesis
    by (simp add: backoff_cap_secs_def u64_max_def DEFAULT_BACKOFF_BASE_SECS_def
        DEFAULT_BACKOFF_CAP_SECS_def min.assoc min_absorb2)
next
  case False
  then have "(2::nat) ^ 6 \<le> 2 ^ attempt" by (intro power_increasing) auto
  then have "300 \<le> 5 * (2::nat) ^ attempt" by simp
  then show ?thesis using False
    by (simp add: backoff_cap_secs_def u64_max_def DEFAULT_BACKOFF_BASE_SECS_def
        DEFAULT_BACKOFF_CAP_SECS_def min_absorb2)
qed

lemma backoff_secs:
  assumes "draw < 2 ^ 32"
  shows "default_backoff_secs attempt draw = draw * (backoff_cap_secs attempt + 1) div 2 ^ 32"
proof -
  let ?cap = "backoff_cap_secs attempt"
  have cap: "?cap \<le> 300" by (simp add: backoff_cap)
  have "draw * (?cap + 1) \<le> 2 ^ 32 * 301"
    using assms cap by (intro mult_le_mono) auto
  then have raw: "draw * (?cap + 1) \<le> 2 ^ 128 - 1" and "draw * (?cap + 1) div 2 ^ 32 \<le> 301"
    by (auto simp: div_le_mono)
  moreover have "min (?cap + 1) (2 ^ 128 - 1) = ?cap + 1" using cap by simp
  ultimately show ?thesis
    by (simp add: default_backoff_secs_def Let_def min_absorb1 u64_max_def)
qed

text \<open>The retry backoff is full jitter over a capped exponential: for every 32-bit draw of the
  generator the delay in whole seconds lies between 0 and the smaller of 300 and 5 times 2 to the
  attempt, the smallest draw gives 0 and the largest draw gives exactly that bound, also for
  attempt numbers beyond the width of the shift.\<close>

theorem default_backoff_bounds:
  assumes "draw < 2 ^ 32"
  shows "default_backoff_secs attempt draw \<le> min (5 * 2 ^ attempt) 300 \<and>
    default_backoff_secs attempt 0 = 0 \<and>
    default_backoff_secs attempt (2 ^ 32 - 1) = min (5 * 2 ^ attempt) 300"
proof -
  let ?n = "backoff_cap_secs attempt + 1"
  have n: "?n \<le> 301" by (simp add: backoff_cap)
  have "draw * ?n < 2 ^ 32 * ?n" using assms by (intro mult_strict_right_mono) auto
  then have "draw * ?n div 2 ^ 32 < ?n"
    by (metis less_mult_imp_div_less mult.commute)
  then have "default_backoff_secs attempt draw \<le> backoff_cap_secs attempt"
    using backoff_secs [OF assms] by simp
  moreover have "default_backoff_secs attempt (2 ^ 32 - 1) = backoff_cap_secs attempt"
  proof -
    have "(2 ^ 32 - 1) * ?n = backoff_cap_secs attempt * 2 ^ 32 + (2 ^ 32 - ?n)"
      using n by (simp add: algebra_simps)
    moreover have "2 ^ 32 - ?n < 2 ^ 32" by simp
    ultimately have "(2 ^ 32 - 1) * ?n div 2 ^ 32 = backoff_cap_secs attempt"
      by (intro div_nat_eqI) (simp_all add: algebra_simps)
    then show ?thesis by (subst backoff_secs) simp_all
  qed
  moreover have "default_backoff_secs attempt 0 = 0" by (subst backoff_secs) simp_all
  ultimately show ?thesis by (simp only: backoff_cap)
qed

theorem default_backoff_bounds_witness:
  "default_backoff_secs 2 (2 ^ 31) \<le> 20 \<and> default_backoff_secs 2 (2 ^ 32 - 1) = 20"
  using default_backoff_bounds [of "2 ^ 31" 2] by simp

text \<open>C36. The recursive cycle query terminates and returns exactly the tickets the start ticket
  depends on through one or more edges.\<close>

theorem cycle_query_is_transitive_closure:
  "set (reach_query edges start) = {d. (start, d) \<in> (set edges)\<^sup>+}"
  using reach_query_trancl by blast


text \<open>C32. A ticket is promoted by \<^verbatim>\<open>mark_ready_if_unblocked\<close> exactly when it is pending and
  each of its dependencies has succeeded; the promotion changes that one row, and in every other
  case the database is left as it was.\<close>

theorem mark_ready_promotes_exactly_unblocked:
  assumes good: "good_db db" and t: "ticket_by_id db t = Some r" "t < 2 ^ 63"
  shows "mark_ready_if_unblocked_in_tx t now db =
    (if t_state r = Pending \<and> (\<forall>d. (t, d) \<in> set (dep_edges (ticket_dependencies db)) \<longrightarrow>
          (\<exists>q. ticket_by_id db d = Some q \<and> t_state q = Succeeded))
     then (Inr [r\<lparr>t_state := Ready, t_state_changed_at := now, t_epoch := t_epoch r + 1\<rparr>],
       db\<lparr>tickets := update_where (\<lambda>r. t_id r = t \<and> t_state r = Pending)
         (\<lambda>r. r\<lparr>t_state := Ready, t_state_changed_at := now, t_epoch := t_epoch r + 1\<rparr>) (tickets db)\<rparr>)
     else (Inr [], db))"
proof -
  have wf: "wf_db db" using good by blast
  have r: "r \<in> set (tickets db)" "t_id r = t" using t ticket_by_id_Some [OF wf] by auto
  have count: "unsucceeded_dependencies db t = 0 \<longleftrightarrow>
    (\<forall>d. (t, d) \<in> set (dep_edges (ticket_dependencies db)) \<longrightarrow>
      (\<exists>q. ticket_by_id db d = Some q \<and> t_state q = Succeeded))" (is "?L \<longleftrightarrow> ?R")
  proof
    assume L: ?L
    show ?R
    proof (intro allI impI)
      fix d
      assume edge: "(t, d) \<in> set (dep_edges (ticket_dependencies db))"
      then have "d \<in> dom (x_tickets (abs_exec db))"
        using good_deps_exist [OF good, of t d] by (simp add: x_deps_abs)
      then obtain q where "ticket_by_id db d = Some q"
        by (auto simp: x_tickets_abs [OF wf])
      then show "\<exists>q. ticket_by_id db d = Some q \<and> t_state q = Succeeded"
        using unsucceeded_0 [OF L edge] ticket_by_id_Some [OF wf] by blast
    qed
  next
    assume R: ?R
    have "t_state q = Succeeded" if "e \<in> set (ticket_dependencies db)" "td_ticket_id e = t"
      "q \<in> set (tickets db)" "t_id q = td_depends_on_ticket_id e" for e q
    proof -
      have "(t, t_id q) \<in> set (dep_edges (ticket_dependencies db))"
        using that by (force simp: dep_edges_def)
      then show ?thesis using R that ticket_by_id_Some [OF wf, of "t_id q" q] by auto
    qed
    then show ?L by (auto simp: unsucceeded_dependencies_def filter_empty_conv)
  qed
  have found: "t_state r = Pending \<Longrightarrow> find (\<lambda>r. t_id r = t \<and> t_state r = Pending) (tickets db) = Some r"
    using r by (simp add: find_key [OF wf_db_tables(2) [OF wf]])
  show ?thesis
    unfolding count [symmetric] mark_ready_if_unblocked_in_tx_def bind_i64_apply
    using t found by simp
qed

text \<open>The operations the workflow counters treat as node-local media work, a literal list in the
  SQL text, are exactly the operation kinds \<^verbatim>\<open>is_node_local_media_dispatch\<close> names.\<close>

theorem media_operation_list_agrees:
  "set MEDIA_OPERATIONS = operation_kind_as_str ` {k. is_node_local_media_dispatch k}"
proof -
  have "{k. is_node_local_media_dispatch k} =
    {ProbeFile, BackUpFile, Remux, TranscodeVideo, TranscodeAudio, ExtractAudio, VerifyArtifact}"
    (is "?K = ?L")
  proof -
    have "k \<in> ?K \<longleftrightarrow> k \<in> ?L" for k by (cases k) simp_all
    then show ?thesis by blast
  qed
  then show ?thesis by (auto simp: MEDIA_OPERATIONS_def)
qed

section \<open>Examples\<close>

definition example_pending :: "nat \<Rightarrow> ticket" where
  "example_pending i = \<lparr> t_id = i, t_job_id = None, t_kind = ''hash_file'', t_state = Pending, t_priority = 0,
     t_payload = JNull, t_result = None, t_attempt = 0, t_max_attempts = 3, t_next_eligible_at = 0,
     t_created_at = 0, t_state_changed_at = 0, t_epoch = 0 \<rparr>"

text \<open>Two pending tickets, the second waiting for the first.\<close>

definition example_tickets_db :: db where
  "example_tickets_db = empty_db\<lparr>tickets := [example_pending 1, example_pending 2],
     ticket_dependencies := [\<lparr> td_ticket_id = 2, td_depends_on_ticket_id = 1 \<rparr>]\<rparr>"

lemma example_tickets_good: "good_db example_tickets_db"
proof -
  have "wf_db example_tickets_db"
    by (simp add: wf_db_def example_tickets_db_def empty_db_def wf_table_def example_pending_def)
  moreover have "abs_exec example_tickets_db = \<lparr>
      x_tickets = [1 \<mapsto> \<lparr> at_state = Pending, at_attempt = 0, at_max = 3 \<rparr>,
        2 \<mapsto> \<lparr> at_state = Pending, at_attempt = 0, at_max = 3 \<rparr>],
      x_leases = Map.empty, x_deps = {(2, 1)} \<rparr>"
    by (auto simp: abs_exec_def example_tickets_db_def empty_db_def example_pending_def table_map_def
        abs_ticket_def dep_edges_def)
  moreover have "acyclic {(2 :: nat, 1 :: nat)}"
    using acyclic_insert [of 2 1 "{} :: (nat \<times> nat) set"] by (simp add: acyclic_def [of "{}"])
  ultimately show ?thesis
    by (auto simp: good_db_def exec_inv_def inv_defs split: if_splits)
qed


theorem mark_ready_promotes_exactly_unblocked_witness:
  "mark_ready_if_unblocked_in_tx 2 9 example_tickets_db = (Inr [], example_tickets_db)"
proof -
  have "ticket_by_id example_tickets_db 2 = Some (example_pending 2)"
    "ticket_by_id example_tickets_db 1 = Some (example_pending 1)" "t_state (example_pending 1) = Pending"
    by (simp_all add: ticket_by_id_def example_tickets_db_def example_pending_def)
  moreover have "(2, 1) \<in> set (dep_edges (ticket_dependencies example_tickets_db))"
    by (simp add: example_tickets_db_def dep_edges_def)
  ultimately show ?thesis
    using mark_ready_promotes_exactly_unblocked [OF example_tickets_good, of 2 "example_pending 2" 9] by auto
qed

end
