(* ===== verification/Workers.thy ===== *)
theory Workers
  imports Tickets
begin

text \<open>
  The worker repository (\<^verbatim>\<open>crates/voom-store/src/repo/execution/workers.rs\<close>): registration,
  incarnation fencing, readiness, retirement, capabilities and grants, and the two predicates the
  lease path depends on: whether a worker may execute an operation
  (\<open>operation_eligibility_in_tx\<close>) and how many leases of it the worker may hold
  (\<open>operation_capacity_in_tx\<close>). With it, the accelerator claims
  (\<^verbatim>\<open>accelerator_claims.rs\<close>) and the node limits (\<^verbatim>\<open>scheduler_node_limits.rs\<close>).

  A row whose ownership columns disagree with its incarnation is refused when it is read, as in
  \<^verbatim>\<open>row_to_worker\<close>. Pruning of retired workers and the joined inspection reads are not
  modelled.
\<close>

section \<open>Reading a worker row\<close>

primrec worker_accepts_new_work :: "worker_kind \<Rightarrow> worker_status \<Rightarrow> bool" where
  "worker_accepts_new_work worker_kind.Remote status = (status = worker_status.Active)"
| "worker_accepts_new_work worker_kind.Local status =
     (status = worker_status.Registered \<or> status = worker_status.Active)"
| "worker_accepts_new_work worker_kind.Synthetic status =
     (status = worker_status.Registered \<or> status = worker_status.Active)"

definition incarnation_by_id :: "db \<Rightarrow> string \<Rightarrow> node_incarnation option" where
  "incarnation_by_id db i = find (\<lambda>n. ni_incarnation_id n = i) (node_incarnations db)"

definition worker_incarnation_projection :: "db \<Rightarrow> worker \<Rightarrow> bool" where
  "worker_incarnation_projection db w =
     (let owner = (case w_node_incarnation_id w of None \<Rightarrow> None
            | Some i \<Rightarrow> map_option ni_node_id (incarnation_by_id db i))
      in case (w_node_incarnation_id w, w_node_id w, owner) of
           (None, _, None) \<Rightarrow> True
         | (Some _, Some node, Some owner) \<Rightarrow> node = owner
         | _ \<Rightarrow> False)"

definition row_to_worker :: "db \<Rightarrow> worker \<Rightarrow> worker res" where
  "row_to_worker db w =
     (if worker_incarnation_projection db w \<and>
         (w_status w = worker_status.Retired) = (w_retired_at w \<noteq> None)
      then Inr w else Inl Database)"

definition worker_get_in_tx :: "nat \<Rightarrow> (db, worker option) tx" where
  "worker_get_in_tx i = bind_i64 i (\<lambda>db. case worker_by_id db i of
      None \<Rightarrow> (Inr None, db)
    | Some w \<Rightarrow> (case row_to_worker db w of Inl e \<Rightarrow> (Inl e, db) | Inr w \<Rightarrow> (Inr (Some w), db)))"

definition worker_get_by_name_in_tx :: "string \<Rightarrow> (db, worker option) tx" where
  "worker_get_by_name_in_tx name db = (case find (\<lambda>w. w_name w = name) (workers db) of
      None \<Rightarrow> (Inr None, db)
    | Some w \<Rightarrow> (case row_to_worker db w of Inl e \<Rightarrow> (Inl e, db) | Inr w \<Rightarrow> (Inr (Some w), db)))"

definition rows_to_workers :: "db \<Rightarrow> worker list \<Rightarrow> worker list res" where
  "rows_to_workers db ws = (if list_all (\<lambda>w. row_to_worker db w = Inr w) ws then Inr ws else Inl Database)"

section \<open>Registration\<close>

record new_worker =
  nw_name :: string
  nw_kind :: worker_kind
  nw_registered_at :: instant
  nw_node_id :: "nat option"

definition new_worker_row :: "db \<Rightarrow> new_worker \<Rightarrow> worker" where
  "new_worker_row db input = \<lparr> w_id = next_rowid w_id (workers db), w_node_id = nw_node_id input,
     w_node_incarnation_id = None, w_name = nw_name input, w_kind = nw_kind input,
     w_status = worker_status.Registered, w_registered_at = nw_registered_at input,
     w_last_seen_at = nw_registered_at input, w_retired_at = None, w_epoch = 0 \<rparr>"

definition node_missing :: "db \<Rightarrow> nat option \<Rightarrow> bool" where
  "node_missing db n = (case n of None \<Rightarrow> False | Some i \<Rightarrow> find (\<lambda>r. n_id r = i) (nodes db) = None)"

definition register_in_tx :: "new_worker \<Rightarrow> (db, worker) tx" where
  "register_in_tx input = bind_i64_option (nw_node_id input) (\<lambda>db.
     if list_ex (\<lambda>w. w_name w = nw_name input) (workers db) \<or> node_missing db (nw_node_id input)
     then (Inl Database, db)
     else let row = new_worker_row db input in (Inr row, db\<lparr>workers := workers db @ [row]\<rparr>))"

definition register_builtin_if_missing_in_tx :: "new_worker \<Rightarrow> (db, worker) tx" where
  "register_builtin_if_missing_in_tx input = bind_i64_option (nw_node_id input) (\<lambda>db.
     if \<not> list_ex (\<lambda>w. w_name w = nw_name input) (workers db) \<and> node_missing db (nw_node_id input)
     then (Inl Database, db)
     else
       let db' = (if list_ex (\<lambda>w. w_name w = nw_name input) (workers db) then db
             else db\<lparr>workers := workers db @ [new_worker_row db input]\<rparr>)
       in bind_tx (worker_get_by_name_in_tx (nw_name input))
            (\<lambda>r. case r of Some w \<Rightarrow> return_tx w | None \<Rightarrow> throw_tx Internal) db')"

section \<open>Incarnations and readiness\<close>

definition bind_incarnation_in_tx :: "nat \<Rightarrow> nat \<Rightarrow> string \<Rightarrow> (db, worker) tx" where
  "bind_incarnation_in_tx worker_id node_id incarnation_id =
     bind_tx (worker_get_in_tx worker_id) (\<lambda>r db.
       case r of
         None \<Rightarrow> (Inl NotFound, db)
       | Some worker \<Rightarrow>
           if w_node_id worker \<noteq> Some node_id then (Inl Conflict, db)
           else if w_node_incarnation_id worker \<noteq> None then (Inl Conflict, db)
           else (case incarnation_by_id db incarnation_id of
               None \<Rightarrow> (Inl NotFound, db)
             | Some inc \<Rightarrow>
                 if ni_node_id inc \<noteq> node_id then (Inl Conflict, db)
                 else if ni_status inc \<noteq> node_incarnation_status.Active then (Inl Conflict, db)
                 else bind_i64 node_id (\<lambda>db.
                   let p = (\<lambda>w. w_id w = worker_id \<and> w_node_id w = Some node_id \<and>
                         w_node_incarnation_id w = None);
                       db' = db\<lparr>workers := update_where p
                         (\<lambda>w. w\<lparr>w_node_incarnation_id := Some incarnation_id\<rparr>) (workers db)\<rparr>
                   in if rows_matching p (workers db) \<noteq> 1 then (Inl Conflict, db')
                      else bind_tx (worker_get_in_tx worker_id)
                        (\<lambda>r. case r of Some w \<Rightarrow> return_tx w | None \<Rightarrow> throw_tx Internal) db') db))"

definition node_owned_worker_in_tx :: "nat \<Rightarrow> nat \<Rightarrow> (db, worker) tx" where
  "node_owned_worker_in_tx worker_id node_id =
     bind_tx (worker_get_in_tx worker_id) (\<lambda>r db.
       case r of
         None \<Rightarrow> (Inl NotFound, db)
       | Some worker \<Rightarrow>
           if w_node_id worker \<noteq> Some node_id then (Inl Conflict, db)
           else if w_status worker = worker_status.Retired then (Inl Conflict, db)
           else (Inr worker, db))"

definition incarnation_owned_worker_in_tx :: "nat \<Rightarrow> nat \<Rightarrow> string \<Rightarrow> (db, worker) tx" where
  "incarnation_owned_worker_in_tx worker_id node_id incarnation_id =
     bind_tx (node_owned_worker_in_tx worker_id node_id) (\<lambda>worker.
       if w_node_incarnation_id worker \<noteq> Some incarnation_id then throw_tx Conflict
       else return_tx worker)"

definition set_remote_readiness_in_tx ::
  "nat \<Rightarrow> nat \<Rightarrow> string \<Rightarrow> worker_readiness \<Rightarrow> (db, worker) tx" where
  "set_remote_readiness_in_tx worker_id node_id incarnation_id readiness =
     bind_tx (incarnation_owned_worker_in_tx worker_id node_id incarnation_id) (\<lambda>worker db.
       if w_kind worker \<noteq> worker_kind.Remote then (Inl Conflict, db)
       else if w_status worker \<notin> {worker_status.Registered, worker_status.Active}
       then (Inl Conflict, db)
       else
         let status = (case readiness of worker_readiness.Ready \<Rightarrow> worker_status.Active
               | NotReady \<Rightarrow> worker_status.Registered);
             p = (\<lambda>w. w_id w = worker_id \<and> w_node_id w = Some node_id \<and>
               w_node_incarnation_id w = Some incarnation_id \<and>
               w_status w \<in> {worker_status.Registered, worker_status.Active});
             db' = db\<lparr>workers := update_where p (\<lambda>w. w\<lparr>w_status := status\<rparr>) (workers db)\<rparr>
         in bind_i64 node_id (\<lambda>_.
              if rows_matching p (workers db) \<noteq> 1 then (Inl Conflict, db')
              else bind_tx (worker_get_in_tx worker_id)
                (\<lambda>r. case r of Some w \<Rightarrow> return_tx w | None \<Rightarrow> throw_tx Internal) db') db)"

section \<open>Retirement\<close>

definition retired_row :: "instant \<Rightarrow> worker \<Rightarrow> worker" where
  "retired_row now w = w\<lparr>w_status := worker_status.Retired, w_retired_at := Some now,
     w_last_seen_at := now, w_epoch := w_epoch w + 1\<rparr>"

definition retire_in_tx :: "nat \<Rightarrow> nat \<Rightarrow> instant \<Rightarrow> (db, worker) tx" where
  "retire_in_tx i expected_epoch now =
     bind_tx (worker_get_in_tx i) (\<lambda>r db.
       case r of
         None \<Rightarrow> (Inl NotFound, db)
       | Some current \<Rightarrow>
           if w_status current = worker_status.Retired then (Inl Conflict, db)
           else if w_epoch current \<noteq> expected_epoch then (Inl Conflict, db)
           else
             let db1 = db\<lparr>accelerator_claims :=
                   filter (\<lambda>c. ac_worker_id c \<noteq> i) (accelerator_claims db)\<rparr>;
                 p = (\<lambda>w. w_id w = i \<and> w_epoch w = expected_epoch \<and> w_status w \<noteq> worker_status.Retired);
                 db2 = db1\<lparr>workers := update_where p (retired_row now) (workers db1)\<rparr>
             in bind_i64 expected_epoch (\<lambda>_.
                  if rows_matching p (workers db1) = 0 then (Inl Conflict, db2)
                  else bind_tx (worker_get_in_tx i)
                    (\<lambda>r. case r of Some w \<Rightarrow> return_tx w | None \<Rightarrow> throw_tx Internal) db2) db1)"

definition worker_retire :: "nat \<Rightarrow> nat \<Rightarrow> instant \<Rightarrow> (db, worker) tx" where
  "worker_retire i expected_epoch now = transact (retire_in_tx i expected_epoch now)"

definition retire_live_for_incarnation_in_tx :: "string \<Rightarrow> instant \<Rightarrow> (db, worker list) tx" where
  "retire_live_for_incarnation_in_tx incarnation_id now db =
     for_tx (\<lambda>i. bind_tx (worker_get_in_tx i) (\<lambda>r.
         case r of None \<Rightarrow> throw_tx Database | Some w \<Rightarrow> retire_in_tx i (w_epoch w) now))
       (sort (map w_id (filter (\<lambda>w. w_node_incarnation_id w = Some incarnation_id \<and>
          w_status w \<noteq> worker_status.Retired) (workers db)))) db"

section \<open>Capabilities and grants\<close>

record new_capability =
  nc_worker_id :: nat
  nc_operation :: ticket_operation
  nc_codecs :: "string list"
  nc_hardware :: "string list"
  nc_artifact_access :: "string list"
  nc_extra :: json

definition record_capability_in_tx :: "new_capability \<Rightarrow> (db, capability) tx" where
  "record_capability_in_tx input = bind_i64 (nc_worker_id input) (\<lambda>db.
     if worker_by_id db (nc_worker_id input) = None then (Inl Database, db)
     else let row = \<lparr> cap_id = next_rowid cap_id (worker_capabilities db),
           cap_worker_id = nc_worker_id input, cap_operation = nc_operation input,
           cap_codecs = nc_codecs input, cap_hardware = nc_hardware input,
           cap_artifact_access = nc_artifact_access input, cap_extra = nc_extra input \<rparr>
       in (Inr row, db\<lparr>worker_capabilities := worker_capabilities db @ [row]\<rparr>))"

record new_grant =
  ng_worker_id :: nat
  ng_can_execute :: "ticket_operation list"
  ng_can_access_read :: "string list"
  ng_can_access_write :: "string list"
  ng_denies :: "ticket_operation list"
  ng_max_parallel :: json

definition record_grant_in_tx :: "new_grant \<Rightarrow> (db, grant) tx" where
  "record_grant_in_tx input = bind_i64 (ng_worker_id input) (\<lambda>db.
     if worker_by_id db (ng_worker_id input) = None then (Inl Database, db)
     else let row = \<lparr> g_id = next_rowid g_id (worker_grants db),
           g_worker_id = ng_worker_id input, g_can_execute = ng_can_execute input,
           g_can_access_read = ng_can_access_read input, g_can_access_write = ng_can_access_write input,
           g_denies = ng_denies input, g_max_parallel = ng_max_parallel input \<rparr>
       in (Inr row, db\<lparr>worker_grants := worker_grants db @ [row]\<rparr>))"

definition worker_register :: "new_worker \<Rightarrow> (db, worker) tx" where
  "worker_register input = transact (register_in_tx input)"

definition record_capability :: "new_capability \<Rightarrow> (db, capability) tx" where
  "record_capability input = transact (record_capability_in_tx input)"

definition record_grant :: "new_grant \<Rightarrow> (db, grant) tx" where
  "record_grant input = transact (record_grant_in_tx input)"

section \<open>Eligibility\<close>

record worker_operation_eligibility =
  el_worker_status :: "worker_status option"
  el_worker_kind :: "worker_kind option"
  el_has_capability :: bool
  el_has_grant :: bool
  el_is_denied :: bool
  el_artifact_access :: "string list"

definition is_eligible :: "worker_operation_eligibility \<Rightarrow> bool" where
  "is_eligible e = (case (el_worker_kind e, el_worker_status e) of
      (Some kind, Some status) \<Rightarrow> worker_accepts_new_work kind status \<and>
        el_has_capability e \<and> el_has_grant e \<and> \<not> el_is_denied e
    | _ \<Rightarrow> False)"

definition capability_rows :: "db \<Rightarrow> nat \<Rightarrow> ticket_operation list \<Rightarrow> capability list" where
  "capability_rows db worker_id operations = filter (\<lambda>c. cap_worker_id c = worker_id \<and>
     cap_operation c \<in> set operations) (worker_capabilities db)"

definition grant_rows :: "db \<Rightarrow> nat \<Rightarrow> grant list" where
  "grant_rows db worker_id = filter (\<lambda>g. g_worker_id g = worker_id) (worker_grants db)"

definition operation_eligibility_in_tx ::
  "nat \<Rightarrow> ticket_operation \<Rightarrow> (db, worker_operation_eligibility) tx" where
  "operation_eligibility_in_tx worker_id operation =
     (let operations = matching_tokens (normalize operation);
          names = (\<lambda>ops. list_ex (\<lambda>item. item \<in> set operations) ops)
      in bind_tx (worker_get_in_tx worker_id) (\<lambda>worker. read_tx (\<lambda>db.
           let caps = capability_rows db worker_id operations;
               grants = grant_rows db worker_id
           in \<lparr> el_worker_status = map_option w_status worker,
                el_worker_kind = map_option w_kind worker,
                el_has_capability = (caps \<noteq> []),
                el_has_grant = list_ex (\<lambda>g. names (g_can_execute g)) grants,
                el_is_denied = list_ex (\<lambda>g. names (g_denies g)) grants,
                el_artifact_access = concat (map cap_artifact_access caps) \<rparr>)))"

definition candidate_token :: "ticket_operation \<Rightarrow> ticket_operation list" where
  "candidate_token operation = take 1 (matching_tokens (normalize operation))"

definition candidate_operations_in_tx :: "nat \<Rightarrow> (db, ticket_operation list) tx" where
  "candidate_operations_in_tx worker_id = bind_i64 worker_id (read_tx (\<lambda>db.
     let declared = map cap_operation (filter (\<lambda>c. cap_worker_id c = worker_id) (worker_capabilities db));
         grants = grant_rows db worker_id;
         operations = concat (map candidate_token (declared @ concat (map g_can_execute grants)));
         denied = concat (map candidate_token (concat (map g_denies grants)))
     in filter (\<lambda>op. op \<notin> set denied) (sort (remdups operations))))"

definition require_live_in_tx :: "nat \<Rightarrow> (db, worker) tx" where
  "require_live_in_tx worker_id = bind_tx (worker_get_in_tx worker_id) (\<lambda>r.
     case r of
       None \<Rightarrow> throw_tx NotFound
     | Some worker \<Rightarrow>
         if worker_accepts_new_work (w_kind worker) (w_status worker) then return_tx worker
         else throw_tx Conflict)"

section \<open>Capacity\<close>

record worker_operation_capacity =
  oc_active_leases :: nat
  oc_max_parallel :: nat

definition has_capacity :: "worker_operation_capacity \<Rightarrow> bool" where
  "has_capacity c = (oc_active_leases c < oc_max_parallel c)"

primrec max_limit :: "nat option \<Rightarrow> nat option \<Rightarrow> nat option" where
  "max_limit None candidate = candidate"
| "max_limit (Some current) candidate = (case candidate of
     None \<Rightarrow> Some current | Some candidate \<Rightarrow> Some (max current candidate))"

definition positive_u32 :: "json option \<Rightarrow> nat option res" where
  "positive_u32 v = (case v of
      None \<Rightarrow> Inr None
    | Some v \<Rightarrow> (case as_u64_json v of
          None \<Rightarrow> Inl Database
        | Some limit \<Rightarrow>
            if limit = 0 then Inl Database
            else if limit < 2 ^ 32 then Inr (Some limit) else Inl Database))"

text \<open>One column of limits: the keys are read in order from one grant, then from the next grant.\<close>

fun limit_loop :: "json option list \<Rightarrow> nat option \<Rightarrow> nat option res" where
  "limit_loop [] acc = Inr acc"
| "limit_loop (v # vs) acc = (case positive_u32 v of
     Inl e \<Rightarrow> Inl e
   | Inr limit \<Rightarrow> limit_loop vs (max_limit acc limit))"

fun grant_limits :: "ticket_operation list \<Rightarrow> json list \<Rightarrow> nat option \<Rightarrow> nat option \<Rightarrow>
    (nat option \<times> nat option) res" where
  "grant_limits aliases [] operation_limit wildcard_limit = Inr (operation_limit, wildcard_limit)"
| "grant_limits aliases (v # vs) operation_limit wildcard_limit =
     (case limit_loop (map (json_get v) aliases) operation_limit of
        Inl e \<Rightarrow> Inl e
      | Inr operation_limit \<Rightarrow>
          (case positive_u32 (json_get v ''*'') of
             Inl e \<Rightarrow> Inl e
           | Inr limit \<Rightarrow> grant_limits aliases vs operation_limit (max_limit wildcard_limit limit)))"

definition max_parallel_in_tx :: "nat \<Rightarrow> ticket_operation \<Rightarrow> (db, nat) tx" where
  "max_parallel_in_tx worker_id operation = bind_i64 worker_id (\<lambda>db.
     case grant_limits (matching_tokens (normalize operation))
            (map g_max_parallel (grant_rows db worker_id)) None None of
       Inl e \<Rightarrow> (Inl e, db)
     | Inr (operation_limit, wildcard_limit) \<Rightarrow>
         (Inr (case operation_limit of Some n \<Rightarrow> n
            | None \<Rightarrow> (case wildcard_limit of Some n \<Rightarrow> n | None \<Rightarrow> 1)), db))"

text \<open>
  The accelerator path: sessions are counted per device, over every worker that advertises the
  device token first in its \<open>hardware\<close> list. \<open>cast_integer\<close> is SQLite's
  \<^verbatim>\<open>CAST(json_extract(...) AS INTEGER)\<close>: text is read up to its longest integer prefix.
\<close>

fun digit_prefix :: "string \<Rightarrow> nat \<Rightarrow> nat" where
  "digit_prefix [] acc = acc"
| "digit_prefix (c # cs) acc =
     (if CHR ''0'' \<le> c \<and> c \<le> CHR ''9''
      then digit_prefix cs (10 * acc + (of_char c - of_char CHR ''0'')) else acc)"

definition text_to_integer :: "string \<Rightarrow> int" where
  "text_to_integer s = (case dropWhile (\<lambda>c. c \<in> set [CHR '' '', CHR 0x09, CHR 0x0A, CHR 0x0B, CHR 0x0C, CHR 0x0D]) s of
      [] \<Rightarrow> 0
    | c # cs \<Rightarrow>
        let m = (2::nat) ^ 63
        in if c = CHR ''-'' then - int (min (digit_prefix cs 0) m)
           else if c = CHR ''+'' then int (min (digit_prefix cs 0) (m - 1))
           else int (min (digit_prefix (c # cs) 0) (m - 1)))"

fun cast_integer :: "json option \<Rightarrow> int option" where
  "cast_integer None = None"
| "cast_integer (Some JNull) = None"
| "cast_integer (Some (JBool b)) = Some (of_bool b)"
| "cast_integer (Some (JInt n)) = Some n"
| "cast_integer (Some (JString s)) = Some (text_to_integer s)"
| "cast_integer (Some (JArray _)) = Some 0"
| "cast_integer (Some (JObject _)) = Some 0"

definition TRANSCODE_VIDEO_TOKENS :: "ticket_operation list" where
  "TRANSCODE_VIDEO_TOKENS = [''transcode_video'', ''synthetic.workflow.operation.transcode_video'']"

definition device_token :: "capability \<Rightarrow> string option" where
  "device_token c = (case cap_hardware c of [] \<Rightarrow> None | h # _ \<Rightarrow> Some h)"

fun min_column :: "int option list \<Rightarrow> int option" where
  "min_column [] = None"
| "min_column (v # vs) = (case (v, min_column vs) of
     (None, m) \<Rightarrow> m | (Some a, None) \<Rightarrow> Some a | (Some a, Some b) \<Rightarrow> Some (min a b))"

definition held_lease_of_kind :: "db \<Rightarrow> lease \<Rightarrow> ticket_operation list \<Rightarrow> bool" where
  "held_lease_of_kind db l kinds = (l_state l = Held \<and>
     list_ex (\<lambda>t. t_id t = l_ticket_id l \<and> t_kind t \<in> set kinds) (tickets db))"

definition device_active_leases :: "db \<Rightarrow> string \<Rightarrow> nat" where
  "device_active_leases db token = rows_matching (\<lambda>l. held_lease_of_kind db l TRANSCODE_VIDEO_TOKENS \<and>
     list_ex (\<lambda>c. cap_worker_id c = l_worker_id l \<and> cap_operation c \<in> set TRANSCODE_VIDEO_TOKENS \<and>
       device_token c = Some token) (worker_capabilities db)) (leases db)"

definition device_session_limit :: "db \<Rightarrow> string \<Rightarrow> int option" where
  "device_session_limit db token = min_column (map
     (\<lambda>c. cast_integer (json_extract (cap_extra c) [''accelerator'', ''max_sessions'']))
     (filter (\<lambda>c. cap_operation c \<in> set TRANSCODE_VIDEO_TOKENS \<and> device_token c = Some token \<and>
        list_ex (\<lambda>w. w_id w = cap_worker_id c \<and> w_status w \<noteq> worker_status.Retired) (workers db))
        (worker_capabilities db)))"

definition accelerator_operation_capacity :: "nat \<Rightarrow> (db, worker_operation_capacity option) tx" where
  "accelerator_operation_capacity worker_id = bind_i64 worker_id (\<lambda>db.
     case find (\<lambda>c. case json_get (cap_extra c) ''accelerator'' of
              Some (JObject _) \<Rightarrow> True | _ \<Rightarrow> False)
            (capability_rows db worker_id TRANSCODE_VIDEO_TOKENS) of
       None \<Rightarrow> (Inr None, db)
     | Some c \<Rightarrow> (case device_token c of
           None \<Rightarrow> (Inl Config, db)
         | Some token \<Rightarrow> (case device_session_limit db token of
               None \<Rightarrow> (Inl Database, db)
             | Some limit \<Rightarrow>
                 bind_tx (lift_res (u32_from_i64 (int (device_active_leases db token)))) (\<lambda>active.
                   bind_tx (lift_res (u32_from_i64 limit)) (\<lambda>max_parallel.
                     return_tx (Some \<lparr> oc_active_leases = active, oc_max_parallel = max_parallel \<rparr>))) db)))"

definition active_lease_kinds :: "ticket_operation \<Rightarrow> ticket_operation list" where
  "active_lease_kinds operation =
     (let normalized = normalize operation; token = matching_token normalized
      in [token, (case normalized of Known _ _ \<Rightarrow> WORKFLOW_OPERATION_NAMESPACE @ token | _ \<Rightarrow> token)])"

definition worker_active_leases :: "db \<Rightarrow> nat \<Rightarrow> ticket_operation \<Rightarrow> nat" where
  "worker_active_leases db worker_id operation = rows_matching (\<lambda>l. l_worker_id l = worker_id \<and>
     held_lease_of_kind db l (active_lease_kinds operation)) (leases db)"

definition granted_capacity :: "nat \<Rightarrow> ticket_operation \<Rightarrow> (db, worker_operation_capacity) tx" where
  "granted_capacity worker_id operation = bind_i64 worker_id (\<lambda>db.
     bind_tx (lift_res (u32_from_i64 (int (worker_active_leases db worker_id operation)))) (\<lambda>active.
       bind_tx (max_parallel_in_tx worker_id (matching_token (normalize operation))) (\<lambda>limit.
         return_tx \<lparr> oc_active_leases = active, oc_max_parallel = limit \<rparr>)) db)"

definition operation_capacity_in_tx ::
  "nat \<Rightarrow> ticket_operation \<Rightarrow> (db, worker_operation_capacity) tx" where
  "operation_capacity_in_tx worker_id operation =
     (if matching_token (normalize operation) = operation_kind_as_str TranscodeVideo
      then bind_tx (accelerator_operation_capacity worker_id) (\<lambda>r.
             case r of Some capacity \<Rightarrow> return_tx capacity
             | None \<Rightarrow> granted_capacity worker_id operation)
      else granted_capacity worker_id operation)"

section \<open>Listings\<close>

definition workers_where :: "(worker \<Rightarrow> bool) \<Rightarrow> (worker list \<Rightarrow> worker list) \<Rightarrow> (db, worker list) tx" where
  "workers_where p limit db =
     lift_res (rows_to_workers db (limit
       (sort_key (\<lambda>w. (w_registered_at w, w_id w)) (filter p (workers db))))) db"

definition in_namespace :: "string \<Rightarrow> string \<Rightarrow> worker \<Rightarrow> bool" where
  "in_namespace legacy_name incarnation_prefix w \<longleftrightarrow>
     w_name w = legacy_name \<or> take (length incarnation_prefix) (w_name w) = incarnation_prefix"

definition list_live_by_name_namespace_in_tx :: "string \<Rightarrow> string \<Rightarrow> (db, worker list) tx" where
  "list_live_by_name_namespace_in_tx legacy_name incarnation_prefix =
     workers_where (\<lambda>w. in_namespace legacy_name incarnation_prefix w \<and>
       w_status w \<in> {worker_status.Registered, worker_status.Active}) id"

definition list_by_name_namespace :: "string \<Rightarrow> string \<Rightarrow> (db, worker list) tx" where
  "list_by_name_namespace legacy_name incarnation_prefix =
     workers_where (in_namespace legacy_name incarnation_prefix) id"

definition worker_list_by_status :: "worker_status \<Rightarrow> nat \<Rightarrow> (db, worker list) tx" where
  "worker_list_by_status status limit = workers_where (\<lambda>w. w_status w = status) (take limit)"

definition worker_list_by_node :: "nat \<Rightarrow> (db, worker list) tx" where
  "worker_list_by_node node_id = bind_i64 node_id (workers_where (\<lambda>w. w_node_id w = Some node_id) id)"

record worker_operation_candidate =
  wc_worker_id :: nat
  wc_active_leases :: nat
  wc_max_parallel :: nat
  wc_hardware :: "string list"
  wc_capability_extra :: "json list"

definition operation_capability_details_in_tx ::
  "nat \<Rightarrow> ticket_operation \<Rightarrow> (db, string list \<times> json list) tx" where
  "operation_capability_details_in_tx worker_id operation = bind_i64 worker_id (read_tx (\<lambda>db.
     let rows = capability_rows db worker_id (matching_tokens (normalize operation))
     in (concat (map cap_hardware rows), map cap_extra rows)))"

definition operation_candidates_in_tx ::
  "ticket_operation \<Rightarrow> (db, worker_operation_candidate list) tx" where
  "operation_candidates_in_tx operation = (\<lambda>db.
     bind_tx (for_tx (\<lambda>i.
         bind_tx (operation_eligibility_in_tx i operation) (\<lambda>eligibility.
           if \<not> is_eligible eligibility then return_tx []
           else bind_tx (operation_capacity_in_tx i operation) (\<lambda>capacity.
             bind_tx (operation_capability_details_in_tx i operation) (\<lambda>(hardware, extra).
               return_tx [\<lparr> wc_worker_id = i, wc_active_leases = oc_active_leases capacity,
                 wc_max_parallel = oc_max_parallel capacity, wc_hardware = hardware,
                 wc_capability_extra = extra \<rparr>]))))
       (sort (map w_id (workers db))))
     (\<lambda>rows. return_tx (concat rows)) db)"

definition operation_capability_history ::
  "ticket_operation \<Rightarrow> (db, (nat \<times> string list \<times> json) list) tx" where
  "operation_capability_history operation = read_tx (\<lambda>db.
     map (\<lambda>c. (cap_worker_id c, cap_hardware c, cap_extra c))
       (filter (\<lambda>c. cap_operation c \<in> set (matching_tokens (normalize operation)))
         (worker_capabilities db)))"

section \<open>Accelerator claims and node limits\<close>

definition accelerator_claim_checks :: "accelerator_claim \<Rightarrow> bool" where
  "accelerator_claim_checks c \<longleftrightarrow>
     list_ex (\<lambda>x. x \<noteq> CHR '' '') (ac_hardware_token c) \<and>
     ac_backend c \<in> {''nvidia'', ''video_toolbox'', ''vaapi''} \<and>
     0 < ac_supervisor_pid c \<and>
     (ac_supervisor_start_identity c = None) = (ac_backend c = ''video_toolbox'') \<and>
     0 < ac_process_group_id c \<and> 1 \<le> ac_capacity c \<and> ac_capacity c \<le> 16"

definition claim_by_token :: "db \<Rightarrow> string \<Rightarrow> accelerator_claim option" where
  "claim_by_token db token = find (\<lambda>c. ac_hardware_token c = token) (accelerator_claims db)"

definition claim_in_tx :: "accelerator_claim \<Rightarrow> (db, accelerator_claim) tx" where
  "claim_in_tx input = bind_i64 (ac_worker_id input) (\<lambda>db.
     if accelerator_claim_checks input \<and>
        claim_by_token db (ac_hardware_token input) = None \<and>
        \<not> list_ex (\<lambda>c. ac_worker_id c = ac_worker_id input) (accelerator_claims db) \<and>
        worker_by_id db (ac_worker_id input) \<noteq> None
     then (Inr input, db\<lparr>accelerator_claims := accelerator_claims db @ [input]\<rparr>)
     else if claim_by_token db (ac_hardware_token input) \<noteq> None then (Inl Conflict, db)
     else (Inl Database, db))"

definition accelerator_claim_get :: "string \<Rightarrow> (db, accelerator_claim option) tx" where
  "accelerator_claim_get token = read_tx (\<lambda>db. claim_by_token db token)"

definition node_limit_in_tx :: "nat \<Rightarrow> (db, nat) tx" where
  "node_limit_in_tx node_id = bind_i64 node_id (\<lambda>db.
     case find (\<lambda>r. nl_node_id r = node_id) (scheduler_node_limits db) of
       None \<Rightarrow> (Inr 1, db)
     | Some r \<Rightarrow> lift_res (u32_from_i64 (int (nl_max_parallel_leases r))) db)"

definition set_node_limit :: "nat \<Rightarrow> nat \<Rightarrow> instant \<Rightarrow> (db, scheduler_node_limit) tx" where
  "set_node_limit node_id max_parallel_leases now =
     (if max_parallel_leases = 0 then throw_tx Config
      else bind_i64 node_id (\<lambda>db.
        let p = (\<lambda>r. nl_node_id r = node_id);
            set_limit = (\<lambda>r. r\<lparr>nl_max_parallel_leases := max_parallel_leases, nl_updated_at := now\<rparr>);
            row = \<lparr> nl_node_id = node_id, nl_max_parallel_leases = max_parallel_leases,
              nl_created_at = now, nl_updated_at = now \<rparr>
        in case find p (scheduler_node_limits db) of
             Some r \<Rightarrow> (Inr (set_limit r), db\<lparr>scheduler_node_limits :=
               update_where p set_limit (scheduler_node_limits db)\<rparr>)
           | None \<Rightarrow>
               if find (\<lambda>n. n_id n = node_id) (nodes db) = None then (Inl Database, db)
               else (Inr row, db\<lparr>scheduler_node_limits := scheduler_node_limits db @ [row]\<rparr>)))"

section \<open>What the operations keep\<close>

text \<open>Reads leave the store alone.\<close>

lemma worker_get_state [simp]: "snd (worker_get_in_tx i db) = db"
  by (simp add: worker_get_in_tx_def bind_i64_apply split: option.split sum.split)

lemma worker_get_Inr:
  "worker_get_in_tx i db = (Inr r, db') \<longleftrightarrow>
     i < 2 ^ 63 \<and> db' = db \<and> r = worker_by_id db i \<and>
     (\<forall>w. worker_by_id db i = Some w \<longrightarrow> row_to_worker db w = Inr w)"
  by (auto simp: worker_get_in_tx_def bind_i64_Inr row_to_worker_def split: option.splits sum.splits if_splits)

lemma eligibility_Inr:
  "operation_eligibility_in_tx i op db = (Inr e, db') \<Longrightarrow>
     db' = db \<and> el_worker_status e = map_option w_status (worker_by_id db i) \<and>
     el_worker_kind e = map_option w_kind (worker_by_id db i)"
  by (auto simp: operation_eligibility_in_tx_def bind_tx_Inr worker_get_Inr Let_def)

lemma max_parallel_Inr:
  "max_parallel_in_tx i op db = (Inr n, db') \<Longrightarrow> db' = db"
  by (auto simp: max_parallel_in_tx_def bind_i64_Inr split: sum.splits)

lemma accelerator_capacity_Inr:
  "accelerator_operation_capacity i db = (Inr r, db') \<Longrightarrow> db' = db"
  by (auto simp: accelerator_operation_capacity_def bind_i64_Inr bind_tx_Inr split: option.splits)

lemma granted_capacity_Inr: "granted_capacity i op db = (Inr c, db') \<Longrightarrow> db' = db"
  by (auto simp: granted_capacity_def bind_i64_Inr bind_tx_Inr dest!: max_parallel_Inr)

lemma capacity_Inr:
  "operation_capacity_in_tx i op db = (Inr c, db') \<Longrightarrow> db' = db"
  by (auto simp: operation_capacity_in_tx_def bind_tx_Inr
      dest!: granted_capacity_Inr accelerator_capacity_Inr split: if_splits option.splits)

text \<open>The tables of this repository are invisible to the specification of ticket execution.\<close>

lemma abs_exec_workers [simp]:
  "abs_exec (db\<lparr>workers := a\<rparr>) = abs_exec db"
  "abs_exec (db\<lparr>worker_capabilities := b\<rparr>) = abs_exec db"
  "abs_exec (db\<lparr>worker_grants := c\<rparr>) = abs_exec db"
  "abs_exec (db\<lparr>accelerator_claims := d\<rparr>) = abs_exec db"
  "abs_exec (db\<lparr>scheduler_node_limits := e\<rparr>) = abs_exec db"
  by (simp_all add: abs_exec_def dep_edges_def)

lemma wf_db_workers:
  "wf_table w_id ws \<Longrightarrow> wf_db db \<Longrightarrow> wf_db (db\<lparr>workers := ws\<rparr>)"
  "wf_db (db\<lparr>worker_capabilities := b\<rparr>) = wf_db db"
  "wf_db (db\<lparr>worker_grants := c\<rparr>) = wf_db db"
  "wf_db (db\<lparr>accelerator_claims := d\<rparr>) = wf_db db"
  "wf_db (db\<lparr>scheduler_node_limits := e\<rparr>) = wf_db db"
  by (simp_all add: wf_db_def)

text \<open>
  What every worker operation does to the store: it keeps the tables of jobs, tickets, dependencies
  and leases, the ids, names and kinds of workers are permanent, a retired worker never changes
  again, and epochs do not decrease.
\<close>

definition worker_kept :: "worker \<Rightarrow> worker \<Rightarrow> bool" where
  "worker_kept w w' \<longleftrightarrow> w_id w' = w_id w \<and> w_name w' = w_name w \<and> w_kind w' = w_kind w \<and>
     w_node_id w' = w_node_id w \<and> w_epoch w \<le> w_epoch w' \<and>
     (w_status w = worker_status.Retired \<longrightarrow> w_status w' = worker_status.Retired \<and> w_epoch w' = w_epoch w)"

definition workers_evolve :: "db \<Rightarrow> db \<Rightarrow> bool" where
  "workers_evolve db db' \<longleftrightarrow> (\<forall>w \<in> set (workers db). \<exists>w' \<in> set (workers db'). worker_kept w w')"

lemma worker_kept_refl [simp]: "worker_kept w w"
  by (simp add: worker_kept_def)

lemma worker_kept_trans: "worker_kept a b \<Longrightarrow> worker_kept b c \<Longrightarrow> worker_kept a c"
  by (auto simp: worker_kept_def)

lemma workers_evolve_refl: "workers_evolve db db"
  unfolding workers_evolve_def by (blast intro: worker_kept_refl)

lemma workers_evolve_same: "workers db' = workers db @ ws \<Longrightarrow> workers_evolve db db'"
  by (auto simp: workers_evolve_def intro!: bexI worker_kept_refl)

lemma workers_evolve_trans: "workers_evolve a b \<Longrightarrow> workers_evolve b c \<Longrightarrow> workers_evolve a c"
  unfolding workers_evolve_def using worker_kept_trans by blast

lemma workers_evolve_update:
  assumes "\<And>w. p w \<Longrightarrow> worker_kept w (f w)" and "workers db' = update_where p f (workers db)"
  shows "workers_evolve db db'"
  unfolding workers_evolve_def
proof
  fix w assume "w \<in> set (workers db)"
  then have "(if p w then f w else w) \<in> set (workers db')"
    unfolding assms(2) update_where_def by auto
  then show "\<exists>w' \<in> set (workers db'). worker_kept w w'"
    using assms(1) worker_kept_refl by (cases "p w") (auto intro!: bexI)
qed

text \<open>The invariant of the repository: names are unique, every stored row decodes, and claims are exclusive.\<close>

definition worker_inv :: "db \<Rightarrow> bool" where
  "worker_inv db \<longleftrightarrow> wf_table w_id (workers db) \<and> distinct (map w_name (workers db)) \<and>
     (\<forall>w \<in> set (workers db). row_to_worker db w = Inr w) \<and>
     distinct (map ac_hardware_token (accelerator_claims db)) \<and>
     distinct (map ac_worker_id (accelerator_claims db)) \<and>
     (\<forall>c \<in> set (accelerator_claims db). accelerator_claim_checks c)"

definition worker_step :: "db \<Rightarrow> db \<Rightarrow> bool" where
  "worker_step db db' \<longleftrightarrow> node_incarnations db' = node_incarnations db \<and>
     (worker_inv db \<longrightarrow> worker_inv db' \<and> workers_evolve db db') \<and> refines db db'"

lemma row_to_worker_cong:
  assumes "node_incarnations db' = node_incarnations db"
  shows "row_to_worker db' w = row_to_worker db w"
proof -
  have "incarnation_by_id db' = incarnation_by_id db"
    by (rule ext) (simp add: incarnation_by_id_def assms)
  then show ?thesis unfolding row_to_worker_def worker_incarnation_projection_def by (simp only:)
qed

lemma row_to_worker_iff:
  "row_to_worker db w = Inr w' \<longleftrightarrow> w' = w \<and> worker_incarnation_projection db w \<and>
     (w_status w = worker_status.Retired) = (w_retired_at w \<noteq> None)"
  by (auto simp: row_to_worker_def)

lemma worker_step_refl [simp]: "worker_step db db"
  by (simp add: worker_step_def workers_evolve_refl)

lemma worker_step_trans: "worker_step a b \<Longrightarrow> worker_step b c \<Longrightarrow> worker_step a c"
  unfolding worker_step_def using workers_evolve_trans refines_trans by metis

text \<open>Updating worker rows without touching identity, through a statement that keeps rows decodable.\<close>

lemma worker_step_update:
  assumes "\<And>w. p w \<Longrightarrow> worker_kept w (f w)"
    and "\<And>w. w \<in> set (workers db) \<Longrightarrow> p w \<Longrightarrow> row_to_worker db w = Inr w \<Longrightarrow> row_to_worker db (f w) = Inr (f w)"
  shows "worker_step db (db\<lparr>workers := update_where p f (workers db)\<rparr>)"
proof -
  let ?db = "db\<lparr>workers := update_where p f (workers db)\<rparr>"
  have "map w_id (update_where p f (workers db)) = map w_id (workers db)"
    and names: "map w_name (update_where p f (workers db)) = map w_name (workers db)"
    using assms(1) by (simp_all add: update_where_def worker_kept_def)
  then have wf: "wf_table w_id (workers db) \<Longrightarrow> wf_table w_id (update_where p f (workers db))"
    by (simp add: wf_table_def)
  have "row_to_worker ?db w = Inr w" if "worker_inv db" "w \<in> set (workers ?db)" for w
    using that assms(2) by (auto simp: worker_inv_def sql_simps row_to_worker_cong [of ?db db])
  then have "worker_inv db \<Longrightarrow> worker_inv ?db"
    using wf names by (simp add: worker_inv_def)
  moreover have "workers_evolve db ?db" by (rule workers_evolve_update [OF assms(1)]) simp_all
  moreover have "refines db ?db"
    by (rule refines_same) (auto intro: wf_db_workers wf dest: wf_db_tables)
  ultimately show ?thesis by (simp add: worker_step_def)
qed

lemma register_row_ok: "row_to_worker db (new_worker_row db' input) = Inr (new_worker_row db' input)"
  by (simp add: row_to_worker_def new_worker_row_def worker_incarnation_projection_def)

lemma worker_step_insert:
  assumes "\<not> list_ex (\<lambda>w. w_name w = nw_name input) (workers db)"
  shows "worker_step db (db\<lparr>workers := workers db @ [new_worker_row db input]\<rparr>)"
proof -
  let ?db = "db\<lparr>workers := workers db @ [new_worker_row db input]\<rparr>"
  have wf: "wf_table w_id (workers db) \<Longrightarrow> wf_table w_id (workers db @ [new_worker_row db input])"
    by (rule wf_table_insert) (simp_all add: new_worker_row_def)
  then have "refines db ?db"
    by (intro refines_same) (auto intro: wf_db_workers dest: wf_db_tables)
  moreover have "worker_inv ?db" if "worker_inv db"
    using that wf assms register_row_ok row_to_worker_cong [of ?db db]
    by (auto simp: worker_inv_def list_ex_iff new_worker_row_def)
  moreover have "workers_evolve db ?db"
    by (rule workers_evolve_same) simp
  ultimately show ?thesis by (simp add: worker_step_def)
qed

lemma register_step: "register_in_tx input db = (Inr w, db') \<Longrightarrow> worker_step db db'"
  by (cases "list_ex (\<lambda>w. w_name w = nw_name input) (workers db)")
    (auto simp: register_in_tx_def Let_def split: if_splits intro: worker_step_insert
      dest!: bind_i64_option_Inr)

lemma get_by_name_Inr: "worker_get_by_name_in_tx n db = (Inr r, db') \<Longrightarrow> db' = db"
  by (auto simp: worker_get_by_name_in_tx_def split: option.splits sum.splits)

lemma register_builtin_step:
  "register_builtin_if_missing_in_tx input db = (Inr w, db') \<Longrightarrow> worker_step db db'"
  by (cases "list_ex (\<lambda>w. w_name w = nw_name input) (workers db)")
    (auto simp: register_builtin_if_missing_in_tx_def Let_def bind_tx_Inr worker_step_insert
      dest!: bind_i64_option_Inr get_by_name_Inr split: if_splits option.splits)

lemma bind_incarnation_step:
  assumes "bind_incarnation_in_tx i n inc db = (Inr w, db')"
  shows "worker_step db db'"
proof -
  let ?p = "\<lambda>w. w_id w = i \<and> w_node_id w = Some n \<and> w_node_incarnation_id w = None"
  from assms obtain r where r: "incarnation_by_id db inc = Some r" "ni_node_id r = n"
    and db': "db' = db\<lparr>workers := update_where ?p (\<lambda>w. w\<lparr>w_node_incarnation_id := Some inc\<rparr>) (workers db)\<rparr>"
    by (auto simp: bind_incarnation_in_tx_def bind_tx_Inr worker_get_Inr bind_i64_Inr Let_def
        split: option.splits if_splits)
  show ?thesis unfolding db'
    by (rule worker_step_update)
      (use r in \<open>auto simp: worker_kept_def row_to_worker_iff worker_incarnation_projection_def\<close>)
qed

lemma incarnation_owned_Inr:
  "incarnation_owned_worker_in_tx i n inc db = (Inr w, db') \<longleftrightarrow>
     db' = db \<and> i < 2 ^ 63 \<and> worker_by_id db i = Some w \<and> row_to_worker db w = Inr w \<and>
     w_node_id w = Some n \<and> w_status w \<noteq> worker_status.Retired \<and> w_node_incarnation_id w = Some inc"
  by (auto simp: incarnation_owned_worker_in_tx_def node_owned_worker_in_tx_def bind_tx_Inr
      worker_get_Inr split: option.splits if_splits)

lemma set_readiness_step:
  assumes "set_remote_readiness_in_tx i n inc readiness db = (Inr w, db')"
  shows "worker_step db db'"
proof -
  let ?p = "\<lambda>w. w_id w = i \<and> w_node_id w = Some n \<and> w_node_incarnation_id w = Some inc \<and>
     w_status w \<in> {worker_status.Registered, worker_status.Active}"
  let ?st = "case readiness of worker_readiness.Ready \<Rightarrow> worker_status.Active
     | NotReady \<Rightarrow> worker_status.Registered"
  from assms have db': "db' = db\<lparr>workers := update_where ?p (\<lambda>w. w\<lparr>w_status := ?st\<rparr>) (workers db)\<rparr>"
    by (auto simp: set_remote_readiness_in_tx_def bind_tx_Inr incarnation_owned_Inr worker_get_Inr
        bind_i64_Inr Let_def split: option.splits if_splits)
  show ?thesis unfolding db'
    by (rule worker_step_update)
      (auto simp: worker_kept_def row_to_worker_iff worker_incarnation_projection_def
        split: worker_readiness.splits)
qed

lemma claims_filter_step:
  "worker_step db (db\<lparr>accelerator_claims := filter q (accelerator_claims db)\<rparr>)"
  using row_to_worker_cong [of "db\<lparr>accelerator_claims := filter q (accelerator_claims db)\<rparr>" db]
  by (auto simp: worker_step_def worker_inv_def workers_evolve_same distinct_map_filter wf_db_workers
      intro!: refines_same)

lemma retire_Inr:
  assumes "retire_in_tx i e now db = (Inr w', db')"
  obtains w where "i < 2 ^ 63" "worker_by_id db i = Some w" "row_to_worker db w = Inr w"
    "w_status w \<noteq> worker_status.Retired" "w_epoch w = e" "e < 2 ^ 63"
    "db' = db\<lparr>accelerator_claims := filter (\<lambda>c. ac_worker_id c \<noteq> i) (accelerator_claims db),
       workers := update_where (\<lambda>w. w_id w = i \<and> w_epoch w = e \<and> w_status w \<noteq> worker_status.Retired)
         (retired_row now) (workers db)\<rparr>"
    "worker_by_id db' i = Some w'"
  using assms
  by (auto simp: retire_in_tx_def bind_tx_Inr worker_get_Inr bind_i64_Inr Let_def
      split: option.splits if_splits)

lemma retire_step:
  assumes "retire_in_tx i e now db = (Inr w', db')"
  shows "worker_step db db'"
proof -
  let ?p = "\<lambda>w. w_id w = i \<and> w_epoch w = e \<and> w_status w \<noteq> worker_status.Retired"
  let ?db = "db\<lparr>accelerator_claims := filter (\<lambda>c. ac_worker_id c \<noteq> i) (accelerator_claims db)\<rparr>"
  from assms have db': "db' = ?db\<lparr>workers := update_where ?p (retired_row now) (workers ?db)\<rparr>"
    by (elim retire_Inr) simp
  have "worker_step ?db db'" unfolding db'
    by (rule worker_step_update)
      (auto simp: worker_kept_def row_to_worker_iff worker_incarnation_projection_def retired_row_def)
  then show ?thesis using claims_filter_step worker_step_trans by blast
qed

lemma retire_live_step:
  "retire_live_for_incarnation_in_tx inc now db = (Inr ws, db') \<Longrightarrow> worker_step db db'"
  unfolding retire_live_for_incarnation_in_tx_def
  by (erule for_tx_rel [where R = worker_step])
    (auto simp: bind_tx_Inr worker_get_Inr intro: worker_step_trans dest: retire_step split: option.splits)

lemma worker_step_other:
  "worker_step db (db\<lparr>worker_capabilities := b\<rparr>)"
  "worker_step db (db\<lparr>worker_grants := c\<rparr>)"
  "worker_step db (db\<lparr>scheduler_node_limits := d\<rparr>)"
  using row_to_worker_cong [of "db\<lparr>worker_capabilities := b\<rparr>" db]
    row_to_worker_cong [of "db\<lparr>worker_grants := c\<rparr>" db]
    row_to_worker_cong [of "db\<lparr>scheduler_node_limits := d\<rparr>" db]
  by (auto simp: worker_step_def worker_inv_def workers_evolve_same wf_db_workers
      intro!: refines_same)

lemma record_capability_step: "record_capability_in_tx input db = (Inr r, db') \<Longrightarrow> worker_step db db'"
  by (auto simp: record_capability_in_tx_def bind_i64_Inr Let_def worker_step_other split: if_splits)

lemma record_grant_step: "record_grant_in_tx input db = (Inr r, db') \<Longrightarrow> worker_step db db'"
  by (auto simp: record_grant_in_tx_def bind_i64_Inr Let_def worker_step_other split: if_splits)

lemma set_node_limit_step: "set_node_limit n m now db = (Inr r, db') \<Longrightarrow> worker_step db db'"
  by (auto simp: set_node_limit_def bind_i64_Inr Let_def worker_step_other split: if_splits option.splits)

lemma claim_step:
  assumes "claim_in_tx input db = (Inr r, db')"
  shows "worker_step db db'"
proof -
  have db': "db' = db\<lparr>accelerator_claims := accelerator_claims db @ [input]\<rparr>"
    and "accelerator_claim_checks input"
    "\<forall>c \<in> set (accelerator_claims db). ac_hardware_token c \<noteq> ac_hardware_token input \<and>
       ac_worker_id c \<noteq> ac_worker_id input"
    using assms by (auto simp: claim_in_tx_def bind_i64_Inr claim_by_token_def find_None_iff list_ex_iff
        split: if_splits)
  then show ?thesis using row_to_worker_cong [of db' db]
    by (auto simp: worker_step_def worker_inv_def workers_evolve_same wf_db_workers
      intro!: refines_same)
qed

section \<open>Operation names\<close>

text \<open>The first matching token is canonical: two operations match exactly when they share it.\<close>

lemma namespaced_neq_bare [simp]:
  "WORKFLOW_OPERATION_NAMESPACE @ operation_kind_as_str a \<noteq> operation_kind_as_str b"
  by (metis normalize_bare normalize_namespaced normalized_ticket_operation.inject(1))

lemma bare_neq_namespaced [simp]:
  "operation_kind_as_str b \<noteq> WORKFLOW_OPERATION_NAMESPACE @ operation_kind_as_str a"
  using namespaced_neq_bare by metis

lemma in_candidate_token: "t \<in> set (candidate_token op) \<longleftrightarrow> candidate_token op = [t]"
  by (cases "normalize op") (auto simp: candidate_token_def)

lemma matching_iff_candidate_token:
  assumes "\<And>t. normalize op \<noteq> UnknownNamespaced t"
  shows "item \<in> set (matching_tokens (normalize op)) \<longleftrightarrow> candidate_token item = candidate_token op"
proof (cases "normalize op")
  case (Known k n)
  show ?thesis
    by (cases "normalize item")
      (auto simp: Known candidate_token_def normalize_Known_iff operation_kind.as_str_eq_iff
        dest: normalize_CustomLocal split: if_splits)
next
  case (CustomLocal t)
  then have op: "normalize op = CustomLocal op" using normalize_CustomLocal by simp
  have "item = op" if "normalize item = CustomLocal op" using normalize_CustomLocal [OF that] by simp
  then show ?thesis using op
    by (cases "normalize item") (auto simp: candidate_token_def dest: normalize_CustomLocal)
next
  case (UnknownNamespaced t)
  then show ?thesis using assms by simp
qed

lemma eligible_iff:
  assumes "operation_eligibility_in_tx i op db = (Inr e, db')"
  shows "is_eligible e \<longleftrightarrow>
    (\<exists>w. worker_by_id db i = Some w \<and> worker_accepts_new_work (w_kind w) (w_status w)) \<and>
    (\<exists>c \<in> set (worker_capabilities db). cap_worker_id c = i \<and>
       cap_operation c \<in> set (matching_tokens (normalize op))) \<and>
    (\<exists>g \<in> set (worker_grants db). g_worker_id g = i \<and>
       (\<exists>x \<in> set (g_can_execute g). x \<in> set (matching_tokens (normalize op)))) \<and>
    \<not> (\<exists>g \<in> set (worker_grants db). g_worker_id g = i \<and>
       (\<exists>x \<in> set (g_denies g). x \<in> set (matching_tokens (normalize op))))"
  using assms
  by (auto simp: operation_eligibility_in_tx_def bind_tx_Inr worker_get_Inr Let_def is_eligible_def
      capability_rows_def grant_rows_def list_ex_iff filter_empty_conv split: option.splits)

lemma candidate_operations_Inr:
  assumes "candidate_operations_in_tx i db = (Inr ops, db')"
  shows "t \<in> set ops \<longleftrightarrow>
    ((\<exists>c \<in> set (worker_capabilities db). cap_worker_id c = i \<and> t \<in> set (candidate_token (cap_operation c))) \<or>
     (\<exists>g \<in> set (worker_grants db). g_worker_id g = i \<and>
        (\<exists>x \<in> set (g_can_execute g). t \<in> set (candidate_token x)))) \<and>
    \<not> (\<exists>g \<in> set (worker_grants db). g_worker_id g = i \<and>
        (\<exists>x \<in> set (g_denies g). t \<in> set (candidate_token x)))"
proof -
  have "ops = (let declared = map cap_operation (filter (\<lambda>c. cap_worker_id c = i) (worker_capabilities db));
         grants = grant_rows db i;
         operations = concat (map candidate_token (declared @ concat (map g_can_execute grants)));
         denied = concat (map candidate_token (concat (map g_denies grants)))
     in filter (\<lambda>op. op \<notin> set denied) (sort (remdups operations)))"
    using assms by (simp add: candidate_operations_in_tx_def bind_i64_Inr)
  then show ?thesis by (simp only: Let_def grant_rows_def) (simp add: bex_Un, blast)
qed

text \<open>
  A worker that is eligible for an operation finds it among its candidate operations: the
  canonical token of the operation is in the result of \<open>candidate_operations_in_tx\<close>, whichever
  encoding the capability, the grant, and the request use.
\<close>

theorem eligible_operation_is_candidate:
  assumes "operation_eligibility_in_tx i op db = (Inr e, db')" and "is_eligible e"
    and "candidate_operations_in_tx i db = (Inr ops, db'')"
  shows "matching_token (normalize op) \<in> set ops"
proof -
  note el = assms(2) [unfolded eligible_iff [OF assms(1)]]
  from el obtain c where c: "c \<in> set (worker_capabilities db)" "cap_worker_id c = i"
    "cap_operation c \<in> set (matching_tokens (normalize op))" by blast
  then have known: "normalize op \<noteq> UnknownNamespaced t" for t by auto
  then have token: "candidate_token op = [matching_token (normalize op)]"
    by (cases "normalize op") (auto simp: candidate_token_def)
  note m = matching_iff_candidate_token [OF known]
  have "\<not> (\<exists>g \<in> set (worker_grants db). g_worker_id g = i \<and>
       (\<exists>x \<in> set (g_denies g). matching_token (normalize op) \<in> set (candidate_token x)))"
    using el m token
    by (simp add: in_candidate_token)
  moreover have "matching_token (normalize op) \<in> set (candidate_token (cap_operation c))"
    using c(3) m token by (simp add: in_candidate_token)
  ultimately show ?thesis unfolding candidate_operations_Inr [OF assms(3)] using c(1,2) by blast
qed

text \<open>
  Eligibility, capacity and capability details of a worker do not depend on the encoding of a
  known operation: the bare token and the token in the workflow namespace give the same results.
\<close>

theorem operation_encoding_irrelevant:
  "operation_eligibility_in_tx i (WORKFLOW_OPERATION_NAMESPACE @ operation_kind_as_str k) =
     operation_eligibility_in_tx i (operation_kind_as_str k) \<and>
   operation_capacity_in_tx i (WORKFLOW_OPERATION_NAMESPACE @ operation_kind_as_str k) =
     operation_capacity_in_tx i (operation_kind_as_str k) \<and>
   operation_candidates_in_tx (WORKFLOW_OPERATION_NAMESPACE @ operation_kind_as_str k) =
     operation_candidates_in_tx (operation_kind_as_str k)"
proof -
  have el: "operation_eligibility_in_tx j (WORKFLOW_OPERATION_NAMESPACE @ operation_kind_as_str k) =
     operation_eligibility_in_tx j (operation_kind_as_str k)" for j
    by (simp add: operation_eligibility_in_tx_def)
  have "worker_active_leases db j (WORKFLOW_OPERATION_NAMESPACE @ operation_kind_as_str k) =
     worker_active_leases db j (operation_kind_as_str k)" for db j
    by (simp add: worker_active_leases_def active_lease_kinds_def)
  then have "granted_capacity j (WORKFLOW_OPERATION_NAMESPACE @ operation_kind_as_str k) =
     granted_capacity j (operation_kind_as_str k)" for j
    by (simp add: granted_capacity_def)
  then have cap: "operation_capacity_in_tx j (WORKFLOW_OPERATION_NAMESPACE @ operation_kind_as_str k) =
     operation_capacity_in_tx j (operation_kind_as_str k)" for j
    unfolding operation_capacity_in_tx_def normalize_bare normalize_namespaced matching_token.simps
    by (simp only:)
  have det: "operation_capability_details_in_tx j (WORKFLOW_OPERATION_NAMESPACE @ operation_kind_as_str k) =
     operation_capability_details_in_tx j (operation_kind_as_str k)" for j
    by (simp add: operation_capability_details_in_tx_def)
  show ?thesis unfolding operation_candidates_in_tx_def el cap det by simp
qed

section \<open>Limits\<close>

text \<open>The limits a list of grant documents states for any of some keys.\<close>

definition stated_limits :: "string list \<Rightarrow> json list \<Rightarrow> nat set" where
  "stated_limits keys vs =
     {n. \<exists>v \<in> set vs. \<exists>k \<in> set keys. \<exists>x. json_get v k = Some x \<and> as_u64_json x = Some n}"

definition opt_max :: "nat option \<Rightarrow> nat set \<Rightarrow> nat option \<Rightarrow> bool" where
  "opt_max a S r \<longleftrightarrow> finite S \<and> (let T = S \<union> set_option a in r = (if T = {} then None else Some (Max T)))"

lemma positive_u32_Inr:
  "positive_u32 v = Inr r \<longleftrightarrow> (v = None \<and> r = None) \<or>
     (\<exists>x n. v = Some x \<and> as_u64_json x = Some n \<and> 0 < n \<and> n < 2 ^ 32 \<and> r = Some n)"
  by (auto simp: positive_u32_def split: option.splits if_splits)

lemma opt_max_step:
  assumes "opt_max (max_limit a l) S r"
  shows "opt_max a (set_option l \<union> S) r"
proof (cases a)
  case None
  with assms show ?thesis by (simp add: opt_max_def Let_def Un_commute Un_left_commute)
next
  case (Some m)
  show ?thesis
  proof (cases l)
    case None
    with assms Some show ?thesis by (simp add: opt_max_def)
  next
    case (Some n)
    have "Max (insert m (insert n S)) = Max (insert (max m n) S)" if "finite S"
      using that by (cases "S = {}") (simp_all add: max.assoc)
    with assms Some \<open>a = Some m\<close> show ?thesis by (auto simp: opt_max_def Let_def)
  qed
qed

lemma limit_loop_Inr:
  "limit_loop vs a = Inr r \<Longrightarrow>
     opt_max a {n. \<exists>x. Some x \<in> set vs \<and> as_u64_json x = Some n} r \<and>
     (\<forall>n \<in> {n. \<exists>x. Some x \<in> set vs \<and> as_u64_json x = Some n}. 0 < n \<and> n < 2 ^ 32)"
proof (induction vs arbitrary: a)
  case Nil
  then show ?case by (auto simp: opt_max_def split: option.split)
next
  case (Cons v vs)
  from Cons.prems obtain l where l: "positive_u32 v = Inr l" "limit_loop vs (max_limit a l) = Inr r"
    by (auto split: sum.splits)
  have "{n. \<exists>x. Some x \<in> set (v # vs) \<and> as_u64_json x = Some n} =
     set_option l \<union> {n. \<exists>x. Some x \<in> set vs \<and> as_u64_json x = Some n}"
    using l(1) by (auto simp: positive_u32_Inr)
  then show ?case
    using Cons.IH [OF l(2)] opt_max_step l(1) by (auto simp: positive_u32_Inr)
qed

lemma opt_max_trans:
  assumes "opt_max a S r" "opt_max r T q"
  shows "opt_max a (S \<union> T) q"
proof -
  have fin: "finite (S \<union> set_option a)" "finite T" using assms by (auto simp: opt_max_def)
  show ?thesis
  proof (cases "S \<union> set_option a = {}")
    case True
    with assms show ?thesis by (auto simp: opt_max_def Let_def)
  next
    case False
    then have r: "r = Some (Max (S \<union> set_option a))" using assms(1) by (simp add: opt_max_def Let_def)
    have "Max (insert (Max (S \<union> set_option a)) T) = Max (S \<union> set_option a \<union> T)"
      using fin False by (cases "T = {}") (simp_all add: Max_Un)
    with assms False r show ?thesis by (auto simp: opt_max_def Let_def Un_ac)
  qed
qed

lemma stated_limits_Cons:
  "stated_limits keys (v # vs) =
     {n. \<exists>x. Some x \<in> set (map (json_get v) keys) \<and> as_u64_json x = Some n} \<union> stated_limits keys vs"
  by (auto simp: stated_limits_def image_iff) metis

lemma grant_limits_Inr:
  "grant_limits aliases vs a b = Inr (r, q) \<Longrightarrow>
     opt_max a (stated_limits aliases vs) r \<and> opt_max b (stated_limits [''*''] vs) q \<and>
     (\<forall>n \<in> stated_limits (''*'' # aliases) vs. 0 < n \<and> n < 2 ^ 32)"
proof (induction vs arbitrary: a b)
  case Nil
  then show ?case by (auto simp: opt_max_def stated_limits_def split: option.split)
next
  case (Cons v vs)
  from Cons.prems obtain a' l where
    a': "limit_loop (map (json_get v) aliases) a = Inr a'"
    and l: "positive_u32 (json_get v ''*'') = Inr l"
    and rest: "grant_limits aliases vs a' (max_limit b l) = Inr (r, q)"
    by (auto split: sum.splits)
  from l have loop: "limit_loop (map (json_get v) [''*'']) b = Inr (max_limit b l)" by simp
  note ih = Cons.IH [OF rest] and h1 = limit_loop_Inr [OF a'] and h2 = limit_loop_Inr [OF loop]
  have "stated_limits (''*'' # aliases) (v # vs) =
     stated_limits [''*''] [v] \<union> stated_limits aliases [v] \<union> stated_limits (''*'' # aliases) vs"
    by (auto simp: stated_limits_def)
  moreover have "stated_limits ks [v] = {n. \<exists>x. Some x \<in> set (map (json_get v) ks) \<and> as_u64_json x = Some n}" for ks
    by (auto simp: stated_limits_def image_iff) metis+
  ultimately have "\<forall>n \<in> stated_limits (''*'' # aliases) (v # vs). 0 < n \<and> n < 2 ^ 32"
    using ih h1 h2 by (simp only:) blast
  then show ?case
    unfolding stated_limits_Cons [of aliases] stated_limits_Cons [of "[''*'']"]
    using ih h1 h2 by (intro conjI opt_max_trans [of a _ a'] opt_max_trans [of b _ "max_limit b l"]) simp_all
qed

lemma max_parallel_limit:
  assumes "max_parallel_in_tx i op db = (Inr n, db')"
  defines "vs \<equiv> map g_max_parallel (grant_rows db i)"
  defines "S \<equiv> stated_limits (matching_tokens (normalize op)) vs" and "W \<equiv> stated_limits [''*''] vs"
  shows "n = (if S \<noteq> {} then Max S else if W \<noteq> {} then Max W else 1) \<and> 1 \<le> n \<and> n < 2 ^ 32"
proof -
  from assms(1) obtain r q where g: "grant_limits (matching_tokens (normalize op)) vs None None = Inr (r, q)"
    and n: "n = (case r of Some n \<Rightarrow> n | None \<Rightarrow> (case q of Some n \<Rightarrow> n | None \<Rightarrow> 1))"
    by (auto simp: max_parallel_in_tx_def bind_i64_Inr vs_def split: sum.splits)
  note h = grant_limits_Inr [OF g]
  have sub: "S \<union> W \<subseteq> stated_limits (''*'' # matching_tokens (normalize op)) vs"
    by (auto simp: S_def W_def stated_limits_def)
  have fin: "finite S" "finite W" using h by (simp_all add: opt_max_def S_def W_def)
  have eq: "n = (if S \<noteq> {} then Max S else if W \<noteq> {} then Max W else 1)"
    using h n by (auto simp: opt_max_def Let_def S_def W_def)
  have "1 \<le> m \<and> m < 2 ^ 32" if "m \<in> S \<union> W" for m using that sub h by (auto simp: Suc_le_eq)
  then show ?thesis using eq fin Max_in by auto
qed

text \<open>
  The parallelism limit of a worker for an operation is the largest limit its grants state for
  either encoding of the operation; without one, the largest wildcard limit; without any, 1. It is
  always positive and fits 32 bits.
\<close>

theorem max_parallel_is_largest_stated_limit:
  assumes "max_parallel_in_tx i op db = (Inr n, db')"
  defines "vs \<equiv> map g_max_parallel (grant_rows db i)"
  defines "S \<equiv> stated_limits (matching_tokens (normalize op)) vs" and "W \<equiv> stated_limits [''*''] vs"
  shows "n = (if S \<noteq> {} then Max S else if W \<noteq> {} then Max W else 1) \<and> 1 \<le> n \<and> n < 2 ^ 32"
  unfolding S_def W_def vs_def by (rule max_parallel_limit [OF assms(1)])

section \<open>Retirement and the repository invariant\<close>

lemma worker_by_id_Some:
  "wf_table w_id (workers db) \<Longrightarrow> worker_by_id db i = Some w \<longleftrightarrow> w \<in> set (workers db) \<and> w_id w = i"
  unfolding worker_by_id_def by (simp add: find_id)

lemma worker_by_id_None: "worker_by_id db i = None \<longleftrightarrow> (\<forall>w \<in> set (workers db). w_id w \<noteq> i)"
  by (auto simp: worker_by_id_def find_None_iff)

text \<open>
  Retirement is a compare-and-set on the worker's epoch: an unknown id is refused with
  NotFound, a retired worker and a stale epoch with Conflict, and in each of these cases nothing
  changes. Otherwise the worker is retired under the next epoch, its accelerator claims are
  released, and no other worker or claim changes.
\<close>

theorem retire_outcome:
  assumes "worker_inv db" "i < 2 ^ 63" "e < 2 ^ 63"
  shows "worker_retire i e now db =
    (case worker_by_id db i of
       None \<Rightarrow> (Inl NotFound, db)
     | Some w \<Rightarrow>
         if w_status w = worker_status.Retired \<or> w_epoch w \<noteq> e then (Inl Conflict, db)
         else (Inr (retired_row now w),
           db\<lparr>accelerator_claims := filter (\<lambda>c. ac_worker_id c \<noteq> i) (accelerator_claims db),
              workers := map (\<lambda>v. if v = w then retired_row now w else v) (workers db)\<rparr>))"
proof (cases "worker_by_id db i")
  case None
  then show ?thesis using assms
    by (simp add: worker_retire_def transact_def retire_in_tx_def worker_get_in_tx_def bind_i64_apply bind_tx_def)
next
  case (Some w)
  have wf: "wf_table w_id (workers db)" using assms(1) by (simp add: worker_inv_def)
  with Some have w: "w \<in> set (workers db)" "w_id w = i" by (auto simp: worker_by_id_Some)
  then have ok: "row_to_worker db w = Inr w" using assms(1) by (simp add: worker_inv_def)
  show ?thesis
  proof (cases "w_status w = worker_status.Retired \<or> w_epoch w \<noteq> e")
    case True
    then show ?thesis using assms Some ok
      by (auto simp: worker_retire_def transact_def retire_in_tx_def worker_get_in_tx_def bind_i64_apply bind_tx_def)
  next
    case False
    let ?p = "\<lambda>v. w_id v = i \<and> w_epoch v = e \<and> w_status v \<noteq> worker_status.Retired"
    let ?ws = "update_where ?p (retired_row now) (workers db)"
    let ?db = "db\<lparr>accelerator_claims := filter (\<lambda>c. ac_worker_id c \<noteq> i) (accelerator_claims db),
      workers := ?ws\<rparr>"
    have only: "?p v \<longleftrightarrow> v = w" if "v \<in> set (workers db)" for v
      using that w False wf_table_same [OF wf] by auto
    then have ws: "?ws = map (\<lambda>v. if v = w then retired_row now w else v) (workers db)"
      by (auto simp: update_where_def)
    have "wf_table w_id ?ws" using wf by (rule wf_table_update) (simp add: retired_row_def)
    then have found: "worker_by_id ?db i = Some (retired_row now w)"
      using w only by (auto simp: worker_by_id_Some ws retired_row_def image_iff)
    have "row_to_worker ?db (retired_row now w) = Inr (retired_row now w)"
      using ok row_to_worker_cong [of ?db db] 
      by (simp add: row_to_worker_iff worker_incarnation_projection_def retired_row_def)
    then have "worker_retire i e now db = (Inr (retired_row now w), ?db)"
      using assms Some ok False found w
      by (auto simp: worker_retire_def transact_def retire_in_tx_def worker_get_in_tx_def bind_i64_apply
          bind_tx_def Let_def return_tx_def)
    then show ?thesis using False Some by (simp add: ws)
  qed
qed

text \<open>The operations of the repository that change its tables.\<close>

inductive worker_op :: "db \<Rightarrow> db \<Rightarrow> bool" where
  "register_in_tx input db = (Inr w, db') \<Longrightarrow> worker_op db db'"
| "register_builtin_if_missing_in_tx input db = (Inr w, db') \<Longrightarrow> worker_op db db'"
| "bind_incarnation_in_tx i n inc db = (Inr w, db') \<Longrightarrow> worker_op db db'"
| "set_remote_readiness_in_tx i n inc readiness db = (Inr w, db') \<Longrightarrow> worker_op db db'"
| "retire_in_tx i e now db = (Inr w, db') \<Longrightarrow> worker_op db db'"
| "retire_live_for_incarnation_in_tx inc now db = (Inr ws, db') \<Longrightarrow> worker_op db db'"
| "record_capability_in_tx cap db = (Inr c, db') \<Longrightarrow> worker_op db db'"
| "record_grant_in_tx grant db = (Inr g, db') \<Longrightarrow> worker_op db db'"
| "claim_in_tx claim db = (Inr a, db') \<Longrightarrow> worker_op db db'"
| "set_node_limit n m now db = (Inr l, db') \<Longrightarrow> worker_op db db'"

lemma worker_op_step: "worker_op db db' \<Longrightarrow> worker_step db db'"
  by (cases rule: worker_op.cases)
    (auto dest: register_step register_builtin_step bind_incarnation_step set_readiness_step retire_step
      retire_live_step record_capability_step record_grant_step claim_step set_node_limit_step)

lemma worker_ops_step: "worker_op\<^sup>*\<^sup>* db db' \<Longrightarrow> worker_step db db'"
  by (induction rule: rtranclp_induct) (auto dest: worker_op_step intro: worker_step_trans)


section \<open>Examples\<close>

text \<open>A store with one local worker that may probe files, two at a time.\<close>

definition example_worker :: worker where
  "example_worker = \<lparr> w_id = 1, w_node_id = None, w_node_incarnation_id = None, w_name = ''probe'',
     w_kind = worker_kind.Local, w_status = worker_status.Registered, w_registered_at = 0,
     w_last_seen_at = 0, w_retired_at = None, w_epoch = 0 \<rparr>"

definition example_workers_db :: db where
  "example_workers_db = empty_db\<lparr>
     workers := [example_worker],
     worker_capabilities := [\<lparr> cap_id = 1, cap_worker_id = 1, cap_operation = ''probe_file'',
       cap_codecs = [], cap_hardware = [], cap_artifact_access = [''shared_mount''], cap_extra = JNull \<rparr>],
     worker_grants := [\<lparr> g_id = 1, g_worker_id = 1,
       g_can_execute = [''synthetic.workflow.operation.probe_file''], g_can_access_read = [],
       g_can_access_write = [], g_denies = [], g_max_parallel = JObject [(''probe_file'', JInt 2)] \<rparr>]\<rparr>"

lemmas example_workers_simps = example_workers_db_def example_worker_def empty_db_def

lemma example_worker_inv: "worker_inv example_workers_db"
  by (simp add: worker_inv_def example_workers_simps wf_table_def row_to_worker_def
      worker_incarnation_projection_def)

lemma example_normalize:
  "normalize ''probe_file'' = Known ProbeFile False"
  "normalize ''synthetic.workflow.operation.probe_file'' = Known ProbeFile True"
  using normalize_bare [of ProbeFile] normalize_namespaced [of ProbeFile]
  by (simp_all add: WORKFLOW_OPERATION_NAMESPACE_def)

theorem eligible_operation_is_candidate_witness:
  "\<exists>ops. candidate_operations_in_tx 1 example_workers_db = (Inr ops, example_workers_db) \<and>
     ''probe_file'' \<in> set ops"
proof -
  have w: "worker_by_id example_workers_db 1 = Some example_worker"
    by (simp add: worker_by_id_def example_workers_simps)
  have "worker_get_in_tx 1 example_workers_db = (Inr (Some example_worker), example_workers_db)"
    unfolding worker_get_Inr using w example_worker_inv
    by (simp add: worker_inv_def example_workers_db_def)
  then obtain e where e: "operation_eligibility_in_tx 1 ''probe_file'' example_workers_db =
      (Inr e, example_workers_db)"
    by (simp add: operation_eligibility_in_tx_def bind_tx_def read_tx_def Let_def)
  have ok: "is_eligible e"
    unfolding eligible_iff [OF e] w
    by (simp add: example_workers_simps example_normalize WORKFLOW_OPERATION_NAMESPACE_def)
  obtain ops where ops: "candidate_operations_in_tx 1 example_workers_db = (Inr ops, example_workers_db)"
    by (simp add: candidate_operations_in_tx_def bind_i64_apply read_tx_def)
  from eligible_operation_is_candidate [OF e ok ops] ops show ?thesis
    by (simp add: example_normalize)
qed

theorem max_parallel_is_largest_stated_limit_witness:
  "\<exists>n. max_parallel_in_tx 1 ''probe_file'' example_workers_db = (Inr n, example_workers_db) \<and>
     n = 2 \<and> n < 2 ^ 32"
proof -
  have m: "max_parallel_in_tx 1 ''probe_file'' example_workers_db = (Inr 2, example_workers_db)"
    by (simp add: max_parallel_in_tx_def bind_i64_apply grant_rows_def example_workers_simps
        example_normalize json_get_def positive_u32_def WORKFLOW_OPERATION_NAMESPACE_def)
  from max_parallel_is_largest_stated_limit [OF m] m show ?thesis by blast
qed

theorem retire_outcome_witness:
  "worker_retire 1 0 5 example_workers_db =
     (Inr (retired_row 5 example_worker),
      example_workers_db\<lparr>accelerator_claims := [], workers := [retired_row 5 example_worker]\<rparr>)"
proof -
  have "worker_by_id example_workers_db 1 = Some example_worker"
    by (simp add: worker_by_id_def example_workers_simps)
  with retire_outcome [OF example_worker_inv, of 1 0 5] show ?thesis
    by (simp add: example_workers_simps)
qed


end
