(* ===== verification/Leases.thy ===== *)
theory Leases
  imports Workers
begin

text \<open>
  The lease repository (\<^verbatim>\<open>crates/voom-store/src/repo/execution/leases.rs\<close>): acquisition with its
  guarded rechecks, heartbeats, release, failure with retry, batch expiry and operator
  force-release. Each operation changes the lease row and its ticket together; the theory shows
  that each one is an action of the specification in \<open>Exec_Spec\<close>, and what it does on every branch.

  Durations are nanoseconds, instants are UTC nanoseconds, and the \<^verbatim>\<open>rng\<close> argument of
  \<open>fail_in_tx\<close> is the one \<^verbatim>\<open>u32\<close> value it draws.
\<close>

section \<open>Types\<close>

record new_lease =
  nle_ticket_id :: nat
  nle_worker_id :: nat
  nle_ttl :: int
  nle_now :: instant

record worker_capacity_saturation =
  wcs_worker_id :: nat
  wcs_operation :: ticket_operation
  wcs_active_leases :: nat
  wcs_max_parallel :: nat

datatype lease_ineligibility_reason =
    WorkerMissing | WorkerNotReady | WorkerStale | WorkerRetired
  | OperationDenied | MissingCapability | MissingGrant

datatype lease_acquire_outcome =
    Acquired lease
  | CapacityFull worker_capacity_saturation
  | TicketNotReady nat
  | WorkerIneligible nat ticket_operation lease_ineligibility_reason

record force_release_outcome =
  fr_lease :: lease
  fr_ticket_requeued :: bool
  fr_attempt :: nat
  fr_max_attempts :: nat

record failed_expiry =
  fe_lease_id :: nat
  fe_ticket_id :: nat
  fe_attempt :: nat
  fe_max_attempts :: nat

record expire_report =
  er_expired_leases :: "nat list"
  er_requeued_tickets :: "nat list"
  er_failed_expiries :: "failed_expiry list"
  er_pairs :: "(nat \<times> nat) list"

section \<open>Acquisition\<close>

definition whole_seconds :: "int \<Rightarrow> int" where
  "whole_seconds d = (if 0 \<le> d then d div NANOS_PER_SECOND else - ((- d) div NANOS_PER_SECOND))"

primrec ineligibility_error :: "lease_ineligibility_reason \<Rightarrow> voom_error" where
  "ineligibility_error WorkerMissing = NotFound"
| "ineligibility_error WorkerNotReady = Conflict"
| "ineligibility_error WorkerStale = Conflict"
| "ineligibility_error WorkerRetired = Conflict"
| "ineligibility_error OperationDenied = Conflict"
| "ineligibility_error MissingCapability = Conflict"
| "ineligibility_error MissingGrant = Conflict"

primrec into_lease_result :: "lease_acquire_outcome \<Rightarrow> lease res" where
  "into_lease_result (Acquired l) = Inr l"
| "into_lease_result (CapacityFull _) = Inl NoEligibleWorker"
| "into_lease_result (TicketNotReady _) = Inl Conflict"
| "into_lease_result (WorkerIneligible _ _ reason) = Inl (ineligibility_error reason)"

definition ineligibility_reason :: "worker_operation_eligibility \<Rightarrow> lease_ineligibility_reason option" where
  "ineligibility_reason e =
     (if is_eligible e then None
      else case (el_worker_kind e, el_worker_status e) of
        (Some kind, Some status) \<Rightarrow>
          if kind = worker_kind.Remote \<and> status = worker_status.Registered then Some WorkerNotReady
          else if status = worker_status.Stale then Some WorkerStale
          else if status = worker_status.Retired then Some WorkerRetired
          else if el_is_denied e then Some OperationDenied
          else if \<not> el_has_capability e then Some MissingCapability
          else if \<not> el_has_grant e then Some MissingGrant
          else None
      | _ \<Rightarrow> Some WorkerMissing)"

definition lease_get_in_tx :: "nat \<Rightarrow> (db, lease option) tx" where
  "lease_get_in_tx i = bind_i64 i (read_tx (\<lambda>db. lease_by_id db i))"

definition leased_row :: "instant \<Rightarrow> ticket \<Rightarrow> ticket" where
  "leased_row now t = t\<lparr>t_state := Leased, t_state_changed_at := now,
     t_attempt := t_attempt t + 1, t_epoch := t_epoch t + 1\<rparr>"

definition may_lease :: "db \<Rightarrow> nat \<Rightarrow> instant \<Rightarrow> ticket \<Rightarrow> bool" where
  "may_lease db ticket_id now t \<longleftrightarrow> t_id t = ticket_id \<and> t_state t = Ready \<and>
     t_next_eligible_at t \<le> now \<and> t_attempt t < t_max_attempts t \<and> job_allows db t"

definition insert_lease :: "new_lease \<Rightarrow> int \<Rightarrow> (db, lease) tx" where
  "insert_lease input ttl_secs = bind_i64 (nle_ticket_id input) (bind_i64 (nle_worker_id input) (\<lambda>db.
     let i = next_rowid l_id (leases db);
         row = \<lparr> l_id = i, l_ticket_id = nle_ticket_id input, l_worker_id = nle_worker_id input,
           l_state = Held, l_acquired_at = nle_now input, l_expires_at = nle_now input + nle_ttl input,
           l_last_heartbeat_at = nle_now input, l_ttl_seconds = ttl_secs, l_release_reason = None,
           l_released_at = None, l_epoch = 0 \<rparr>
     in if ticket_by_id db (nle_ticket_id input) = None \<or> worker_by_id db (nle_worker_id input) = None \<or>
           ttl_secs \<le> 0
        then (Inl Database, db)
        else bind_tx (lease_get_in_tx i)
          (\<lambda>r. case r of Some l \<Rightarrow> return_tx l | None \<Rightarrow> throw_tx Internal)
          (db\<lparr>leases := leases db @ [row]\<rparr>)))"

text \<open>The rechecks of worker eligibility and capacity, after the ticket was provisionally leased.\<close>

definition lease_to_worker :: "new_lease \<Rightarrow> int \<Rightarrow> ticket_operation \<Rightarrow> (db, lease_acquire_outcome) tx" where
  "lease_to_worker input ttl_secs operation =
     bind_tx (operation_eligibility_in_tx (nle_worker_id input) operation) (\<lambda>eligibility.
       case ineligibility_reason eligibility of
         Some reason \<Rightarrow> return_tx (WorkerIneligible (nle_worker_id input) operation reason)
       | None \<Rightarrow>
           bind_tx (operation_capacity_in_tx (nle_worker_id input) operation) (\<lambda>capacity.
             if \<not> has_capacity capacity
             then return_tx (CapacityFull \<lparr> wcs_worker_id = nle_worker_id input,
               wcs_operation = operation, wcs_active_leases = oc_active_leases capacity,
               wcs_max_parallel = oc_max_parallel capacity \<rparr>)
             else bind_tx (insert_lease input ttl_secs) (\<lambda>l. return_tx (Acquired l))))"

fun unknown_namespaced :: "normalized_ticket_operation \<Rightarrow> bool" where
  "unknown_namespaced (UnknownNamespaced _) = True"
| "unknown_namespaced _ = False"

definition acquire_guarded :: "new_lease \<Rightarrow> int \<Rightarrow> (db, lease_acquire_outcome) tx" where
  "acquire_guarded input ttl_secs =
     bind_tx (ticket_get_in_tx (nle_ticket_id input)) (\<lambda>r db. case r of
       None \<Rightarrow> (Inl NotFound, db)
     | Some ticket \<Rightarrow>
         if unknown_namespaced (normalize (t_kind ticket)) then (Inl Database, db)
         else
           let p = may_lease db (nle_ticket_id input) (nle_now input);
               db1 = db\<lparr>tickets := update_where p (leased_row (nle_now input)) (tickets db)\<rparr>
           in if rows_matching p (tickets db) = 0 then (Inr (TicketNotReady (nle_ticket_id input)), db1)
              else lease_to_worker input ttl_secs (matching_token (normalize (t_kind ticket))) db1)"

text \<open>The savepoint is released only when a lease was acquired; everything else rolls back.\<close>

definition try_acquire_in_tx :: "new_lease \<Rightarrow> (db, lease_acquire_outcome) tx" where
  "try_acquire_in_tx input db =
     (let ttl_secs = whole_seconds (nle_ttl input)
      in if ttl_secs \<le> 0 then (Inl Config, db)
         else case acquire_guarded input ttl_secs db of
             (Inr (Acquired l), db') \<Rightarrow> (Inr (Acquired l), db')
           | (Inr rejected, _) \<Rightarrow> (Inr rejected, db)
           | (Inl e, _) \<Rightarrow> (Inl e, db))"

definition acquire_in_tx :: "new_lease \<Rightarrow> (db, lease) tx" where
  "acquire_in_tx input = bind_tx (try_acquire_in_tx input) (\<lambda>out. lift_res (into_lease_result out))"

definition lease_acquire :: "new_lease \<Rightarrow> (db, lease) tx" where
  "lease_acquire input = transact (acquire_in_tx input)"

section \<open>Heartbeat\<close>

definition heartbeat_row :: "int \<Rightarrow> instant \<Rightarrow> lease \<Rightarrow> lease" where
  "heartbeat_row ttl now l = l\<lparr>l_last_heartbeat_at := now,
     l_expires_at := max (l_expires_at l) (now + ttl), l_epoch := l_epoch l + 1\<rparr>"

definition heartbeat_in_tx :: "nat \<Rightarrow> int \<Rightarrow> instant \<Rightarrow> (db, lease) tx" where
  "heartbeat_in_tx lease_id ttl now = bind_i64 lease_id (\<lambda>db.
     let p = (\<lambda>l. l_id l = lease_id \<and> l_state l = Held \<and> now < l_expires_at l);
         db' = db\<lparr>leases := update_where p (heartbeat_row ttl now) (leases db)\<rparr>
     in if rows_matching p (leases db) = 0 then (Inl Conflict, db')
        else bind_tx (lease_get_in_tx lease_id)
          (\<lambda>r. case r of Some l \<Rightarrow> return_tx l | None \<Rightarrow> throw_tx Internal) db')"

definition lease_heartbeat :: "nat \<Rightarrow> int \<Rightarrow> instant \<Rightarrow> (db, lease) tx" where
  "lease_heartbeat lease_id ttl now = transact (heartbeat_in_tx lease_id ttl now)"

section \<open>Closing a lease\<close>

definition close_row :: "lease_state \<Rightarrow> release_reason \<Rightarrow> instant \<Rightarrow> lease \<Rightarrow> lease" where
  "close_row st reason now l = l\<lparr>l_state := st, l_release_reason := Some reason,
     l_released_at := Some now, l_epoch := l_epoch l + 1\<rparr>"

definition close_held_lease :: "lease_state \<Rightarrow> release_reason \<Rightarrow> nat \<Rightarrow> instant \<Rightarrow> (db, lease) tx" where
  "close_held_lease st reason lease_id now = bind_i64 lease_id (\<lambda>db.
     let p = (\<lambda>l. l_id l = lease_id \<and> l_state l = Held)
     in case find p (leases db) of
          None \<Rightarrow> (Inl Conflict, db)
        | Some l \<Rightarrow> (Inr (close_row st reason now l),
            db\<lparr>leases := update_where p (close_row st reason now) (leases db)\<rparr>))"

definition release_lease_for_failure_in_tx :: "nat \<Rightarrow> release_reason \<Rightarrow> instant \<Rightarrow> (db, lease) tx" where
  "release_lease_for_failure_in_tx lease_id reason now = close_held_lease Released reason lease_id now"

definition force_release_lease_in_tx :: "nat \<Rightarrow> instant \<Rightarrow> (db, lease) tx" where
  "force_release_lease_in_tx lease_id now = close_held_lease ForceReleased ReasonForceReleased lease_id now"

definition succeeded_row :: "json \<Rightarrow> instant \<Rightarrow> ticket \<Rightarrow> ticket" where
  "succeeded_row result now t = t\<lparr>t_state := Succeeded, t_result := Some result,
     t_state_changed_at := now, t_epoch := t_epoch t + 1\<rparr>"

definition requeued_row :: "instant \<Rightarrow> instant \<Rightarrow> ticket \<Rightarrow> ticket" where
  "requeued_row now next_eligible t = t\<lparr>t_state := Ready, t_state_changed_at := now,
     t_next_eligible_at := next_eligible, t_epoch := t_epoch t + 1\<rparr>"

definition failed_row :: "instant \<Rightarrow> ticket \<Rightarrow> ticket" where
  "failed_row now t = t\<lparr>t_state := Failed, t_state_changed_at := now, t_epoch := t_epoch t + 1\<rparr>"

text \<open>An update of a leased ticket that must hit exactly one row.\<close>

definition move_leased_ticket :: "(ticket \<Rightarrow> ticket) \<Rightarrow> nat \<Rightarrow> (db, unit) tx" where
  "move_leased_ticket f ticket_id db =
     (let p = (\<lambda>t. t_id t = ticket_id \<and> t_state t = Leased);
          db' = db\<lparr>tickets := update_where p f (tickets db)\<rparr>
      in if rows_matching p (tickets db) \<noteq> 1 then (Inl Conflict, db') else (Inr (), db'))"

definition release_in_tx :: "nat \<Rightarrow> json \<Rightarrow> instant \<Rightarrow> (db, lease) tx" where
  "release_in_tx lease_id result now =
     bind_tx (close_held_lease Released ReasonReleased lease_id now) (\<lambda>l.
       bind_tx (bind_i64 (l_ticket_id l) (move_leased_ticket (succeeded_row result now) (l_ticket_id l)))
         (\<lambda>_. return_tx l))"

definition lease_release :: "nat \<Rightarrow> json \<Rightarrow> instant \<Rightarrow> (db, lease) tx" where
  "lease_release lease_id result now = transact (release_in_tx lease_id result now)"

text \<open>The probe joins the held lease with its ticket.\<close>

definition held_lease_ticket :: "db \<Rightarrow> nat \<Rightarrow> ticket option" where
  "held_lease_ticket db lease_id =
     (case find (\<lambda>l. l_id l = lease_id \<and> l_state l = Held) (leases db) of
        None \<Rightarrow> None
      | Some l \<Rightarrow> ticket_by_id db (l_ticket_id l))"

definition fail_in_tx :: "nat \<Rightarrow> failure_class \<Rightarrow> instant \<Rightarrow> nat \<Rightarrow> (db, lease) tx" where
  "fail_in_tx lease_id failure now draw = bind_i64 lease_id (\<lambda>db.
     case held_lease_ticket db lease_id of
       None \<Rightarrow> (Inl Conflict, db)
     | Some t \<Rightarrow>
         let retry = is_retriable failure \<and> t_attempt t < t_max_attempts t
         in bind_tx (release_lease_for_failure_in_tx lease_id
                (if retry then FailedRetriable else FailedTerminal) now) (\<lambda>l.
              if retry
              then bind_tx (lift_res (u32_from_i64 (int (t_attempt t)))) (\<lambda>attempt.
                bind_tx (move_leased_ticket (requeued_row now (now + default_backoff attempt draw)) (t_id t))
                  (\<lambda>_. return_tx l))
              else bind_tx (move_leased_ticket (failed_row now) (t_id t)) (\<lambda>_. return_tx l)) db)"

definition lease_fail :: "nat \<Rightarrow> failure_class \<Rightarrow> instant \<Rightarrow> nat \<Rightarrow> (db, lease) tx" where
  "lease_fail lease_id failure now draw = transact (fail_in_tx lease_id failure now draw)"

definition force_release_in_tx :: "nat \<Rightarrow> bool \<Rightarrow> instant \<Rightarrow> (db, force_release_outcome) tx" where
  "force_release_in_tx lease_id also_requeue now = bind_i64 lease_id (\<lambda>db.
     case held_lease_ticket db lease_id of
       None \<Rightarrow> (Inl Conflict, db)
     | Some t \<Rightarrow>
         if also_requeue \<and> t_max_attempts t \<le> t_attempt t then (Inl Conflict, db)
         else bind_tx (force_release_lease_in_tx lease_id now) (\<lambda>l.
           bind_tx (move_leased_ticket (if also_requeue then requeued_row now now else failed_row now) (t_id t))
             (\<lambda>_. bind_tx (lift_res (u32_from_i64 (int (t_attempt t)))) (\<lambda>attempt.
               bind_tx (lift_res (u32_from_i64 (int (t_max_attempts t)))) (\<lambda>max_attempts.
                 return_tx \<lparr> fr_lease = l, fr_ticket_requeued = also_requeue, fr_attempt = attempt,
                   fr_max_attempts = max_attempts \<rparr>)))) db)"

definition lease_force_release :: "nat \<Rightarrow> bool \<Rightarrow> instant \<Rightarrow> (db, force_release_outcome) tx" where
  "lease_force_release lease_id also_requeue now = transact (force_release_in_tx lease_id also_requeue now)"

section \<open>Batch expiry\<close>

definition LEASE_BATCH_LIMIT :: nat where
  "LEASE_BATCH_LIMIT = 1000"

definition TICKET_ATTEMPT_CHUNK :: nat where
  "TICKET_ATTEMPT_CHUNK = 500"

function chunks :: "nat \<Rightarrow> 'a list \<Rightarrow> 'a list list" where
  "chunks n xs = (if xs = [] \<or> n = 0 then [] else take n xs # chunks n (drop n xs))"
  by pat_completeness auto

termination chunks
  by (relation "measure (\<lambda>(n, xs). length xs)") auto

declare chunks.simps [simp del]

definition fetch_ticket_attempts :: "db \<Rightarrow> nat list \<Rightarrow> (nat \<rightharpoonup> nat \<times> nat)" where
  "fetch_ticket_attempts db ids =
     fold (\<lambda>chunk out. fold (\<lambda>t out. out(t_id t \<mapsto> (t_attempt t, t_max_attempts t)))
         (filter (\<lambda>t. t_id t \<in> set chunk) (tickets db)) out)
       (chunks TICKET_ATTEMPT_CHUNK ids) Map.empty"

definition process_expired_lease ::
  "nat \<Rightarrow> nat \<Rightarrow> (nat \<rightharpoonup> nat \<times> nat) \<Rightarrow> instant \<Rightarrow> expire_report \<Rightarrow> (db, expire_report) tx" where
  "process_expired_lease lease_id ticket_id ticket_attempts now report db =
     (let p = (\<lambda>l. l_id l = lease_id \<and> l_state l = Held);
          db1 = db\<lparr>leases := update_where p (close_row Expired IssuerLost now) (leases db)\<rparr>;
          done_report = (\<lambda>r. r\<lparr>er_expired_leases := er_expired_leases r @ [lease_id],
            er_pairs := er_pairs r @ [(lease_id, ticket_id)]\<rparr>)
      in if rows_matching p (leases db) \<noteq> 1 then (Inl Conflict, db1)
         else case ticket_attempts ticket_id of
           None \<Rightarrow> (Inl Internal, db1)
         | Some (attempt, max_attempts) \<Rightarrow>
             if attempt < max_attempts
             then bind_tx (move_leased_ticket (requeued_row now now) ticket_id) (\<lambda>_. return_tx
               (done_report (report\<lparr>er_requeued_tickets := er_requeued_tickets report @ [ticket_id]\<rparr>))) db1
             else bind_tx (move_leased_ticket (failed_row now) ticket_id) (\<lambda>_.
               bind_tx (lift_res (u32_from_i64 (int attempt))) (\<lambda>a.
                 bind_tx (lift_res (u32_from_i64 (int max_attempts))) (\<lambda>m. return_tx
                   (done_report (report\<lparr>er_failed_expiries := er_failed_expiries report @
                     [\<lparr> fe_lease_id = lease_id, fe_ticket_id = ticket_id, fe_attempt = a,
                        fe_max_attempts = m \<rparr>]\<rparr>))))) db1)"

fun expire_loop ::
  "(nat \<times> nat) list \<Rightarrow> (nat \<rightharpoonup> nat \<times> nat) \<Rightarrow> instant \<Rightarrow> expire_report \<Rightarrow> (db, expire_report) tx" where
  "expire_loop [] ticket_attempts now report = return_tx report"
| "expire_loop ((l, t) # rows) ticket_attempts now report =
     bind_tx (process_expired_lease l t ticket_attempts now report)
       (\<lambda>report. expire_loop rows ticket_attempts now report)"

definition overdue :: "instant \<Rightarrow> lease \<Rightarrow> bool" where
  "overdue now l \<longleftrightarrow> l_state l = Held \<and> l_expires_at l < now"

definition empty_report :: expire_report where
  "empty_report = \<lparr> er_expired_leases = [], er_requeued_tickets = [], er_failed_expiries = [], er_pairs = [] \<rparr>"

definition expire_due_in_tx :: "instant \<Rightarrow> (db, expire_report) tx" where
  "expire_due_in_tx now db =
     (let rows = map (\<lambda>l. (l_id l, l_ticket_id l))
            (take LEASE_BATCH_LIMIT (sort_key l_id (filter (overdue now) (leases db))));
          ticket_attempts = fetch_ticket_attempts db (map snd rows)
      in expire_loop rows ticket_attempts now empty_report db)"

definition lease_expire_due :: "instant \<Rightarrow> (db, expire_report) tx" where
  "lease_expire_due now = transact (expire_due_in_tx now)"

section \<open>Reads\<close>

definition get_held_for_worker_in_tx :: "nat \<Rightarrow> nat \<Rightarrow> (db, lease) tx" where
  "get_held_for_worker_in_tx lease_id worker_id =
     bind_tx (lease_get_in_tx lease_id) (\<lambda>r. case r of
       None \<Rightarrow> throw_tx NotFound
     | Some l \<Rightarrow>
         if l_worker_id l \<noteq> worker_id then throw_tx Conflict
         else if l_state l \<noteq> Held then throw_tx Conflict
         else return_tx l)"

definition has_held_for_ticket_in_tx :: "nat \<Rightarrow> (db, bool) tx" where
  "has_held_for_ticket_in_tx ticket_id = bind_i64 ticket_id (read_tx (\<lambda>db.
     list_ex (\<lambda>l. l_ticket_id l = ticket_id \<and> l_state l = Held) (leases db)))"

definition active_count_for_node_in_tx :: "nat \<Rightarrow> (db, nat) tx" where
  "active_count_for_node_in_tx node_id = bind_i64 node_id (\<lambda>db.
     lift_res (u32_from_i64 (int (rows_matching (\<lambda>l. l_state l = Held \<and>
       list_ex (\<lambda>w. w_id w = l_worker_id l \<and> w_node_id w = Some node_id) (workers db)) (leases db)))) db)"

definition lease_get :: "nat \<Rightarrow> (db, lease option) tx" where
  "lease_get i = lease_get_in_tx i"

record lease_dispatch_context =
  dc_worker_id :: nat
  dc_worker_epoch :: nat
  dc_expires_at :: instant

definition dispatch_context :: "nat \<Rightarrow> (db, lease_dispatch_context option) tx" where
  "dispatch_context lease_id db =
     (if \<not> lease_id < 2 ^ 63 then (Inl Config, db)
      else (Inr (case find (\<lambda>l. l_id l = lease_id \<and> l_state l = Held) (leases db) of
          None \<Rightarrow> None
        | Some l \<Rightarrow> map_option (\<lambda>w. \<lparr> dc_worker_id = w_id w, dc_worker_epoch = w_epoch w,
            dc_expires_at = l_expires_at l \<rparr>) (worker_by_id db (l_worker_id l))), db))"

record lease_interval =
  li_worker_id :: nat
  li_acquired_at :: instant
  li_released_at :: "instant option"

definition timeline_for_job :: "nat \<Rightarrow> (db, lease_interval list) tx" where
  "timeline_for_job job_id = bind_i64 job_id (read_tx (\<lambda>db.
     map (\<lambda>l. \<lparr> li_worker_id = l_worker_id l, li_acquired_at = l_acquired_at l,
         li_released_at = l_released_at l \<rparr>)
       (sort_key (\<lambda>l. (l_acquired_at l, l_worker_id l, l_id l))
         (filter (\<lambda>l. list_ex (\<lambda>t. t_id t = l_ticket_id l \<and> t_job_id t = Some job_id) (tickets db))
           (leases db)))))"

definition lease_list :: "lease_state option \<Rightarrow> nat option \<Rightarrow> nat \<Rightarrow> (db, lease list) tx" where
  "lease_list st after limit = bind_i64_option after (read_tx (\<lambda>db.
     keyset_page l_id (\<lambda>l. st = None \<or> st = Some (l_state l)) after limit (leases db)))"

section \<open>Refinement: closing a lease\<close>

lemma lease_by_id_Some:
  "wf_db db \<Longrightarrow> lease_by_id db i = Some l \<longleftrightarrow> l \<in> set (leases db) \<and> l_id l = i"
  by (simp add: lease_by_id_def find_id wf_db_def)

lemma lease_get_Inr [simp]:
  "lease_get_in_tx i db = (Inr r, db') \<longleftrightarrow> i < 2 ^ 63 \<and> r = lease_by_id db i \<and> db' = db"
  by (auto simp: lease_get_in_tx_def bind_i64_Inr)

lemma find_held:
  assumes "wf_db db"
  shows "find (\<lambda>l. l_id l = i \<and> l_state l = Held) (leases db) = Some l \<longleftrightarrow>
    l \<in> set (leases db) \<and> l_id l = i \<and> l_state l = Held"
  using assms find_key [of l_id "leases db" i "\<lambda>l. l_state l = Held" l] by (simp add: wf_db_def)

lemma abs_exec_lease_update:
  assumes "wf_db db" and "l \<in> set (leases db)" "q l" and "\<And>l. l_id (f l) = l_id l"
  shows "abs_exec (db\<lparr>leases := update_where (\<lambda>r. l_id r = l_id l \<and> q r) f (leases db)\<rparr>) =
    (abs_exec db)\<lparr>x_leases := (x_leases (abs_exec db))(l_id l \<mapsto> abs_lease (f l))\<rparr>"
  using table_map_update [of l_id "leases db" l "l_id l" q f abs_lease] assms
  by (simp add: abs_exec_def wf_db_tables)

lemma wf_db_leases:
  assumes "wf_db db" and "\<And>l. l_id (f l) = l_id l"
    and "\<And>l. l \<in> set (leases db) \<Longrightarrow> p l \<Longrightarrow> lease_shape l \<Longrightarrow> lease_shape (f l)"
  shows "wf_db (db\<lparr>leases := update_where p f (leases db)\<rparr>)"
  using assms by (auto simp: wf_db_def wf_table_update in_update_where)

lemma x_leases_abs:
  assumes "wf_db db"
  shows "x_leases (abs_exec db) i = map_option abs_lease (lease_by_id db i)"
  by (rule option_eqI)
    (use assms in \<open>auto simp: abs_exec_def table_map_Some wf_db_tables lease_by_id_Some\<close>)

text \<open>The ticket updates that accompany the end of a lease, and the state they lead to.\<close>

definition ends_lease :: "(ticket \<Rightarrow> ticket) \<Rightarrow> ticket_state \<Rightarrow> bool" where
  "ends_lease f st \<longleftrightarrow> (\<forall>t. t_id (f t) = t_id t \<and> t_attempt (f t) = t_attempt t \<and>
     t_max_attempts (f t) = t_max_attempts t \<and> t_state (f t) = st \<and>
     (if st = Succeeded then t_result (f t) \<noteq> None else t_result (f t) = t_result t))"

lemma ends_lease_rows [simp]:
  "ends_lease (succeeded_row result now) Succeeded"
  "ends_lease (requeued_row now next_eligible) Ready"
  "ends_lease (failed_row now) Failed"
  by (simp_all add: ends_lease_def succeeded_row_def requeued_row_def failed_row_def)

definition lease_closed :: "db \<Rightarrow> lease \<Rightarrow> (lease \<Rightarrow> lease) \<Rightarrow> ticket \<Rightarrow> (ticket \<Rightarrow> ticket) \<Rightarrow> db" where
  "lease_closed db l g t f =
     db\<lparr>leases := update_where (\<lambda>r. l_id r = l_id l \<and> l_state r = Held) g (leases db),
        tickets := update_where (\<lambda>r. t_id r = t_id t \<and> t_state r = Leased) f (tickets db)\<rparr>"

definition held_pair :: "db \<Rightarrow> lease \<Rightarrow> ticket \<Rightarrow> bool" where
  "held_pair db l t \<longleftrightarrow> l \<in> set (leases db) \<and> l_state l = Held \<and> t \<in> set (tickets db) \<and>
     t_id t = l_ticket_id l \<and> t_state t = Leased"

lemma close_row_fields [simp]:
  "l_id (close_row st reason now l) = l_id l"
  "l_ticket_id (close_row st reason now l) = l_ticket_id l"
  "l_worker_id (close_row st reason now l) = l_worker_id l"
  "l_state (close_row st reason now l) = st"
  by (simp_all add: close_row_def)

lemma close_row_shape: "st \<noteq> Held \<Longrightarrow> lease_shape l \<Longrightarrow> lease_shape (close_row st reason now l)"
  by (simp add: lease_shape_def close_row_def)

lemma lease_closed_wf:
  assumes "wf_db db" and "ends_lease f st'" and "st \<noteq> Held"
  shows "wf_db (lease_closed db l (close_row st reason now) t f)"
proof -
  let ?db = "db\<lparr>leases := update_where (\<lambda>r. l_id r = l_id l \<and> l_state r = Held)
    (close_row st reason now) (leases db)\<rparr>"
  have wf: "wf_db ?db"
    using assms(1,3) by (intro wf_db_leases) (auto intro: close_row_shape)
  have "wf_db (?db\<lparr>tickets := update_where (\<lambda>r. t_id r = t_id t \<and> t_state r = Leased) f (tickets ?db)\<rparr>)"
  proof (rule wf_db_tickets [OF wf])
    fix r assume "r \<in> set (tickets ?db)" "t_id r = t_id t \<and> t_state r = Leased"
    then have "t_result r = None" using assms(1) by (auto simp: wf_db_def)
    then show "t_state (f r) = Succeeded \<longleftrightarrow> t_result (f r) \<noteq> None"
      using assms(2) by (cases "st' = Succeeded") (simp_all add: ends_lease_def)
  qed (use assms(2) in \<open>simp add: ends_lease_def\<close>)
  then show ?thesis by (simp add: lease_closed_def)
qed

lemma lease_closed_act:
  assumes wf: "wf_db db" and pair: "held_pair db l t" and f: "ends_lease f st'" and "st \<noteq> Held"
    and ok: "st' \<in> {Succeeded, Failed} \<or> st' = Ready \<and> t_attempt t < t_max_attempts t"
  shows "act (abs_exec db) (abs_exec (lease_closed db l (close_row st reason now) t f))"
proof -
  let ?s = "abs_exec db"
  let ?db = "db\<lparr>leases := update_where (\<lambda>r. l_id r = l_id l \<and> l_state r = Held)
    (close_row st reason now) (leases db)\<rparr>"
  have l: "l \<in> set (leases db)" "l_state l = Held" and t: "t \<in> set (tickets db)" "t_state t = Leased"
    and id: "t_id t = l_ticket_id l" using pair by (auto simp: held_pair_def)
  have "wf_db ?db" using wf \<open>st \<noteq> Held\<close> by (intro wf_db_leases) (auto intro: close_row_shape)
  then have "abs_exec (lease_closed db l (close_row st reason now) t f) =
      (abs_exec ?db)\<lparr>x_tickets := (x_tickets (abs_exec ?db))(t_id t \<mapsto> abs_ticket (f t))\<rparr>"
    using abs_exec_ticket_update [of ?db t "\<lambda>r. t_state r = Leased" f] t f
    by (simp add: lease_closed_def ends_lease_def)
  also have "\<dots> = ?s\<lparr>x_tickets := (x_tickets ?s)(t_id t \<mapsto> (abs_ticket t)\<lparr>at_state := st'\<rparr>),
      x_leases := (x_leases ?s)(l_id l \<mapsto> (abs_lease l)\<lparr>al_held := False\<rparr>)\<rparr>"
    using abs_exec_lease_update [OF wf l(1), of "\<lambda>r. l_state r = Held"] l f \<open>st \<noteq> Held\<close>
    by (simp add: abs_ticket_def abs_lease_def ends_lease_def)
  finally have abs: "abs_exec (lease_closed db l (close_row st reason now) t f) =
      ?s\<lparr>x_tickets := (x_tickets ?s)(t_id t \<mapsto> (abs_ticket t)\<lparr>at_state := st'\<rparr>),
         x_leases := (x_leases ?s)(l_id l \<mapsto> (abs_lease l)\<lparr>al_held := False\<rparr>)\<rparr>" .
  have "x_leases ?s (l_id l) = Some (abs_lease l)" "x_tickets ?s (t_id t) = Some (abs_ticket t)"
    using l t lease_by_id_Some [OF wf, of "l_id l" l] ticket_by_id_Some [OF wf, of "t_id t" t]
    by (simp_all add: x_leases_abs [OF wf] x_tickets_abs [OF wf])
  then show ?thesis
    using act_close [of ?s "l_id l" "abs_lease l" "abs_ticket t" st'] l t id ok
    by (simp add: abs abs_lease_def abs_ticket_def)
qed

lemma lease_closed_refines:
  assumes "held_pair db l t" and "ends_lease f st'" and "st \<noteq> Held"
    and "st' \<in> {Succeeded, Failed} \<or> st' = Ready \<and> t_attempt t < t_max_attempts t"
  shows "refines db (lease_closed db l (close_row st reason now) t f)"
  by (rule refines_act) (use assms in \<open>auto intro: lease_closed_wf lease_closed_act\<close>)

lemmas lease_ends_refines =
  lease_closed_refines [OF _ ends_lease_rows(1)]
  lease_closed_refines [OF _ ends_lease_rows(2)]
  lease_closed_refines [OF _ ends_lease_rows(3)]

lemma close_held_Inr:
  assumes "wf_db db"
  shows "close_held_lease st reason i now db = (Inr l', db') \<longleftrightarrow> i < 2 ^ 63 \<and>
    (\<exists>l \<in> set (leases db). l_id l = i \<and> l_state l = Held \<and> l' = close_row st reason now l \<and>
      db' = db\<lparr>leases := update_where (\<lambda>r. l_id r = i \<and> l_state r = Held) (close_row st reason now) (leases db)\<rparr>)"
proof (cases "find (\<lambda>l. l_id l = i \<and> l_state l = Held) (leases db)")
  case None
  then show ?thesis
    using None [unfolded find_None_iff] by (auto simp: close_held_lease_def bind_i64_Inr Let_def)
next
  case (Some k)
  then have "l = k" if "l \<in> set (leases db)" "l_id l = i" "l_state l = Held" for l
    using that find_held [OF assms, of i l] by simp
  then show ?thesis
    using Some find_held [OF assms, of i k] by (auto simp: close_held_lease_def bind_i64_Inr Let_def)
qed

lemma rows_matching_one:
  assumes "wf_db db"
  shows "rows_matching (\<lambda>t. t_id t = i \<and> t_state t = Leased) (tickets db) = 1 \<longleftrightarrow>
    (\<exists>t \<in> set (tickets db). t_id t = i \<and> t_state t = Leased)"
  using rows_matching_key [of t_id "tickets db" i "\<lambda>t. t_state t = Leased"] wf_db_tables(2) [OF assms]
  by auto

lemma move_leased_Inr:
  assumes "wf_db db"
  shows "move_leased_ticket f i db = (Inr u, db') \<longleftrightarrow>
    (\<exists>t \<in> set (tickets db). t_id t = i \<and> t_state t = Leased) \<and>
    db' = db\<lparr>tickets := update_where (\<lambda>t. t_id t = i \<and> t_state t = Leased) f (tickets db)\<rparr>"
  using rows_matching_one [OF assms, of i] by (auto simp: move_leased_ticket_def Let_def)

lemma wf_db_close:
  "wf_db db \<Longrightarrow> st \<noteq> Held \<Longrightarrow>
     wf_db (db\<lparr>leases := update_where p (close_row st reason now) (leases db)\<rparr>)"
  by (rule wf_db_leases) (auto intro: close_row_shape)

lemma release_Inr:
  assumes "release_in_tx i result now db = (Inr l', db')" and "wf_db db"
  obtains l t where "held_pair db l t" "l_id l = i" "l' = close_row Released ReasonReleased now l"
    "db' = lease_closed db l (close_row Released ReasonReleased now) t (succeeded_row result now)"
proof -
  from assms obtain l where l: "l \<in> set (leases db)" "l_id l = i" "l_state l = Held"
    "l' = close_row Released ReasonReleased now l"
    and move: "move_leased_ticket (succeeded_row result now) (l_ticket_id l)
      (db\<lparr>leases := update_where (\<lambda>r. l_id r = i \<and> l_state r = Held)
        (close_row Released ReasonReleased now) (leases db)\<rparr>) = (Inr (), db')"
    by (auto simp: release_in_tx_def bind_tx_Inr close_held_Inr bind_i64_Inr)
  have "wf_db (db\<lparr>leases := update_where (\<lambda>r. l_id r = i \<and> l_state r = Held)
        (close_row Released ReasonReleased now) (leases db)\<rparr>)"
    using assms(2) by (rule wf_db_close) simp
  from move [unfolded move_leased_Inr [OF this]]
  obtain t where "t \<in> set (tickets db)" "t_id t = l_ticket_id l" "t_state t = Leased"
    "db' = lease_closed db l (close_row Released ReasonReleased now) t (succeeded_row result now)"
    using l(2) by (auto simp: lease_closed_def)
  with l that show thesis by (simp add: held_pair_def)
qed

lemma release_refines:
  assumes "release_in_tx i result now db = (Inr l', db')"
  shows "refines db db'"
proof (cases "wf_db db")
  case True
  with assms show ?thesis by (elim release_Inr) (auto intro!: lease_ends_refines)
qed (simp add: refines_def good_db_def)

lemma held_lease_ticket_Some:
  assumes "wf_db db"
  shows "held_lease_ticket db i = Some t \<longleftrightarrow>
    (\<exists>l \<in> set (leases db). l_id l = i \<and> l_state l = Held \<and> t \<in> set (tickets db) \<and> t_id t = l_ticket_id l)"
proof (cases "find (\<lambda>l. l_id l = i \<and> l_state l = Held) (leases db)")
  case None
  then show ?thesis
    using None [unfolded find_None_iff] by (auto simp: held_lease_ticket_def)
next
  case (Some k)
  then have "l = k" if "l \<in> set (leases db)" "l_id l = i" "l_state l = Held" for l
    using that find_held [OF assms, of i l] by simp
  then show ?thesis
    using Some find_held [OF assms, of i k]
    by (auto simp: held_lease_ticket_def ticket_by_id_Some [OF assms])
qed

text \<open>Closing the lease of the probed ticket and moving that ticket.\<close>

lemma close_and_move:
  assumes wf: "wf_db db" and "st \<noteq> Held"
    and probe: "held_lease_ticket db i = Some t"
    and close: "close_held_lease st reason i now db = (Inr l', db1)"
    and move: "move_leased_ticket f (t_id t) db1 = (Inr (), db')"
  obtains l where "held_pair db l t" "l_id l = i" "l' = close_row st reason now l"
    "db' = lease_closed db l (close_row st reason now) t f"
proof -
  from probe [unfolded held_lease_ticket_Some [OF wf]] obtain l where
    l: "l \<in> set (leases db)" "l_id l = i" "l_state l = Held" and
    t: "t \<in> set (tickets db)" "t_id t = l_ticket_id l" by blast
  from close [unfolded close_held_Inr [OF wf]] obtain k where
    k: "k \<in> set (leases db)" "l_id k = i" "l' = close_row st reason now k" and
    db1: "db1 = db\<lparr>leases := update_where (\<lambda>r. l_id r = i \<and> l_state r = Held) (close_row st reason now) (leases db)\<rparr>"
    by blast
  have "k = l" using k l wf_table_same [OF wf_db_tables(3) [OF wf]] by metis
  have "wf_db db1" unfolding db1 using wf \<open>st \<noteq> Held\<close> by (rule wf_db_close)
  from move [unfolded move_leased_Inr [OF this]] obtain r where
    "r \<in> set (tickets db)" "t_id r = t_id t" "t_state r = Leased" and
    db': "db' = lease_closed db l (close_row st reason now) t f"
    using l(2) by (auto simp: db1 lease_closed_def)
  moreover from this have "r = t" using t wf_table_same [OF wf_db_tables(2) [OF wf]] by metis
  ultimately have "held_pair db l t" using l t by (simp add: held_pair_def)
  with that l db' k \<open>k = l\<close> show thesis by blast
qed

lemma fail_Inr:
  assumes "fail_in_tx i failure now draw db = (Inr l', db')" and wf: "wf_db db"
  obtains (retry) l t where "held_pair db l t" "l_id l = i" "is_retriable failure"
    "t_attempt t < t_max_attempts t" "l' = close_row Released FailedRetriable now l"
    "db' = lease_closed db l (close_row Released FailedRetriable now) t
      (requeued_row now (now + default_backoff (t_attempt t) draw))"
  | (terminal) l t where "held_pair db l t" "l_id l = i"
    "\<not> (is_retriable failure \<and> t_attempt t < t_max_attempts t)"
    "l' = close_row Released FailedTerminal now l"
    "db' = lease_closed db l (close_row Released FailedTerminal now) t (failed_row now)"
proof -
  let ?retry = "\<lambda>t. is_retriable failure \<and> t_attempt t < t_max_attempts t"
  from assms obtain t db1 where probe: "held_lease_ticket db i = Some t"
    and close: "close_held_lease Released (if ?retry t then FailedRetriable else FailedTerminal) i now db = (Inr l', db1)"
    and move: "move_leased_ticket (if ?retry t then requeued_row now (now + default_backoff (t_attempt t) draw)
      else failed_row now) (t_id t) db1 = (Inr (), db')"
    by (auto simp: fail_in_tx_def bind_i64_Inr bind_tx_Inr Let_def release_lease_for_failure_in_tx_def
        u32_from_i64_def split: option.splits if_splits)
  show thesis
    by (rule close_and_move [OF wf _ probe close move]) (use that in \<open>cases "?retry t"; simp\<close>)+
qed

lemma fail_refines:
  assumes "fail_in_tx i failure now draw db = (Inr l', db')"
  shows "refines db db'"
proof (cases "wf_db db")
  case True
  with assms show ?thesis by (elim fail_Inr) (auto intro!: lease_ends_refines)
qed (simp add: refines_def good_db_def)

lemma force_release_Inr:
  assumes "force_release_in_tx i also_requeue now db = (Inr out, db')" and wf: "wf_db db"
  obtains l t where "held_pair db l t" "l_id l = i" "also_requeue \<longrightarrow> t_attempt t < t_max_attempts t"
    "out = \<lparr> fr_lease = close_row ForceReleased ReasonForceReleased now l, fr_ticket_requeued = also_requeue,
       fr_attempt = t_attempt t, fr_max_attempts = t_max_attempts t \<rparr>"
    "db' = lease_closed db l (close_row ForceReleased ReasonForceReleased now) t
      (if also_requeue then requeued_row now now else failed_row now)"
proof -
  from assms obtain t l' db1 where probe: "held_lease_ticket db i = Some t"
    and ok: "also_requeue \<longrightarrow> t_attempt t < t_max_attempts t"
    and close: "close_held_lease ForceReleased ReasonForceReleased i now db = (Inr l', db1)"
    and move: "move_leased_ticket (if also_requeue then requeued_row now now else failed_row now) (t_id t) db1
      = (Inr (), db')"
    and out: "out = \<lparr> fr_lease = l', fr_ticket_requeued = also_requeue,
       fr_attempt = t_attempt t, fr_max_attempts = t_max_attempts t \<rparr>"
    by (auto simp: force_release_in_tx_def bind_i64_Inr bind_tx_Inr Let_def force_release_lease_in_tx_def
        u32_from_i64_def not_le split: option.splits if_splits)
  show thesis
    by (rule close_and_move [OF wf _ probe close move]) (use that ok out in simp_all)
qed

lemma force_release_refines:
  assumes "force_release_in_tx i also_requeue now db = (Inr out, db')"
  shows "refines db db'"
proof (cases "wf_db db")
  case True
  obtain l t where pair: "held_pair db l t" "also_requeue \<longrightarrow> t_attempt t < t_max_attempts t"
    and db': "db' = lease_closed db l (close_row ForceReleased ReasonForceReleased now) t
      (if also_requeue then requeued_row now now else failed_row now)"
    using force_release_Inr [OF assms True] .
  show ?thesis unfolding db' using pair by (cases also_requeue) (simp_all add: lease_ends_refines)
qed (simp add: refines_def good_db_def)

section \<open>Refinement: expiry, heartbeat and acquisition\<close>

text \<open>The chunked prefetch is a lookup of the listed tickets.\<close>

lemma set_chunks: "0 < n \<Longrightarrow> (\<Union>c \<in> set (chunks n xs). set c) = set xs"
proof (induction n xs rule: chunks.induct)
  case (1 n xs)
  show ?case
  proof (cases "xs = []")
    case True
    then show ?thesis by (simp add: chunks.simps)
  next
    case False
    then have "(\<Union>c \<in> set (chunks n xs). set c) = set (take n xs) \<union> set (drop n xs)"
      using 1 by (simp add: chunks.simps [of n xs])
    then show ?thesis by (metis append_take_drop_id set_append)
  qed
qed

lemma fold_upd_apply:
  assumes "\<And>x y. x \<in> T \<Longrightarrow> y \<in> T \<Longrightarrow> k x = k y \<Longrightarrow> x = y" and "set rows \<subseteq> T" and "t \<in> T"
  shows "fold (\<lambda>x m. m(k x \<mapsto> v x)) rows m (k t) = (if t \<in> set rows then Some (v t) else m (k t))"
  using assms(2)
proof (induction rows arbitrary: m)
  case (Cons x rows)
  then show ?case using assms(1) [of t x] assms(3) by auto
qed simp

lemma fetch_ticket_attempts_Some:
  assumes wf: "wf_db db" and t: "t \<in> set (tickets db)"
  shows "fetch_ticket_attempts db ids (t_id t) =
    (if t_id t \<in> set ids then Some (t_attempt t, t_max_attempts t) else None)"
proof -
  let ?step = "\<lambda>chunk. fold (\<lambda>t out. out(t_id t \<mapsto> (t_attempt t, t_max_attempts t)))
         (filter (\<lambda>t. t_id t \<in> set chunk) (tickets db))"
  have one: "?step c m (t_id t) = (if t_id t \<in> set c then Some (t_attempt t, t_max_attempts t) else m (t_id t))"
    for c m
    by (subst fold_upd_apply [where T = "set (tickets db)"])
      (use t wf_table_same [OF wf_db_tables(2) [OF wf]] in auto)
  have "fold ?step cs m (t_id t) =
      (if \<exists>c \<in> set cs. t_id t \<in> set c then Some (t_attempt t, t_max_attempts t) else m (t_id t))" for cs m
    by (induction cs arbitrary: m) (auto simp: one)
  then show ?thesis
    using set_chunks [of TICKET_ATTEMPT_CHUNK ids]
    by (auto simp: fetch_ticket_attempts_def TICKET_ATTEMPT_CHUNK_def)
qed

text \<open>
  The declarative account of one batch: every lease of the batch expires, and its ticket goes back
  to the queue when attempts remain and fails otherwise.
\<close>

definition expired_ticket :: "instant \<Rightarrow> ticket \<Rightarrow> ticket" where
  "expired_ticket now t = (if t_attempt t < t_max_attempts t then requeued_row now now t else failed_row now t)"

definition batch_ticket :: "instant \<Rightarrow> lease list \<Rightarrow> ticket \<Rightarrow> ticket" where
  "batch_ticket now ls t = (if t_id t \<in> l_ticket_id ` set ls then expired_ticket now t else t)"

definition expire_leases :: "instant \<Rightarrow> lease list \<Rightarrow> db \<Rightarrow> db" where
  "expire_leases now ls db =
     db\<lparr>leases := map (\<lambda>l. if l \<in> set ls then close_row Expired IssuerLost now l else l) (leases db),
        tickets := map (batch_ticket now ls) (tickets db)\<rparr>"

definition retries :: "db \<Rightarrow> lease \<Rightarrow> bool" where
  "retries db l \<longleftrightarrow> (\<exists>t \<in> set (tickets db). t_id t = l_ticket_id l \<and> t_attempt t < t_max_attempts t)"

lemma held_pair_same:
  assumes "wf_db db" "held_pair db l t"
  shows "x \<in> set (tickets db) \<Longrightarrow> t_id x = t_id t \<Longrightarrow> x = t"
    and "y \<in> set (leases db) \<Longrightarrow> l_id y = l_id l \<Longrightarrow> y = l"
  using assms wf_table_same [OF wf_db_tables(2) [OF assms(1)]] wf_table_same [OF wf_db_tables(3) [OF assms(1)]]
  by (auto simp: held_pair_def)

lemma lease_closed_expire:
  assumes "wf_db db" "held_pair db l t"
  shows "lease_closed db l (close_row Expired IssuerLost now) t
      (if t_attempt t < t_max_attempts t then requeued_row now now else failed_row now) =
    expire_leases now [l] db"
proof -
  note same = held_pair_same [OF assms]
  have "update_where (\<lambda>r. l_id r = l_id l \<and> l_state r = Held) g (leases db) =
      map (\<lambda>r. if r = l then g r else r) (leases db)" for g
    using same(2) assms(2) by (auto simp: update_where_def held_pair_def)
  moreover have "update_where (\<lambda>r. t_id r = t_id t \<and> t_state r = Leased)
      (if t_attempt t < t_max_attempts t then requeued_row now now else failed_row now) (tickets db) =
      map (batch_ticket now [l]) (tickets db)"
    using same(1) assms(2) by (auto simp: update_where_def held_pair_def expired_ticket_def batch_ticket_def)
  ultimately show ?thesis by (simp add: lease_closed_def expire_leases_def)
qed

lemma expire_leases_refines:
  assumes "held_pair db l t"
  shows "refines db (expire_leases now [l] db)"
proof (cases "wf_db db")
  case True
  show ?thesis unfolding lease_closed_expire [OF True assms, symmetric]
    using assms by (cases "t_attempt t < t_max_attempts t") (simp_all add: lease_ends_refines)
qed (simp add: refines_def good_db_def)

definition failed_expiry_of :: "db \<Rightarrow> lease \<Rightarrow> failed_expiry" where
  "failed_expiry_of db l = (case ticket_by_id db (l_ticket_id l) of
      Some t \<Rightarrow> \<lparr> fe_lease_id = l_id l, fe_ticket_id = l_ticket_id l, fe_attempt = t_attempt t,
        fe_max_attempts = t_max_attempts t \<rparr>
    | None \<Rightarrow> \<lparr> fe_lease_id = l_id l, fe_ticket_id = l_ticket_id l, fe_attempt = 0, fe_max_attempts = 0 \<rparr>)"

definition report_add :: "db \<Rightarrow> lease list \<Rightarrow> expire_report \<Rightarrow> expire_report" where
  "report_add db ls r = \<lparr>
     er_expired_leases = er_expired_leases r @ map l_id ls,
     er_requeued_tickets = er_requeued_tickets r @ map l_ticket_id (filter (retries db) ls),
     er_failed_expiries = er_failed_expiries r @ map (failed_expiry_of db) (filter (\<lambda>l. \<not> retries db l) ls),
     er_pairs = er_pairs r @ map (\<lambda>l. (l_id l, l_ticket_id l)) ls \<rparr>"

lemma held_rows_one:
  assumes "wf_db db" "held_pair db l t"
  shows "rows_matching (\<lambda>r. l_id r = l_id l \<and> l_state r = Held) (leases db) = 1"
  using rows_matching_key [of l_id "leases db" "l_id l" "\<lambda>r. l_state r = Held"] wf_db_tables(3) [OF assms(1)] assms(2)
  by (auto simp: held_pair_def)

lemma retries_pair:
  assumes "wf_db db" "held_pair db l t"
  shows "retries db l \<longleftrightarrow> t_attempt t < t_max_attempts t"
  using held_pair_same(1) [OF assms] assms(2) by (auto simp: retries_def held_pair_def)

lemma failed_expiry_pair:
  assumes "wf_db db" "held_pair db l t"
  shows "failed_expiry_of db l = \<lparr> fe_lease_id = l_id l, fe_ticket_id = l_ticket_id l,
    fe_attempt = t_attempt t, fe_max_attempts = t_max_attempts t \<rparr>"
  using assms ticket_by_id_Some [OF assms(1), of "l_ticket_id l" t]
  by (simp add: failed_expiry_of_def held_pair_def)

lemma process_expired_lease_eq:
  assumes wf: "wf_db db" and pair: "held_pair db l t"
    and att: "att (l_ticket_id l) = Some (t_attempt t, t_max_attempts t)"
    and le: "t_attempt t \<le> t_max_attempts t"
  shows "process_expired_lease (l_id l) (l_ticket_id l) att now r db =
    (if retries db l \<or> t_max_attempts t < 2 ^ 32 then Inr (report_add db [l] r) else Inl Database,
     expire_leases now [l] db)"
proof -
  let ?db1 = "db\<lparr>leases := update_where (\<lambda>r. l_id r = l_id l \<and> l_state r = Held)
    (close_row Expired IssuerLost now) (leases db)\<rparr>"
  have wf1: "wf_db ?db1" using wf by (rule wf_db_close) simp
  have t: "t \<in> set (tickets db)" "t_id t = l_ticket_id l" "t_state t = Leased"
    using pair by (auto simp: held_pair_def)
  have move: "move_leased_ticket f (l_ticket_id l) ?db1 =
      (Inr (), lease_closed db l (close_row Expired IssuerLost now) t f)" for f
    using t by (subst move_leased_Inr [OF wf1]) (auto simp: lease_closed_def)
  note eqs = lease_closed_expire [OF wf pair] retries_pair [OF wf pair] failed_expiry_pair [OF wf pair]
  show ?thesis
  proof (cases "t_attempt t < t_max_attempts t")
    case True
    then show ?thesis
      using eqs by (simp add: process_expired_lease_def Let_def held_rows_one [OF wf pair, simplified] att bind_tx_def move
          return_tx_def report_add_def)
  next
    case False
    then show ?thesis
      using eqs le by (simp add: process_expired_lease_def Let_def held_rows_one [OF wf pair, simplified] att bind_tx_def move
          return_tx_def report_add_def lift_res_def u32_from_i64_def)
  qed
qed

lemma good_held_pair:
  assumes good: "good_db db" and l: "l \<in> set (leases db)" "l_state l = Held"
  obtains t where "held_pair db l t" "t_attempt t \<le> t_max_attempts t"
proof -
  have wf: "wf_db db" using good by blast
  have "held (abs_exec db) (l_id l) (l_ticket_id l)"
    using l lease_by_id_Some [OF wf, of "l_id l" l]
    by (simp add: held_def x_leases_abs [OF wf] abs_lease_def)
  then have "has_state (abs_exec db) (l_ticket_id l) Leased"
    using good by (auto simp: good_db_def exec_inv_def inv_leases_def)
  then obtain t where t: "ticket_by_id db (l_ticket_id l) = Some t" "t_state t = Leased"
    by (auto simp: has_state_def x_tickets_abs [OF wf] abs_ticket_def)
  then have "x_tickets (abs_exec db) (l_ticket_id l) = Some (abs_ticket t)" by (simp add: x_tickets_abs [OF wf])
  then have "at_attempt (abs_ticket t) \<le> at_max (abs_ticket t)"
    using good unfolding good_db_def exec_inv_def inv_attempts_def by blast
  with that [of t] t l show thesis by (simp add: held_pair_def ticket_by_id_Some [OF wf] abs_ticket_def)
qed

text \<open>A ticket has at most one held lease.\<close>

lemma good_held_unique:
  assumes good: "good_db db" and "l \<in> set (leases db)" "l_state l = Held"
    and "k \<in> set (leases db)" "l_state k = Held" and same: "l_ticket_id l = l_ticket_id k"
  shows "l = k"
proof -
  have wf: "wf_db db" using good by blast
  have "held (abs_exec db) (l_id x) (l_ticket_id x)" if "x \<in> set (leases db)" "l_state x = Held" for x
    using that lease_by_id_Some [OF wf, of "l_id x" x]
    by (simp add: held_def x_leases_abs [OF wf] abs_lease_def)
  then have "l_id l = l_id k"
    using assms unfolding good_db_def exec_inv_def inv_leases_def by metis
  then show ?thesis using assms wf_table_same [OF wf_db_tables(3) [OF wf]] by blast
qed

lemma expired_ticket_fields [simp]:
  "t_id (expired_ticket now t) = t_id t" "t_attempt (expired_ticket now t) = t_attempt t"
  "t_max_attempts (expired_ticket now t) = t_max_attempts t"
  by (simp_all add: expired_ticket_def requeued_row_def failed_row_def)

lemma batch_ticket_fields [simp]:
  "t_id (batch_ticket now ls t) = t_id t" "t_attempt (batch_ticket now ls t) = t_attempt t"
  "t_max_attempts (batch_ticket now ls t) = t_max_attempts t"
  by (simp_all add: batch_ticket_def)

lemma batch_ticket_Nil [simp]: "map (batch_ticket now []) ts = ts"
  by (rule map_idI) (simp add: batch_ticket_def)

lemma retries_expire [simp]: "retries (expire_leases now ls db) = retries db"
  by (rule ext) (simp add: retries_def expire_leases_def)

lemma find_map_same:
  assumes "\<And>x. p (f x) = p x"
  shows "find p (map f xs) = map_option f (find p xs)"
  using assms by (induction xs) auto

lemma failed_expiry_expire [simp]: "failed_expiry_of (expire_leases now ls db) = failed_expiry_of db"
  by (rule ext)
    (auto simp: failed_expiry_of_def expire_leases_def ticket_by_id_def find_map_same split: option.split)

lemma report_add_expire [simp]: "report_add (expire_leases now ls db) = report_add db"
  by (intro ext) (simp add: report_add_def)

lemma report_add_Cons: "report_add db ls (report_add db [l] r) = report_add db (l # ls) r"
  by (simp add: report_add_def)

lemma expire_leases_Cons:
  assumes "l \<notin> set ls" "\<forall>k \<in> set ls. l_state k = Held" "l_ticket_id l \<notin> l_ticket_id ` set ls"
  shows "expire_leases now ls (expire_leases now [l] db) = expire_leases now (l # ls) db"
proof -
  have "close_row Expired IssuerLost now l \<notin> set ls" using assms(2) by force
  then show ?thesis
    using assms by (auto simp: expire_leases_def batch_ticket_def)
qed

lemma expire_loop_eq:
  assumes "good_db db" and "set ls \<subseteq> set (leases db)" and "\<forall>l \<in> set ls. l_state l = Held" and "distinct ls"
    and "\<And>t. t \<in> set (tickets db) \<Longrightarrow> t_id t \<in> l_ticket_id ` set ls \<Longrightarrow>
      att (t_id t) = Some (t_attempt t, t_max_attempts t)"
    and "expire_loop (map (\<lambda>l. (l_id l, l_ticket_id l)) ls) att now r db = (out, db')"
  shows "((\<forall>t \<in> set (tickets db). t_max_attempts t < 2 ^ 32) \<longrightarrow> (\<exists>x. out = Inr x)) \<and>
    (\<forall>x. out = Inr x \<longrightarrow> x = report_add db ls r \<and> db' = expire_leases now ls db \<and> refines db db')"
  using assms
proof (induction ls arbitrary: db r)
  case Nil
  then show ?case by (auto simp: return_tx_def report_add_def expire_leases_def)
next
  case (Cons l ls)
  have wf: "wf_db db" using Cons.prems(1) by blast
  obtain t where pair: "held_pair db l t" and le: "t_attempt t \<le> t_max_attempts t"
    using good_held_pair [OF Cons.prems(1), of l] Cons.prems(2,3) by auto
  have t: "t \<in> set (tickets db)" "t_id t = l_ticket_id l" using pair by (auto simp: held_pair_def)
  let ?db = "expire_leases now [l] db"
  have "att (l_ticket_id l) = Some (t_attempt t, t_max_attempts t)"
    using Cons.prems(5) [OF t(1)] t(2) by simp
  note step = process_expired_lease_eq [of db l t att, OF wf pair this le, of now r]
  note ref = expire_leases_refines [OF pair, of now]
  have good: "good_db ?db" using refines_good [OF ref Cons.prems(1)] .
  have "l_ticket_id l \<noteq> l_ticket_id k" if k: "k \<in> set ls" for k
  proof
    assume eq: "l_ticket_id l = l_ticket_id k"
    have "l = k" by (rule good_held_unique [OF Cons.prems(1) _ _ _ _ eq]) (use Cons.prems(2,3) k in auto)
    then show False using Cons.prems(4) k by simp
  qed
  then have other: "l_ticket_id l \<notin> l_ticket_id ` set ls" by blast
  have kept: "set ls \<subseteq> set (leases ?db)"
  proof
    fix k assume "k \<in> set ls"
    then have "k \<in> set (leases db)" "k \<noteq> l" using Cons.prems(2,4) by auto
    then show "k \<in> set (leases ?db)" by (auto simp: expire_leases_def)
  qed
  have max: "(\<forall>t \<in> set (tickets ?db). t_max_attempts t < 2 ^ 32) \<longleftrightarrow> (\<forall>t \<in> set (tickets db). t_max_attempts t < 2 ^ 32)"
    by (auto simp: expire_leases_def)
  have att: "att (t_id x) = Some (t_attempt x, t_max_attempts x)"
    if "x \<in> set (tickets ?db)" "t_id x \<in> l_ticket_id ` set ls" for x
  proof -
    from that(1) obtain y where "y \<in> set (tickets db)" "x = batch_ticket now [l] y"
      by (auto simp: expire_leases_def)
    then show ?thesis using Cons.prems(5) [of y] that(2) by simp
  qed
  show ?case
  proof (cases "retries db l \<or> t_max_attempts t < 2 ^ 32")
    case True
    then have rest: "expire_loop (map (\<lambda>l. (l_id l, l_ticket_id l)) ls) att now (report_add db [l] r) ?db = (out, db')"
      using Cons.prems(6) step by (simp add: bind_tx_def)
    have held: "\<forall>l \<in> set ls. l_state l = Held" and dist: "distinct ls" using Cons.prems(3,4) by simp_all
    have "((\<forall>t \<in> set (tickets ?db). t_max_attempts t < 2 ^ 32) \<longrightarrow> (\<exists>x. out = Inr x)) \<and>
      (\<forall>x. out = Inr x \<longrightarrow> x = report_add ?db ls (report_add db [l] r) \<and>
        db' = expire_leases now ls ?db \<and> refines ?db db')"
      by (rule Cons.IH [OF good kept held dist _ rest]) (rule att)
    then have ih: "((\<forall>t \<in> set (tickets db). t_max_attempts t < 2 ^ 32) \<longrightarrow> (\<exists>x. out = Inr x)) \<and>
      (\<forall>x. out = Inr x \<longrightarrow> x = report_add db (l # ls) r \<and> db' = expire_leases now ls ?db \<and> refines ?db db')"
      unfolding max report_add_expire report_add_Cons .
    moreover have "expire_leases now ls ?db = expire_leases now (l # ls) db"
      using Cons.prems(3,4) other by (intro expire_leases_Cons) auto
    ultimately show ?thesis using ih refines_trans [OF ref] by metis
  next
    case False
    then show ?thesis using Cons.prems(6) step t by (auto simp: bind_tx_def)
  qed
qed

definition expiry_batch :: "instant \<Rightarrow> db \<Rightarrow> lease list" where
  "expiry_batch now db = take LEASE_BATCH_LIMIT (filter (overdue now) (leases db))"

lemma expire_due_eq:
  assumes good: "good_db db" and run: "expire_due_in_tx now db = (out, db')"
  defines "ls \<equiv> expiry_batch now db"
  shows "((\<forall>t \<in> set (tickets db). t_max_attempts t < 2 ^ 32) \<longrightarrow> (\<exists>x. out = Inr x)) \<and>
    (\<forall>x. out = Inr x \<longrightarrow> x = report_add db ls empty_report \<and> db' = expire_leases now ls db \<and> refines db db')"
proof (rule expire_loop_eq [OF good])
  have wf: "wf_db db" using good by blast
  let ?att = "fetch_ticket_attempts db (map l_ticket_id ls)"
  have sub: "set ls \<subseteq> set (filter (overdue now) (leases db))"
    unfolding ls_def expiry_batch_def by (rule set_take_subset)
  then show "set ls \<subseteq> set (leases db)" "\<forall>l \<in> set ls. l_state l = Held" by (auto simp: overdue_def)
  show "distinct ls"
    using wf_table_distinct [OF wf_db_tables(3) [OF wf]]
    by (auto simp: ls_def expiry_batch_def distinct_map)
  have "sort_key l_id (filter (overdue now) (leases db)) = filter (overdue now) (leases db)"
    by (intro wf_table_sort_key wf_table_filter wf_db_tables wf)
  then show "expire_loop (map (\<lambda>l. (l_id l, l_ticket_id l)) ls) ?att now empty_report db = (out, db')"
    using run by (simp add: expire_due_in_tx_def Let_def ls_def expiry_batch_def comp_def)
  show "?att (t_id t) = Some (t_attempt t, t_max_attempts t)"
    if "t \<in> set (tickets db)" "t_id t \<in> l_ticket_id ` set ls" for t
    using that fetch_ticket_attempts_Some [OF wf that(1)] by simp
qed

lemma expire_due_refines:
  assumes "expire_due_in_tx now db = (Inr r, db')"
  shows "refines db db'"
proof (cases "good_db db")
  case True
  from expire_due_eq [OF True assms] show ?thesis by blast
qed (simp add: refines_def)

lemma heartbeat_row_fields [simp]:
  "l_id (heartbeat_row ttl now l) = l_id l" "l_state (heartbeat_row ttl now l) = l_state l"
  "l_ticket_id (heartbeat_row ttl now l) = l_ticket_id l"
  by (simp_all add: heartbeat_row_def)

lemma heartbeat_Inr:
  assumes "heartbeat_in_tx i ttl now db = (Inr l', db')" and wf: "wf_db db"
  obtains l where "l \<in> set (leases db)" "l_id l = i" "l_state l = Held" "now < l_expires_at l"
    "l' = heartbeat_row ttl now l" "i < 2 ^ 63"
    "db' = db\<lparr>leases := update_where (\<lambda>r. l_id r = i \<and> l_state r = Held \<and> now < l_expires_at r)
       (heartbeat_row ttl now) (leases db)\<rparr>"
proof -
  let ?p = "\<lambda>r. l_id r = i \<and> l_state r = Held \<and> now < l_expires_at r"
  let ?db = "db\<lparr>leases := update_where ?p (heartbeat_row ttl now) (leases db)\<rparr>"
  from assms obtain l where l: "l \<in> set (leases db)" "?p l" and db': "db' = ?db" and i: "i < 2 ^ 63"
    and found: "lease_by_id ?db i = Some l'"
    by (auto simp: heartbeat_in_tx_def bind_i64_Inr Let_def bind_tx_Inr split: if_splits option.splits)
  have "wf_db ?db" using wf by (rule wf_db_leases) (auto simp: lease_shape_def heartbeat_row_def)
  moreover have "heartbeat_row ttl now l \<in> set (leases ?db)"
    using l by (auto simp: update_where_def intro!: rev_image_eqI [of l])
  ultimately have "l' = heartbeat_row ttl now l"
    using found l lease_by_id_Some [of ?db i "heartbeat_row ttl now l"] by simp
  with that l db' i show thesis by blast
qed

lemma heartbeat_refines:
  assumes "heartbeat_in_tx i ttl now db = (Inr l', db')"
  shows "refines db db'"
proof (rule refines_same)
  show "wf_db db'" if wf: "wf_db db"
    using assms that
    by (elim heartbeat_Inr) (auto intro!: wf_db_leases simp: lease_shape_def heartbeat_row_def)
  have "leases db' = update_where (\<lambda>r. l_id r = i \<and> l_state r = Held \<and> now < l_expires_at r)
       (heartbeat_row ttl now) (leases db)" "tickets db' = tickets db"
    "ticket_dependencies db' = ticket_dependencies db"
    using assms by (auto simp: heartbeat_in_tx_def bind_i64_Inr Let_def bind_tx_Inr split: if_splits option.splits)
  moreover have "table_map l_id abs_lease (update_where p (heartbeat_row ttl now) ls) = table_map l_id abs_lease ls" for p ls
    by (rule table_map_same) (simp_all add: update_where_def abs_lease_def)
  ultimately show "abs_exec db' = abs_exec db" by (simp add: abs_exec_def)
qed

text \<open>The classification of an ineligible worker is complete.\<close>

lemma ineligibility_None_iff: "ineligibility_reason e = None \<longleftrightarrow> is_eligible e"
proof -
  have "worker_accepts_new_work kind status \<longleftrightarrow>
      \<not> (kind = worker_kind.Remote \<and> status = worker_status.Registered) \<and>
      status \<noteq> worker_status.Stale \<and> status \<noteq> worker_status.Retired" for kind status
    by (cases kind; cases status) simp_all
  then show ?thesis
    by (auto simp: ineligibility_reason_def is_eligible_def split: option.splits)
qed

definition acquired_row :: "db \<Rightarrow> new_lease \<Rightarrow> lease" where
  "acquired_row db input = \<lparr> l_id = next_rowid l_id (leases db), l_ticket_id = nle_ticket_id input,
     l_worker_id = nle_worker_id input, l_state = Held, l_acquired_at = nle_now input,
     l_expires_at = nle_now input + nle_ttl input, l_last_heartbeat_at = nle_now input,
     l_ttl_seconds = whole_seconds (nle_ttl input), l_release_reason = None, l_released_at = None, l_epoch = 0 \<rparr>"

definition acquired_db :: "db \<Rightarrow> new_lease \<Rightarrow> db" where
  "acquired_db db input = db\<lparr>
     tickets := update_where (may_lease db (nle_ticket_id input) (nle_now input)) (leased_row (nle_now input)) (tickets db),
     leases := leases db @ [acquired_row db input]\<rparr>"

lemma insert_lease_Inr:
  assumes "insert_lease input (whole_seconds (nle_ttl input)) db = (Inr l, db')"
    and "wf_table l_id (leases db)"
  shows "l = acquired_row db input \<and> db' = db\<lparr>leases := leases db @ [acquired_row db input]\<rparr> \<and>
    0 < whole_seconds (nle_ttl input) \<and> worker_by_id db (nle_worker_id input) \<noteq> None"
proof -
  have "wf_table l_id (leases db @ [acquired_row db input])"
    using assms(2) by (rule wf_table_insert) (simp add: acquired_row_def)
  then have "find (\<lambda>r. l_id r = next_rowid l_id (leases db)) (leases db @ [acquired_row db input]) =
      Some (acquired_row db input)"
    by (simp add: find_id acquired_row_def)
  with assms(1) show ?thesis
    by (auto simp: insert_lease_def bind_i64_Inr Let_def bind_tx_Inr lease_by_id_def acquired_row_def
        split: if_splits option.splits)
qed

lemma lease_to_worker_Inr:
  assumes "lease_to_worker input ttl op db = (Inr (Acquired l), db')"
  obtains e c where "operation_eligibility_in_tx (nle_worker_id input) op db = (Inr e, db)"
    "ineligibility_reason e = None"
    "operation_capacity_in_tx (nle_worker_id input) op db = (Inr c, db)" "has_capacity c"
    "insert_lease input ttl db = (Inr l, db')"
proof -
  from assms obtain e d1 c d2 where
    e: "operation_eligibility_in_tx (nle_worker_id input) op db = (Inr e, d1)" "ineligibility_reason e = None"
    and c: "operation_capacity_in_tx (nle_worker_id input) op d1 = (Inr c, d2)" "has_capacity c"
    and ins: "insert_lease input ttl d2 = (Inr l, db')"
    by (auto simp: lease_to_worker_def bind_tx_Inr split: option.splits if_splits)
  have "d1 = db" using eligibility_Inr [OF e(1)] by blast
  moreover have "d2 = d1" using capacity_Inr [OF c(1)] .
  ultimately show thesis using that e c ins by simp
qed

lemma acquire_Inr:
  assumes "try_acquire_in_tx input db = (Inr (Acquired l), db')" and wf: "wf_db db"
  obtains t e c where "ticket_by_id db (nle_ticket_id input) = Some t"
    "may_lease db (nle_ticket_id input) (nle_now input) t"
    "\<not> unknown_namespaced (normalize (t_kind t))"
    "operation_eligibility_in_tx (nle_worker_id input) (matching_token (normalize (t_kind t)))
       (db\<lparr>tickets := tickets (acquired_db db input)\<rparr>) = (Inr e, db\<lparr>tickets := tickets (acquired_db db input)\<rparr>)"
    "is_eligible e"
    "operation_capacity_in_tx (nle_worker_id input) (matching_token (normalize (t_kind t)))
       (db\<lparr>tickets := tickets (acquired_db db input)\<rparr>) = (Inr c, db\<lparr>tickets := tickets (acquired_db db input)\<rparr>)"
    "has_capacity c" "l = acquired_row db input" "db' = acquired_db db input"
    "0 < whole_seconds (nle_ttl input)"
proof -
  let ?i = "nle_ticket_id input" and ?w = "nle_worker_id input"
  let ?p = "may_lease db ?i (nle_now input)"
  let ?db = "db\<lparr>tickets := update_where ?p (leased_row (nle_now input)) (tickets db)\<rparr>"
  from assms(1) have ttl: "0 < whole_seconds (nle_ttl input)"
    and "acquire_guarded input (whole_seconds (nle_ttl input)) db = (Inr (Acquired l), db')"
    by (auto simp: try_acquire_in_tx_def Let_def split: if_splits prod.splits sum.splits lease_acquire_outcome.splits)
  then obtain t where t: "ticket_by_id db ?i = Some t" and known: "\<not> unknown_namespaced (normalize (t_kind t))"
    and rows: "\<exists>r \<in> set (tickets db). ?p r"
    and rest: "lease_to_worker input (whole_seconds (nle_ttl input)) (matching_token (normalize (t_kind t))) ?db
      = (Inr (Acquired l), db')"
    by (auto simp: acquire_guarded_def bind_tx_Inr ticket_get_in_tx_def bind_i64_Inr Let_def
        split: option.splits if_splits)
  from rows obtain r where r: "r \<in> set (tickets db)" "?p r" by blast
  then have "r = t" using t wf_table_same [OF wf_db_tables(2) [OF wf]] ticket_by_id_Some [OF wf]
    by (metis may_lease_def)
  with r have may: "?p t" by simp
  from rest obtain e c where e: "operation_eligibility_in_tx ?w (matching_token (normalize (t_kind t))) ?db = (Inr e, ?db)"
    and el: "ineligibility_reason e = None"
    and c: "operation_capacity_in_tx ?w (matching_token (normalize (t_kind t))) ?db = (Inr c, ?db)" "has_capacity c"
    and ins: "insert_lease input (whole_seconds (nle_ttl input)) ?db = (Inr l, db')"
    by (rule lease_to_worker_Inr)
  have row: "acquired_row ?db input = acquired_row db input" by (simp add: acquired_row_def)
  show thesis
  proof (rule that [OF t may known _ _ _ c(2)])
    show "operation_eligibility_in_tx ?w (matching_token (normalize (t_kind t)))
       (db\<lparr>tickets := tickets (acquired_db db input)\<rparr>) = (Inr e, db\<lparr>tickets := tickets (acquired_db db input)\<rparr>)"
      and "operation_capacity_in_tx ?w (matching_token (normalize (t_kind t)))
       (db\<lparr>tickets := tickets (acquired_db db input)\<rparr>) = (Inr c, db\<lparr>tickets := tickets (acquired_db db input)\<rparr>)"
      using e c by (simp_all add: acquired_db_def)
    show "is_eligible e" using el by (simp add: ineligibility_None_iff)
    show "l = acquired_row db input" "db' = acquired_db db input"
      using insert_lease_Inr [OF ins] wf_db_tables(3) [OF wf] row by (simp_all add: acquired_db_def)
    show "0 < whole_seconds (nle_ttl input)" by (rule ttl)
  qed
qed

lemma leased_row_fields [simp]:
  "t_id (leased_row now t) = t_id t" "t_kind (leased_row now t) = t_kind t"
  by (simp_all add: leased_row_def)

lemma acquired_db_wf:
  assumes wf: "wf_db db" and ttl: "0 < whole_seconds (nle_ttl input)"
  shows "wf_db (acquired_db db input)"
proof -
  have "wf_db (db\<lparr>tickets := tickets (acquired_db db input)\<rparr>)"
    unfolding acquired_db_def
    using wf by (simp, intro wf_db_tickets) (auto simp: wf_db_def may_lease_def leased_row_def)
  moreover have "wf_table l_id (leases db @ [acquired_row db input])"
    using wf_db_tables(3) [OF wf] by (rule wf_table_insert) (simp add: acquired_row_def)
  moreover have "lease_shape (acquired_row db input)" using ttl by (simp add: lease_shape_def acquired_row_def)
  ultimately show ?thesis by (auto simp: wf_db_def acquired_db_def)
qed

lemma acquire_refines:
  assumes "try_acquire_in_tx input db = (Inr (Acquired l), db')"
  shows "refines db db'"
proof (rule refines_act)
  assume "good_db db"
  then have wf: "wf_db db" by blast
  let ?i = "nle_ticket_id input"
  from acquire_Inr [OF assms wf] obtain t where t: "ticket_by_id db ?i = Some t"
    and may: "may_lease db ?i (nle_now input) t" and db': "db' = acquired_db db input"
    and ttl: "0 < whole_seconds (nle_ttl input)" by metis
  show "wf_db db'" unfolding db' using wf ttl by (rule acquired_db_wf)
  have in_t: "t \<in> set (tickets db)" "t_id t = ?i" using t ticket_by_id_Some [OF wf] by auto
  let ?q = "\<lambda>r. t_state r = Ready \<and> t_next_eligible_at r \<le> nle_now input \<and>
     t_attempt r < t_max_attempts r \<and> job_allows db r"
  have "may_lease db ?i (nle_now input) = (\<lambda>r. t_id r = t_id t \<and> ?q r)"
    by (rule ext) (simp add: may_lease_def in_t)
  then have tickets: "x_tickets (abs_exec db') = (x_tickets (abs_exec db))(?i \<mapsto> abs_ticket (leased_row (nle_now input) t))"
    using abs_exec_ticket_update [OF wf in_t(1), of ?q "leased_row (nle_now input)"] may in_t(2)
    by (simp add: db' acquired_db_def abs_exec_def may_lease_def)
  have leases: "x_leases (abs_exec db') = (x_leases (abs_exec db))
      (next_rowid l_id (leases db) \<mapsto> \<lparr>al_ticket = ?i, al_held = True\<rparr>)"
    using table_map_next_rowid [of l_id "acquired_row db input" "leases db" abs_lease]
    by (simp add: db' acquired_db_def abs_exec_def acquired_row_def abs_lease_def)
  have "abs_exec db' = (abs_exec db)\<lparr>
      x_tickets := (x_tickets (abs_exec db))(?i \<mapsto> abs_ticket (leased_row (nle_now input) t)),
      x_leases := (x_leases (abs_exec db))(next_rowid l_id (leases db) \<mapsto> \<lparr>al_ticket = ?i, al_held = True\<rparr>)\<rparr>"
    using tickets leases by (simp add: abs_exec_def db' acquired_db_def)
  moreover have "x_leases (abs_exec db) (next_rowid l_id (leases db)) = None"
    using next_rowid_fresh [where key = l_id and rows = "leases db"]
    by (simp add: abs_exec_def table_map_None) (metis less_irrefl)
  ultimately show "act (abs_exec db) (abs_exec db')"
    using act_acquire [of "abs_exec db" ?i "abs_ticket t" "next_rowid l_id (leases db)"] t may
    by (simp add: x_tickets_abs [OF wf] abs_ticket_def leased_row_def may_lease_def)
qed

section \<open>Properties of the lease repository\<close>

lemma operation_eligibility_tickets:
  "fst (operation_eligibility_in_tx i op (db\<lparr>tickets := ts\<rparr>)) = fst (operation_eligibility_in_tx i op db)"
proof -
  have "row_to_worker (db\<lparr>tickets := ts\<rparr>) = row_to_worker db" by (rule ext) (rule row_to_worker_cong, simp)
  then show ?thesis
    by (simp add: operation_eligibility_in_tx_def bind_tx_def worker_get_in_tx_def bind_i64_apply read_tx_def
        worker_by_id_def capability_rows_def grant_rows_def Let_def split: option.split sum.split)
qed

lemma rows_matching_snoc: "rows_matching p (xs @ [x]) = rows_matching p xs + (if p x then 1 else 0)"
  by (simp add: rows_matching_def)

lemma granted_after_acquire:
  assumes "max_parallel_in_tx i op db = (Inr n, db)"
  shows "max_parallel_in_tx i op (db\<lparr>leases := ls\<rparr>) = (Inr n, db\<lparr>leases := ls\<rparr>)" "n < 2 ^ 32"
  using assms max_parallel_limit [OF assms]
  by (auto simp: max_parallel_in_tx_def bind_i64_apply grant_rows_def split: sum.splits if_splits)

lemma accelerator_after_acquire:
  fixes l :: lease
  assumes "accelerator_operation_capacity i db = (Inr r, db)"
  defines "db' \<equiv> db\<lparr>leases := leases db @ [l]\<rparr>"
  shows "r = None \<and> accelerator_operation_capacity i db' = (Inr None, db') \<or>
    (\<exists>c. r = Some c \<and> (has_capacity c \<longrightarrow> (\<exists>c'. accelerator_operation_capacity i db' = (Inr (Some c'), db') \<and>
      oc_max_parallel c' = oc_max_parallel c \<and> oc_active_leases c' \<le> oc_max_parallel c')))"
proof -
  let ?find = "find (\<lambda>c. case json_get (cap_extra c) ''accelerator'' of Some (JObject _) \<Rightarrow> True | _ \<Rightarrow> False)
    (capability_rows db i TRANSCODE_VIDEO_TOKENS)"
  have same: "capability_rows db' = capability_rows db" "device_session_limit db' = device_session_limit db"
    by (intro ext; simp add: db'_def capability_rows_def device_session_limit_def)+
  have active: "device_active_leases db' token \<le> device_active_leases db token + 1" for token
    by (simp add: db'_def device_active_leases_def rows_matching_snoc held_lease_of_kind_def)
  show ?thesis
  proof (cases ?find)
    case None
    then show ?thesis using assms(1) same
      by (simp add: accelerator_operation_capacity_def bind_i64_apply split: if_splits)
  next
    case (Some c)
    with assms(1) obtain token limit where tok: "device_token c = Some token"
      and lim: "device_session_limit db token = Some limit" "0 \<le> limit" "limit < 2 ^ 32" and i: "i < 2 ^ 63"
      and r: "r = Some \<lparr> oc_active_leases = device_active_leases db token, oc_max_parallel = nat limit \<rparr>"
      by (auto simp: accelerator_operation_capacity_def bind_i64_Inr bind_tx_Inr u32_from_i64_def
          split: option.splits if_splits)
    have "accelerator_operation_capacity i db' = (Inr (Some \<lparr> oc_active_leases = device_active_leases db' token,
        oc_max_parallel = nat limit \<rparr>), db')" if "device_active_leases db token < nat limit"
      using Some same tok lim i that active [of token]
      by (simp add: accelerator_operation_capacity_def bind_i64_apply u32_from_i64_def return_tx_def)
    then show ?thesis using r active [of token] by (auto simp: has_capacity_def)
  qed
qed

lemma granted_capacity_after_acquire:
  fixes l :: lease
  assumes g: "granted_capacity i op db = (Inr c, db)" and cap: "has_capacity c"
  defines "db' \<equiv> db\<lparr>leases := leases db @ [l]\<rparr>"
  shows "\<exists>c'. granted_capacity i op db' = (Inr c', db') \<and>
    oc_max_parallel c' = oc_max_parallel c \<and> oc_active_leases c' \<le> oc_max_parallel c'"
proof -
  let ?token = "matching_token (normalize op)"
  have active: "worker_active_leases db' i op \<le> worker_active_leases db i op + 1"
    by (simp add: db'_def worker_active_leases_def rows_matching_snoc held_lease_of_kind_def)
  from g obtain n where n: "max_parallel_in_tx i ?token db = (Inr n, db)" and i: "i < 2 ^ 63"
    and c: "c = \<lparr> oc_active_leases = worker_active_leases db i op, oc_max_parallel = n \<rparr>"
    by (auto simp: granted_capacity_def bind_i64_Inr bind_tx_Inr u32_from_i64_def split: if_splits)
  have le: "worker_active_leases db' i op \<le> n" using cap c active by (simp add: has_capacity_def)
  have "max_parallel_in_tx i ?token db' = (Inr n, db')" "n < 2 ^ 32"
    unfolding db'_def using granted_after_acquire [OF n] by simp_all
  with le i have "granted_capacity i op db' =
      (Inr \<lparr> oc_active_leases = worker_active_leases db' i op, oc_max_parallel = n \<rparr>, db')"
    by (simp add: granted_capacity_def bind_i64_apply u32_from_i64_def bind_tx_def return_tx_def lift_res_def)
  then show ?thesis using c le by simp
qed

lemma capacity_after_acquire:
  fixes l :: lease
  assumes cap: "operation_capacity_in_tx i op db = (Inr c, db)" "has_capacity c"
  defines "db' \<equiv> db\<lparr>leases := leases db @ [l]\<rparr>"
  shows "\<exists>c'. operation_capacity_in_tx i op db' = (Inr c', db') \<and>
    oc_max_parallel c' = oc_max_parallel c \<and> oc_active_leases c' \<le> oc_max_parallel c'"
proof (cases "matching_token (normalize op) = operation_kind_as_str TranscodeVideo")
  case True
  from cap(1) True obtain r where acc: "accelerator_operation_capacity i db = (Inr r, db)"
    and r: "(case r of Some c' \<Rightarrow> return_tx c' | None \<Rightarrow> granted_capacity i op) db = (Inr c, db)"
    by (auto simp: operation_capacity_in_tx_def bind_tx_Inr dest: accelerator_capacity_Inr)
  from accelerator_after_acquire [OF acc, of l, folded db'_def]
  show ?thesis
  proof
    assume "r = None \<and> accelerator_operation_capacity i db' = (Inr None, db')"
    then show ?thesis
      using granted_capacity_after_acquire [of i op db c l, folded db'_def] r cap(2) True
      by (simp add: operation_capacity_in_tx_def bind_tx_def)
  next
    assume "\<exists>c. r = Some c \<and> (has_capacity c \<longrightarrow> (\<exists>c'. accelerator_operation_capacity i db' = (Inr (Some c'), db') \<and>
      oc_max_parallel c' = oc_max_parallel c \<and> oc_active_leases c' \<le> oc_max_parallel c'))"
    then obtain c' where "accelerator_operation_capacity i db' = (Inr (Some c'), db')"
      "oc_max_parallel c' = oc_max_parallel c" "oc_active_leases c' \<le> oc_max_parallel c'"
      using r cap(2) by auto
    then show ?thesis using True by (simp add: operation_capacity_in_tx_def bind_tx_def return_tx_def)
  qed
next
  case False
  then show ?thesis
    using granted_capacity_after_acquire [of i op db c l, folded db'_def] cap
    by (simp add: operation_capacity_in_tx_def)
qed


text \<open>
  C15. An acquisition attempt that does not end with an acquired lease, whether it is refused or
  fails with an error, leaves the store exactly as it was: the provisional transition of the
  ticket is rolled back.
\<close>

theorem rejected_acquire_changes_nothing:
  assumes "try_acquire_in_tx input db = (r, db')" and "\<And>l. r \<noteq> Inr (Acquired l)"
  shows "db' = db"
  using assms
  by (auto simp: try_acquire_in_tx_def Let_def split: if_splits prod.splits sum.splits lease_acquire_outcome.splits)

text \<open>
  A heartbeat succeeds exactly for a held lease whose deadline has not passed. It never moves
  the deadline backwards, extends it to at least now plus the requested time, and until then no
  expiry run takes the lease; in every other case the answer is Conflict and nothing changes.
\<close>

theorem heartbeat_outcome:
  assumes good: "good_db db" and i: "i < 2 ^ 63"
  shows "(\<forall>l \<in> set (leases db). l_id l = i \<and> l_state l = Held \<and> now < l_expires_at l \<longrightarrow>
      (\<exists>l' db'. lease_heartbeat i ttl now db = (Inr l', db') \<and> l' = heartbeat_row ttl now l \<and>
        l_expires_at l \<le> l_expires_at l' \<and> now + ttl \<le> l_expires_at l' \<and>
        db' = db\<lparr>leases := map (\<lambda>r. if r = l then l' else r) (leases db)\<rparr> \<and>
        (\<forall>later \<le> l_expires_at l'. l' \<notin> set (expiry_batch later db')))) \<and>
    ((\<forall>l \<in> set (leases db). l_id l = i \<longrightarrow> l_state l \<noteq> Held \<or> l_expires_at l \<le> now) \<longrightarrow>
      lease_heartbeat i ttl now db = (Inl Conflict, db))"
proof (intro conjI ballI impI)
  have wf: "wf_db db" using good by blast
  let ?p = "\<lambda>r. l_id r = i \<and> l_state r = Held \<and> now < l_expires_at r"
  let ?db = "db\<lparr>leases := update_where ?p (heartbeat_row ttl now) (leases db)\<rparr>"
  show "\<exists>l' db'. lease_heartbeat i ttl now db = (Inr l', db') \<and> l' = heartbeat_row ttl now l \<and>
        l_expires_at l \<le> l_expires_at l' \<and> now + ttl \<le> l_expires_at l' \<and>
        db' = db\<lparr>leases := map (\<lambda>r. if r = l then l' else r) (leases db)\<rparr> \<and>
        (\<forall>later \<le> l_expires_at l'. l' \<notin> set (expiry_batch later db'))"
    if l: "l \<in> set (leases db)" and p: "?p l" for l
  proof (intro exI conjI)
    have only: "?p r \<longleftrightarrow> r = l" if "r \<in> set (leases db)" for r
      using that l p wf_table_same [OF wf_db_tables(3) [OF wf]] by auto
    have "wf_db ?db" using wf by (rule wf_db_leases) (auto simp: lease_shape_def heartbeat_row_def)
    moreover have "heartbeat_row ttl now l \<in> set (leases ?db)"
      using l p by (auto simp: update_where_def intro!: rev_image_eqI [of l])
    ultimately have "lease_by_id ?db i = Some (heartbeat_row ttl now l)"
      using p by (simp add: lease_by_id_Some)
    then show "lease_heartbeat i ttl now db = (Inr (heartbeat_row ttl now l), ?db)"
      using l p i by (auto simp: lease_heartbeat_def transact_def heartbeat_in_tx_def bind_i64_apply Let_def
          bind_tx_def lease_get_in_tx_def read_tx_def return_tx_def)
    show "?db = db\<lparr>leases := map (\<lambda>r. if r = l then heartbeat_row ttl now l else r) (leases db)\<rparr>"
      using only by (auto simp: update_where_def)
    show "\<forall>later \<le> l_expires_at (heartbeat_row ttl now l). heartbeat_row ttl now l \<notin> set (expiry_batch later ?db)"
      by (auto simp: expiry_batch_def overdue_def dest: in_set_takeD)
  qed (simp_all add: heartbeat_row_def)
  show "lease_heartbeat i ttl now db = (Inl Conflict, db)"
    if "\<forall>l \<in> set (leases db). l_id l = i \<longrightarrow> l_state l \<noteq> Held \<or> l_expires_at l \<le> now"
    using that i by (auto simp: lease_heartbeat_def transact_def heartbeat_in_tx_def bind_i64_apply Let_def)
qed

text \<open>How the building blocks run on a held lease of a good store, and on any other id.\<close>

lemma close_held_runs:
  assumes "wf_db db" "held_pair db l t" "l_id l < 2 ^ 63"
  shows "close_held_lease st reason (l_id l) now db = (Inr (close_row st reason now l),
    db\<lparr>leases := update_where (\<lambda>r. l_id r = l_id l \<and> l_state r = Held) (close_row st reason now) (leases db)\<rparr>)"
  using assms by (subst close_held_Inr) (auto simp: held_pair_def)

lemma move_leased_runs:
  assumes "wf_db db" "held_pair db l t" "st \<noteq> Held"
  shows "move_leased_ticket f (t_id t)
      (db\<lparr>leases := update_where (\<lambda>r. l_id r = l_id l \<and> l_state r = Held) (close_row st reason now) (leases db)\<rparr>) =
    (Inr (), lease_closed db l (close_row st reason now) t f)"
  using assms by (subst move_leased_Inr) (auto simp: held_pair_def lease_closed_def intro: wf_db_close)

lemma held_lease_ticket_pair:
  "wf_db db \<Longrightarrow> held_pair db l t \<Longrightarrow> held_lease_ticket db (l_id l) = Some t"
  by (subst held_lease_ticket_Some) (auto simp: held_pair_def)

lemma not_held:
  assumes "\<forall>l \<in> set (leases db). l_id l = i \<longrightarrow> l_state l \<noteq> Held"
  shows "held_lease_ticket db i = None" and "i < 2 ^ 63 \<Longrightarrow> close_held_lease st reason i now db = (Inl Conflict, db)"
proof -
  have "find (\<lambda>l. l_id l = i \<and> l_state l = Held) (leases db) = None"
    using assms by (auto simp: find_None_iff)
  then show "held_lease_ticket db i = None" "i < 2 ^ 63 \<Longrightarrow> close_held_lease st reason i now db = (Inl Conflict, db)"
    by (simp_all add: held_lease_ticket_def close_held_lease_def bind_i64_apply)
qed

lemmas run_simps = transact_def bind_tx_def return_tx_def lift_res_def bind_i64_apply

text \<open>
  Releasing a held lease closes it with reason \<open>released\<close> and its ticket succeeds with the
  given result; for any other id the answer is Conflict and nothing changes. So a lease that was
  released, failed, expired or force-released can never complete its ticket again.
\<close>

theorem release_outcome:
  assumes wf: "wf_db db" and i: "i < 2 ^ 63"
  shows "(\<forall>l t. held_pair db l t \<and> l_id l = i \<and> t_id t < 2 ^ 63 \<longrightarrow>
      lease_release i result now db = (Inr (close_row Released ReasonReleased now l),
        lease_closed db l (close_row Released ReasonReleased now) t (succeeded_row result now))) \<and>
    ((\<forall>l \<in> set (leases db). l_id l = i \<longrightarrow> l_state l \<noteq> Held) \<longrightarrow>
      lease_release i result now db = (Inl Conflict, db))"
proof (intro conjI allI impI)
  fix l t assume "held_pair db l t \<and> l_id l = i \<and> t_id t < 2 ^ 63"
  then have pair: "held_pair db l t" "l_id l = i" "t_id t < 2 ^ 63" "t_id t = l_ticket_id l"
    by (auto simp: held_pair_def)
  then show "lease_release i result now db = (Inr (close_row Released ReasonReleased now l),
        lease_closed db l (close_row Released ReasonReleased now) t (succeeded_row result now))"
    using close_held_runs [OF wf pair(1)] move_leased_runs [OF wf pair(1)] i
    by (simp add: lease_release_def release_in_tx_def run_simps)
qed (use i not_held(2) in \<open>simp add: lease_release_def release_in_tx_def run_simps\<close>)


text \<open>
  C14. Force-releasing a held lease closes it as \<open>force_released\<close>. With \<open>also_requeue\<close> the ticket
  is ready again at once, but only while attempts remain: a requeue of an exhausted ticket is
  refused with Conflict and nothing changes. Without it the ticket fails.
\<close>

theorem force_release_outcome:
  assumes wf: "wf_db db" and i: "i < 2 ^ 63"
  shows "(\<forall>l t. held_pair db l t \<and> l_id l = i \<and> t_attempt t < 2 ^ 32 \<and> t_max_attempts t < 2 ^ 32 \<longrightarrow>
      lease_force_release i also_requeue now db =
        (if also_requeue \<and> t_max_attempts t \<le> t_attempt t then (Inl Conflict, db)
         else (Inr \<lparr> fr_lease = close_row ForceReleased ReasonForceReleased now l,
             fr_ticket_requeued = also_requeue, fr_attempt = t_attempt t, fr_max_attempts = t_max_attempts t \<rparr>,
           lease_closed db l (close_row ForceReleased ReasonForceReleased now) t
             (if also_requeue then requeued_row now now else failed_row now)))) \<and>
    ((\<forall>l \<in> set (leases db). l_id l = i \<longrightarrow> l_state l \<noteq> Held) \<longrightarrow>
      lease_force_release i also_requeue now db = (Inl Conflict, db))"
proof (intro conjI allI impI)
  fix l t assume "held_pair db l t \<and> l_id l = i \<and> t_attempt t < 2 ^ 32 \<and> t_max_attempts t < 2 ^ 32"
  then have pair: "held_pair db l t" "l_id l = i" "t_attempt t < 2 ^ 32" "t_max_attempts t < 2 ^ 32" by auto
  note probe = held_lease_ticket_pair [OF wf pair(1), unfolded pair(2)]
  show "lease_force_release i also_requeue now db =
        (if also_requeue \<and> t_max_attempts t \<le> t_attempt t then (Inl Conflict, db)
         else (Inr \<lparr> fr_lease = close_row ForceReleased ReasonForceReleased now l,
             fr_ticket_requeued = also_requeue, fr_attempt = t_attempt t, fr_max_attempts = t_max_attempts t \<rparr>,
           lease_closed db l (close_row ForceReleased ReasonForceReleased now) t
             (if also_requeue then requeued_row now now else failed_row now)))"
    using close_held_runs [OF wf pair(1)] move_leased_runs [OF wf pair(1)] i pair probe
    by (simp add: lease_force_release_def force_release_in_tx_def Let_def force_release_lease_in_tx_def
        u32_from_i64_def run_simps)
qed (use i not_held(1) in \<open>simp add: lease_force_release_def force_release_in_tx_def run_simps\<close>)

text \<open>
  C12. An expiry run on a consistent store always completes. It takes the first 1000 overdue leases
  in id order (fewer when there are fewer), expires exactly these, requeues each of their tickets
  that has attempts left and fails the others, changes no other row, and reports exactly that.
\<close>

theorem expire_due_outcome:
  assumes good: "good_db db" and budget: "\<forall>t \<in> set (tickets db). t_max_attempts t < 2 ^ 32"
  shows "lease_expire_due now db =
    (Inr (report_add db (expiry_batch now db) empty_report), expire_leases now (expiry_batch now db) db)"
proof -
  obtain out db' where run: "expire_due_in_tx now db = (out, db')" by (cases "expire_due_in_tx now db")
  with expire_due_eq [OF good run] budget
  have "expire_due_in_tx now db =
      (Inr (report_add db (expiry_batch now db) empty_report), expire_leases now (expiry_batch now db) db)"
    by auto
  then show ?thesis by (simp add: lease_expire_due_def transact_def)
qed

section \<open>Examples\<close>

text \<open>A ready ticket that the example worker can take, and the same ticket under a held lease.\<close>

definition example_ticket :: ticket where
  "example_ticket = \<lparr> t_id = 1, t_job_id = None, t_kind = ''probe_file'', t_state = Ready, t_priority = 0,
     t_payload = JNull, t_result = None, t_attempt = 0, t_max_attempts = 3, t_next_eligible_at = 0,
     t_created_at = 0, t_state_changed_at = 0, t_epoch = 0 \<rparr>"

definition example_lease :: lease where
  "example_lease = \<lparr> l_id = 1, l_ticket_id = 1, l_worker_id = 1, l_state = Held, l_acquired_at = 5,
     l_expires_at = 100, l_last_heartbeat_at = 5, l_ttl_seconds = 60, l_release_reason = None,
     l_released_at = None, l_epoch = 0 \<rparr>"

definition example_ready_db :: db where
  "example_ready_db = example_workers_db\<lparr>tickets := [example_ticket]\<rparr>"

definition example_held_db :: db where
  "example_held_db = example_workers_db\<lparr>tickets := [leased_row 5 example_ticket], leases := [example_lease]\<rparr>"

lemma example_ready_good: "good_db example_ready_db"
proof -
  have "wf_db example_ready_db"
    by (simp add: wf_db_def example_ready_db_def example_workers_simps wf_table_def example_ticket_def)
  moreover have "abs_exec example_ready_db = \<lparr> x_tickets = [1 \<mapsto> \<lparr> at_state = Ready, at_attempt = 0, at_max = 3 \<rparr>],
      x_leases = Map.empty, x_deps = {} \<rparr>"
    by (simp add: abs_exec_def example_ready_db_def example_workers_simps example_ticket_def table_map_def
        abs_ticket_def dep_edges_def)
  ultimately show ?thesis
    by (auto simp: good_db_def exec_inv_def inv_defs acyclic_def split: if_splits)
qed

lemma example_held_good: "good_db example_held_db"
proof -
  have "wf_db example_held_db"
    by (simp add: wf_db_def example_held_db_def example_workers_simps wf_table_def example_ticket_def
        example_lease_def leased_row_def lease_shape_def)
  moreover have "abs_exec example_held_db = \<lparr> x_tickets = [1 \<mapsto> \<lparr> at_state = Leased, at_attempt = 1, at_max = 3 \<rparr>],
      x_leases = [1 \<mapsto> \<lparr> al_ticket = 1, al_held = True \<rparr>], x_deps = {} \<rparr>"
    by (simp add: abs_exec_def example_held_db_def example_workers_simps example_ticket_def table_map_def
        abs_ticket_def dep_edges_def example_lease_def leased_row_def abs_lease_def)
  ultimately show ?thesis
    by (auto simp: good_db_def exec_inv_def inv_defs acyclic_def split: if_splits)
qed

lemma example_pair: "held_pair example_held_db example_lease (leased_row 5 example_ticket)"
  by (simp add: held_pair_def example_held_db_def example_lease_def example_ticket_def leased_row_def)

definition example_input :: new_lease where
  "example_input = \<lparr> nle_ticket_id = 1, nle_worker_id = 1, nle_ttl = 60 * NANOS_PER_SECOND, nle_now = 5 \<rparr>"

lemma example_eligible:
  "\<exists>e. operation_eligibility_in_tx 1 ''probe_file'' (example_workers_db\<lparr>tickets := ts\<rparr>) =
     (Inr e, example_workers_db\<lparr>tickets := ts\<rparr>) \<and> ineligibility_reason e = None"
proof -
  let ?db = "example_workers_db\<lparr>tickets := ts\<rparr>"
  have w: "worker_by_id ?db 1 = Some example_worker" by (simp add: worker_by_id_def example_workers_simps)
  have "row_to_worker ?db example_worker = Inr example_worker"
    by (simp add: row_to_worker_def worker_incarnation_projection_def example_worker_def)
  then have "worker_get_in_tx 1 ?db = (Inr (Some example_worker), ?db)"
    unfolding worker_get_Inr using w by simp
  then obtain e where e: "operation_eligibility_in_tx 1 ''probe_file'' ?db = (Inr e, ?db)"
    by (simp add: operation_eligibility_in_tx_def bind_tx_def read_tx_def Let_def)
  have "is_eligible e"
    unfolding eligible_iff [OF e] w
    by (simp add: example_workers_simps example_normalize WORKFLOW_OPERATION_NAMESPACE_def)
  with e show ?thesis by (auto simp: ineligibility_None_iff)
qed

lemma example_capacity:
  "operation_capacity_in_tx 1 ''probe_file'' (example_workers_db\<lparr>tickets := ts\<rparr>) =
     (Inr \<lparr> oc_active_leases = 0, oc_max_parallel = 2 \<rparr>, example_workers_db\<lparr>tickets := ts\<rparr>)"
  by (simp add: operation_capacity_in_tx_def granted_capacity_def example_normalize bind_tx_def return_tx_def
      lift_res_def bind_i64_apply worker_active_leases_def rows_matching_def u32_from_i64_def example_workers_simps
      max_parallel_in_tx_def grant_rows_def json_get_def positive_u32_def WORKFLOW_OPERATION_NAMESPACE_def)

lemma example_acquire:
  "try_acquire_in_tx example_input example_ready_db =
     (Inr (Acquired (acquired_row example_ready_db example_input)), acquired_db example_ready_db example_input)"
proof -
  let ?ts = "[leased_row 5 example_ticket]"
  let ?db = "example_workers_db\<lparr>tickets := ?ts\<rparr>"
  obtain e where e: "operation_eligibility_in_tx 1 ''probe_file'' ?db = (Inr e, ?db)" "ineligibility_reason e = None"
    using example_eligible by metis
  have may: "may_lease example_ready_db 1 5 example_ticket"
    by (simp add: may_lease_def example_ticket_def job_allows_def)
  have upd: "example_ready_db\<lparr>tickets := update_where (may_lease example_ready_db 1 5) (leased_row 5)
      (tickets example_ready_db)\<rparr> = ?db"
    using may by (simp add: example_ready_db_def)
  have ins: "insert_lease example_input 60 ?db =
      (Inr (acquired_row example_ready_db example_input), acquired_db example_ready_db example_input)"
    using may by (simp add: insert_lease_def example_input_def bind_i64_apply Let_def bind_tx_def lease_get_in_tx_def
        read_tx_def lease_by_id_def return_tx_def ticket_by_id_def worker_by_id_def example_ready_db_def
        example_workers_simps acquired_row_def acquired_db_def whole_seconds_def NANOS_PER_SECOND_def next_rowid_def
        example_ticket_def leased_row_def)
  have "acquire_guarded example_input 60 example_ready_db =
      (Inr (Acquired (acquired_row example_ready_db example_input)), acquired_db example_ready_db example_input)"
    using may upd e example_capacity [of ?ts] ins
    by (simp add: acquire_guarded_def bind_tx_def ticket_get_in_tx_def bind_i64_apply read_tx_def ticket_by_id_def
        example_input_def Let_def lease_to_worker_def has_capacity_def return_tx_def rows_matching_def
        example_ready_db_def example_ticket_def example_normalize)
  then show ?thesis
    by (simp add: try_acquire_in_tx_def Let_def example_input_def whole_seconds_def NANOS_PER_SECOND_def)
qed


theorem rejected_acquire_changes_nothing_witness:
  "snd (try_acquire_in_tx example_input example_held_db) = example_held_db"
proof -
  have "try_acquire_in_tx example_input example_held_db =
      (Inr (TicketNotReady 1), snd (try_acquire_in_tx example_input example_held_db))"
    by (simp add: try_acquire_in_tx_def acquire_guarded_def Let_def bind_tx_def ticket_get_in_tx_def bind_i64_apply
        read_tx_def ticket_by_id_def example_input_def example_held_db_def example_ticket_def leased_row_def
        example_normalize may_lease_def rows_matching_def whole_seconds_def NANOS_PER_SECOND_def)
  from rejected_acquire_changes_nothing [OF this] show ?thesis by simp
qed

theorem heartbeat_outcome_witness:
  "lease_heartbeat 1 200 50 example_held_db = (Inr (heartbeat_row 200 50 example_lease),
     example_held_db\<lparr>leases := [heartbeat_row 200 50 example_lease]\<rparr>)"
  using heartbeat_outcome [OF example_held_good, of 1 50 200]
  by (simp add: example_held_db_def example_lease_def)

theorem release_outcome_witness:
  "fst (lease_release 1 (JInt 7) 50 example_held_db) = Inr (close_row Released ReasonReleased 50 example_lease)"
proof -
  have "t_id (leased_row 5 example_ticket) < 2 ^ 63" "l_id example_lease = 1"
    by (simp_all add: example_ticket_def example_lease_def)
  with release_outcome [OF good_wf [OF example_held_good], of 1 "JInt 7" 50] example_pair
  show ?thesis by (metis fst_conv one_less_numeral_iff power_one_right semiring_norm(76) one_less_power zero_less_numeral)
qed


theorem force_release_outcome_witness:
  "fr_ticket_requeued (projr (fst (lease_force_release 1 True 50 example_held_db)))"
proof -
  have "t_attempt (leased_row 5 example_ticket) = 1" "t_max_attempts (leased_row 5 example_ticket) = 3"
    "l_id example_lease = 1" by (simp_all add: example_ticket_def example_lease_def leased_row_def)
  then show ?thesis
    using force_release_outcome [OF good_wf [OF example_held_good], of 1 True 50] example_pair by fastforce
qed

theorem expire_due_outcome_witness:
  "er_pairs (projr (fst (lease_expire_due 101 example_held_db))) = [(1, 1)]"
proof -
  have batch: "expiry_batch 101 example_held_db = [example_lease]"
    by (simp add: expiry_batch_def example_held_db_def overdue_def example_lease_def LEASE_BATCH_LIMIT_def)
  have "\<forall>t \<in> set (tickets example_held_db). t_max_attempts t < 2 ^ 32"
    by (simp add: example_held_db_def example_ticket_def leased_row_def)
  from expire_due_outcome [OF example_held_good this, of 101] show ?thesis
    by (simp add: batch report_add_def empty_report_def example_lease_def)
qed

end
