(* ===== verification/Listings.thy ===== *)
theory Listings
  imports Leases
begin

text \<open>
  Keyset pagination of the inspection reads. The \<open>list\<close> operations of jobs, tickets and leases
  share one contract: newest first, at most \<open>limit\<close> rows, an exclusive continuation id. The locale
  states it and shows what a client gets that follows the continuation token; the three
  repositories interpret it.
\<close>

text \<open>A client that asks for pages until one is empty, and the rows it has seen then.\<close>

inductive walk :: "(nat option \<Rightarrow> nat \<Rightarrow> (db, 'r list) tx) \<Rightarrow> ('r \<Rightarrow> nat) \<Rightarrow> nat \<Rightarrow> db \<Rightarrow> nat option \<Rightarrow> 'r list \<Rightarrow> bool"
  for list_page key limit db where
  walk_end: "list_page after limit db = (Inr [], db) \<Longrightarrow> walk list_page key limit db after []"
| walk_more: "list_page after limit db = (Inr page, db) \<Longrightarrow> page \<noteq> [] \<Longrightarrow>
    walk list_page key limit db (Some (key (last page))) rest \<Longrightarrow>
    walk list_page key limit db after (page @ rest)"

locale keyset_listing =
  fixes list_page :: "nat option \<Rightarrow> nat \<Rightarrow> (db, 'r list) tx"
    and key :: "'r \<Rightarrow> nat" and p :: "'r \<Rightarrow> bool" and rows :: "db \<Rightarrow> 'r list"
  assumes page: "(\<And>a. after = Some a \<Longrightarrow> a < 2 ^ 63) \<Longrightarrow>
    list_page after limit db = (Inr (keyset_page key p after limit (rows db)), db)"
begin

lemma walk_all_pages:
  assumes ids: "\<forall>r \<in> set (rows db). key r < 2 ^ 63"
  shows "(\<And>a. after = Some a \<Longrightarrow> a < 2 ^ 63) \<Longrightarrow>
    walk list_page key limit db after (all_pages key p limit (rows db) after)"
proof (induction after rule: measure_induct_rule [where f = "\<lambda>after. length (filter (below key after) (rows db))"])
  case (less after)
  let ?page = "keyset_page key p after limit (rows db)"
  have run: "list_page after limit db = (Inr ?page, db)" using less.prems by (rule page)
  show ?case
  proof (cases "?page = []")
    case True
    then show ?thesis using run by (subst all_pages.simps) (simp add: walk_end)
  next
    case False
    let ?x = "last ?page"
    have x: "?x \<in> set (rows db)" "below key after ?x"
      using keyset_page_in [of ?x key p after limit "rows db"] False by auto
    have "filter (below key (Some (key ?x))) (rows db) =
        filter (below key (Some (key ?x))) (filter (below key after) (rows db))"
      using x(2) by (auto simp: below_def intro!: filter_cong split: option.splits)
    then have "length (filter (below key (Some (key ?x))) (rows db)) < length (filter (below key after) (rows db))"
      using x length_filter_less [of ?x "filter (below key after) (rows db)" "below key (Some (key ?x))"]
      by (simp add: below_def)
    from less.IH [OF this] ids x(1)
    have "walk list_page key limit db (Some (key ?x)) (all_pages key p limit (rows db) (Some (key ?x)))" by simp
    then show ?thesis using run False by (subst all_pages.simps) (simp add: Let_def walk_more)
  qed
qed

lemma walk_unique:
  assumes "walk list_page key limit db after xs"
  shows "walk list_page key limit db after ys \<Longrightarrow> ys = xs"
  using assms
proof (induction arbitrary: ys rule: walk.induct)
  case (walk_end after)
  from walk_end(2) show ?case by cases (use walk_end(1) in auto)
next
  case (walk_more after pg rest)
  from walk_more(5) show ?case by cases (use walk_more(1,2,4) in auto)
qed

lemma walk_complete:
  assumes "wf_table key (rows db)" "\<forall>r \<in> set (rows db). key r < 2 ^ 63" "0 < limit"
  shows "walk list_page key limit db None out \<longleftrightarrow> out = rev (filter p (rows db))"
proof -
  have "all_pages key p limit (rows db) None = rev (filter p (rows db))"
    using all_pages_complete [OF assms(1,3), of p None] by (simp add: below_def)
  then have "walk list_page key limit db None (rev (filter p (rows db)))"
    using walk_all_pages [OF assms(2), of None limit] by simp
  then show ?thesis using walk_unique by blast
qed

end

interpretation job_pages: keyset_listing "job_list st" j_id "\<lambda>j. st = None \<or> st = Some (j_state j)" jobs
  for st
  by unfold_locales (simp add: job_list_def bind_i64_apply read_tx_def split: option.split)

interpretation ticket_pages: keyset_listing "ticket_list st" t_id "\<lambda>t. st = None \<or> st = Some (t_state t)" tickets
  for st
  by unfold_locales (simp add: ticket_list_def bind_i64_option_def bind_i64_apply read_tx_def split: option.split)

interpretation lease_pages: keyset_listing "lease_list st" l_id "\<lambda>l. st = None \<or> st = Some (l_state l)" leases
  for st
  by unfold_locales (simp add: lease_list_def bind_i64_option_def bind_i64_apply read_tx_def split: option.split)



end
