(* ===== verification/Issues.thy ===== *)
theory Issues
  imports Leases
begin

text \<open>
  The issue repository (\<^verbatim>\<open>crates/voom-store/src/repo/issues.rs\<close>): the one issue opened for a
  ticket's terminal failure, the policy issues a compliance report keeps up to date, and the
  transitions an operator makes. The \<^verbatim>\<open>CHECK\<close> constraints and the unique index on
  \<^verbatim>\<open>dedupe_key\<close> of the \<^verbatim>\<open>issues\<close> table are part of every write.
\<close>

section \<open>Vocabularies\<close>

primrec issue_kind_as_str :: "issue_kind \<Rightarrow> string" where
  "issue_kind_as_str UnknownIdentity = ''unknown_identity''"
| "issue_kind_as_str MissingSubtitle = ''missing_subtitle''"
| "issue_kind_as_str DuplicateCandidate = ''duplicate_candidate''"
| "issue_kind_as_str PolicyNoncompliant = ''policy_noncompliant''"
| "issue_kind_as_str HealthFailed = ''health_failed''"
| "issue_kind_as_str ExternalSyncFailed = ''external_sync_failed''"
| "issue_kind_as_str IssueArtifactUnavailable = ''artifact_unavailable''"
| "issue_kind_as_str VariantRetentionConflict = ''variant_retention_conflict''"
| "issue_kind_as_str WorkerUntrusted = ''worker_untrusted''"
| "issue_kind_as_str TerminalFailure = ''terminal_failure''"

primrec issue_status_as_str :: "issue_status \<Rightarrow> string" where
  "issue_status_as_str IssueOpen = ''open''"
| "issue_status_as_str IssuePlanned = ''planned''"
| "issue_status_as_str IssueResolved = ''resolved''"
| "issue_status_as_str IssueSuppressed = ''suppressed''"
| "issue_status_as_str IssueAccepted = ''accepted''"

definition issue_status_parse :: "string \<Rightarrow> issue_status option" where
  "issue_status_parse s =
    (if s = ''open'' then Some IssueOpen else
     if s = ''planned'' then Some IssuePlanned else
     if s = ''resolved'' then Some IssueResolved else
     if s = ''suppressed'' then Some IssueSuppressed else
     if s = ''accepted'' then Some IssueAccepted else None)"

datatype policy_issue_status = PolicyOpen | PolicyPlanned | PolicyResolved

primrec policy_issue_status_as_str :: "policy_issue_status \<Rightarrow> string" where
  "policy_issue_status_as_str PolicyOpen = ''open''"
| "policy_issue_status_as_str PolicyPlanned = ''planned''"
| "policy_issue_status_as_str PolicyResolved = ''resolved''"

definition policy_issue_status_parse :: "string \<Rightarrow> policy_issue_status res" where
  "policy_issue_status_parse s =
    (if s = ''open'' then Inr PolicyOpen else
     if s = ''planned'' then Inr PolicyPlanned else
     if s = ''resolved'' then Inr PolicyResolved else Inl Database)"

interpretation issue_status: wire_vocab issue_status_as_str issue_status_parse
proof
  show "issue_status_parse (issue_status_as_str x) = Some x" for x
    by (cases x) (simp_all add: issue_status_parse_def)
  show "issue_status_parse s = Some x \<Longrightarrow> issue_status_as_str x = s" for s x
    by (auto simp: issue_status_parse_def split: if_splits)
qed

text \<open>The column value a policy status is stored as.\<close>

primrec stored_status :: "policy_issue_status \<Rightarrow> issue_status" where
  "stored_status PolicyOpen = IssueOpen"
| "stored_status PolicyPlanned = IssuePlanned"
| "stored_status PolicyResolved = IssueResolved"

lemma stored_status_as_str: "issue_status_as_str (stored_status s) = policy_issue_status_as_str s"
  by (cases s) simp_all

lemma policy_status_parse_iff:
  "policy_issue_status_parse (issue_status_as_str st) =
     (case st of IssueOpen \<Rightarrow> Inr PolicyOpen | IssuePlanned \<Rightarrow> Inr PolicyPlanned
      | IssueResolved \<Rightarrow> Inr PolicyResolved | _ \<Rightarrow> Inl Database)"
  by (cases st) (simp_all add: policy_issue_status_parse_def)

section \<open>Rows\<close>

record policy_issue_draft =
  pd_dedupe_key :: string
  pd_status :: policy_issue_status
  pd_title :: string
  pd_body :: string
  pd_priority_reason :: string

record policy_issue_row =
  pi_id :: nat
  pi_dedupe_key :: string
  pi_status :: policy_issue_status
  pi_epoch :: nat

datatype policy_issue_mutation_kind =
    MutationCreated | MutationUpdated | MutationResolved | MutationUnchanged

record policy_issue_mutation =
  pm_kind :: policy_issue_mutation_kind
  pm_row :: policy_issue_row

record terminal_failure_issue_draft =
  td_draft_ticket_id :: nat
  td_lease_id :: "nat option"
  td_severity :: issue_severity
  td_priority :: issue_priority
  td_priority_reason :: string
  td_title :: string
  td_body :: string

record issue_filter =
  if_status :: "issue_status option"
  if_kind :: "string option"
  if_priority :: "issue_priority option"
  if_severity :: "issue_severity option"

record issue_list_page =
  ipg_items :: "issue list"
  ipg_next_cursor :: "nat option"

text \<open>The table's two status constraints and its unique index.\<close>

definition issue_checks :: "issue \<Rightarrow> bool" where
  "issue_checks i \<longleftrightarrow>
     (is_status i = IssueResolved \<longleftrightarrow> is_resolved_at i \<noteq> None) \<and>
     (is_status i = IssueSuppressed \<longleftrightarrow> is_suppressed_until i \<noteq> None)"

definition dedupe_key_free :: "db \<Rightarrow> string option \<Rightarrow> bool" where
  "dedupe_key_free db k \<longleftrightarrow> k = None \<or> (\<forall>i \<in> set (issues db). is_dedupe_key i \<noteq> k)"

definition insert_issue :: "(nat \<Rightarrow> issue) \<Rightarrow> db \<Rightarrow> (nat \<times> db) option" where
  "insert_issue row db =
     (let i = next_rowid is_id (issues db) in
      if issue_checks (row i) \<and> dedupe_key_free db (is_dedupe_key (row i))
      then Some (i, db\<lparr>issues := issues db @ [row i]\<rparr>) else None)"

text \<open>An update of the row with an id, and the number of rows it affected.\<close>

definition update_issue :: "nat \<Rightarrow> (issue \<Rightarrow> issue) \<Rightarrow> (db, nat) tx" where
  "update_issue i f = bind_i64 i (\<lambda>db.
     if \<exists>r \<in> set (issues db). is_id r = i \<and> \<not> issue_checks (f r) then (Inl Database, db)
     else (Inr (rows_matching (\<lambda>r. is_id r = i) (issues db)),
           db\<lparr>issues := update_where (\<lambda>r. is_id r = i) f (issues db)\<rparr>))"

section \<open>Policy issues\<close>

definition policy_issue :: "policy_issue_draft \<Rightarrow> instant \<Rightarrow> nat \<Rightarrow> issue" where
  "policy_issue d now i = \<lparr> is_id = i, is_kind = PolicyNoncompliant, is_severity = Medium,
     is_priority = Normal, is_priority_source = ''policy'',
     is_priority_reason = Some (pd_priority_reason d), is_status = stored_status (pd_status d),
     is_suppressed_until = None, is_title = pd_title d, is_body = pd_body d,
     is_created_at = now, is_updated_at = now, is_resolved_at = None, is_epoch = 0,
     is_dedupe_key = Some (pd_dedupe_key d) \<rparr>"

definition row_to_policy_issue :: "issue \<Rightarrow> policy_issue_row res" where
  "row_to_policy_issue i =
     (case (is_dedupe_key i, policy_issue_status_parse (issue_status_as_str (is_status i))) of
        (Some k, Inr st) \<Rightarrow> Inr \<lparr> pi_id = is_id i, pi_dedupe_key = k, pi_status = st, pi_epoch = is_epoch i \<rparr>
      | _ \<Rightarrow> Inl Database)"

definition policy_issue_by_key :: "db \<Rightarrow> string \<Rightarrow> issue option" where
  "policy_issue_by_key db k =
     find (\<lambda>i. is_kind i = PolicyNoncompliant \<and> is_dedupe_key i = Some k) (issues db)"

definition select_issue_detail :: "db \<Rightarrow> string \<Rightarrow> (policy_issue_row \<times> issue) option res" where
  "select_issue_detail db k = (case policy_issue_by_key db k of None \<Rightarrow> Inr None
     | Some i \<Rightarrow> map_sum id (\<lambda>r. Some (r, i)) (row_to_policy_issue i))"

definition live_policy_issue :: "issue \<Rightarrow> bool" where
  "live_policy_issue i \<longleftrightarrow> is_kind i = PolicyNoncompliant \<and> is_status i \<in> {IssueOpen, IssuePlanned}"

definition select_live_policy_issue :: "db \<Rightarrow> string \<Rightarrow> policy_issue_row option res" where
  "select_live_policy_issue db k =
     (case find (\<lambda>i. live_policy_issue i \<and> is_dedupe_key i = Some k) (issues db) of
        None \<Rightarrow> Inr None | Some i \<Rightarrow> map_sum id Some (row_to_policy_issue i))"

definition redrafted :: "policy_issue_draft \<Rightarrow> instant \<Rightarrow> issue \<Rightarrow> issue" where
  "redrafted d now i = i\<lparr>is_status := stored_status (pd_status d), is_title := pd_title d,
     is_body := pd_body d, is_priority_reason := Some (pd_priority_reason d),
     is_updated_at := now, is_resolved_at := None, is_epoch := Suc (is_epoch i)\<rparr>"

definition draft_unchanged :: "policy_issue_draft \<Rightarrow> policy_issue_row \<Rightarrow> issue \<Rightarrow> bool" where
  "draft_unchanged d r i \<longleftrightarrow> pi_status r = pd_status d \<and> is_title i = pd_title d \<and>
     is_body i = pd_body d \<and> is_priority_reason i = Some (pd_priority_reason d)"

definition upsert_policy_noncompliant_in_tx ::
  "policy_issue_draft \<Rightarrow> instant \<Rightarrow> (db, policy_issue_mutation) tx" where
  "upsert_policy_noncompliant_in_tx d now db =
     (case insert_issue (policy_issue d now) db of
        Some (i, db') \<Rightarrow> (Inr \<lparr> pm_kind = MutationCreated, pm_row = \<lparr> pi_id = i,
          pi_dedupe_key = pd_dedupe_key d, pi_status = pd_status d, pi_epoch = 0 \<rparr> \<rparr>, db')
      | None \<Rightarrow>
         (case select_issue_detail db (pd_dedupe_key d) of
            Inl e \<Rightarrow> (Inl e, db)
          | Inr None \<Rightarrow> (Inl Database, db)
          | Inr (Some (r, i)) \<Rightarrow>
              if draft_unchanged d r i
              then (Inr \<lparr> pm_kind = MutationUnchanged, pm_row = r \<rparr>, db)
              else bind_tx (update_issue (pi_id r) (redrafted d now))
                (\<lambda>_. return_tx \<lparr> pm_kind = MutationUpdated,
                   pm_row = r\<lparr>pi_status := pd_status d, pi_epoch := Suc (pi_epoch r)\<rparr> \<rparr>) db))"

definition policy_resolved :: "string \<Rightarrow> string \<Rightarrow> instant \<Rightarrow> issue \<Rightarrow> issue" where
  "policy_resolved title body now i = i\<lparr>is_status := IssueResolved, is_title := title,
     is_body := body, is_updated_at := now, is_resolved_at := Some now, is_epoch := Suc (is_epoch i)\<rparr>"

definition resolve_policy_noncompliant_by_dedupe_key_in_tx ::
  "string \<Rightarrow> string \<Rightarrow> string \<Rightarrow> instant \<Rightarrow> (db, policy_issue_mutation option) tx" where
  "resolve_policy_noncompliant_by_dedupe_key_in_tx k title body now db =
     (case select_live_policy_issue db k of
        Inl e \<Rightarrow> (Inl e, db)
      | Inr None \<Rightarrow> (Inr None, db)
      | Inr (Some r) \<Rightarrow>
          bind_tx (update_issue (pi_id r) (policy_resolved title body now))
            (\<lambda>_. return_tx (Some \<lparr> pm_kind = MutationResolved,
               pm_row = r\<lparr>pi_status := PolicyResolved, pi_epoch := Suc (pi_epoch r)\<rparr> \<rparr>)) db)"

text \<open>
  SQLite's \<^verbatim>\<open>LIKE\<close> with the backslash as escape character: a percent sign matches any string,
  an underscore any character, and letters match without regard to ASCII case.
\<close>

definition ascii_lower :: "char \<Rightarrow> char" where
  "ascii_lower c = (let n = of_char c :: nat in if 65 \<le> n \<and> n \<le> 90 then char_of (n + 32) else c)"

fun like_match :: "string \<Rightarrow> string \<Rightarrow> bool" where
  "like_match [] s \<longleftrightarrow> s = []"
| "like_match (c # p) s \<longleftrightarrow>
     (if c = CHR ''%'' then like_match p s \<or> (case s of [] \<Rightarrow> False | _ # s' \<Rightarrow> like_match (c # p) s')
      else case s of [] \<Rightarrow> False
        | x # s' \<Rightarrow>
           if c = CHR ''_'' then like_match p s'
           else if c = CHR 0x5C
             then (case p of [] \<Rightarrow> False | d # p' \<Rightarrow> ascii_lower x = ascii_lower d \<and> like_match p' s')
           else ascii_lower x = ascii_lower c \<and> like_match p s')"

fun all_ok :: "'a res list \<Rightarrow> 'a list res" where
  "all_ok [] = Inr []"
| "all_ok (Inl e # _) = Inl e"
| "all_ok (Inr x # rs) = map_sum id ((#) x) (all_ok rs)"

definition list_live_policy_noncompliant_by_dedupe_prefix_in_tx ::
  "string \<Rightarrow> (db, policy_issue_row list) tx" where
  "list_live_policy_noncompliant_by_dedupe_prefix_in_tx pat db =
     (all_ok (map row_to_policy_issue (sort_key is_id (filter (\<lambda>i. live_policy_issue i \<and>
        (case is_dedupe_key i of None \<Rightarrow> False | Some k \<Rightarrow> like_match pat k)) (issues db)))), db)"

section \<open>Terminal failures\<close>

definition terminal_failure_dedupe_key :: "nat \<Rightarrow> string" where
  "terminal_failure_dedupe_key t = ''terminal_failure:ticket:'' @ show_nat t"

definition terminal_failure_issue :: "terminal_failure_issue_draft \<Rightarrow> instant \<Rightarrow> nat \<Rightarrow> issue" where
  "terminal_failure_issue d now i = \<lparr> is_id = i, is_kind = TerminalFailure,
     is_severity = td_severity d, is_priority = td_priority d, is_priority_source = ''system'',
     is_priority_reason = Some (td_priority_reason d), is_status = IssueOpen,
     is_suppressed_until = None, is_title = td_title d, is_body = td_body d,
     is_created_at = now, is_updated_at = now, is_resolved_at = None, is_epoch = 0,
     is_dedupe_key = Some (terminal_failure_dedupe_key (td_draft_ticket_id d)) \<rparr>"

definition select_terminal_failure_id :: "db \<Rightarrow> string \<Rightarrow> nat option" where
  "select_terminal_failure_id db k = map_option is_id
     (find (\<lambda>i. is_kind i = TerminalFailure \<and> is_dedupe_key i = Some k) (issues db))"

definition insert_issue_link :: "nat \<Rightarrow> string \<Rightarrow> nat \<Rightarrow> instant \<Rightarrow> (db, unit) tx" where
  "insert_issue_link i link_kind target now = bind_i64 i (bind_i64 target (modify_tx (\<lambda>db.
     db\<lparr>issue_links := issue_links db @ [\<lparr> il_issue_id = i, il_link_type = link_kind,
       il_target_type = link_kind, il_target_id = target, il_created_at = now \<rparr>]\<rparr>)))"

definition open_terminal_failure_in_tx ::
  "terminal_failure_issue_draft \<Rightarrow> instant \<Rightarrow> (db, nat) tx" where
  "open_terminal_failure_in_tx d now db =
     (case insert_issue (terminal_failure_issue d now) db of
        Some (i, db') \<Rightarrow>
          bind_tx (insert_issue_link i ''ticket'' (td_draft_ticket_id d) now) (\<lambda>_.
            case td_lease_id d of None \<Rightarrow> return_tx i
            | Some l \<Rightarrow> bind_tx (insert_issue_link i ''lease'' l now) (\<lambda>_. return_tx i)) db'
      | None \<Rightarrow>
         (case select_terminal_failure_id db (terminal_failure_dedupe_key (td_draft_ticket_id d)) of
            Some i \<Rightarrow> (Inr i, db) | None \<Rightarrow> (Inl Database, db)))"

section \<open>Operator reads and transitions\<close>

definition issue_by_id :: "db \<Rightarrow> nat \<Rightarrow> issue option" where
  "issue_by_id db i = find (\<lambda>r. is_id r = i) (issues db)"

definition filter_admits :: "issue_filter \<Rightarrow> issue \<Rightarrow> bool" where
  "filter_admits f i \<longleftrightarrow>
     (case if_status f of None \<Rightarrow> True | Some s \<Rightarrow> is_status i = s) \<and>
     (case if_kind f of None \<Rightarrow> True | Some k \<Rightarrow> issue_kind_as_str (is_kind i) = k) \<and>
     (case if_priority f of None \<Rightarrow> True | Some p \<Rightarrow> is_priority i = p) \<and>
     (case if_severity f of None \<Rightarrow> True | Some s \<Rightarrow> is_severity i = s)"

definition list_issues :: "issue_filter \<Rightarrow> nat option \<Rightarrow> nat \<Rightarrow> (db, issue_list_page) tx" where
  "list_issues f cursor limit = bind_i64_option cursor (read_tx (\<lambda>db.
     let rows = take limit (sort_key is_id (filter (\<lambda>i. filter_admits f i \<and>
       (case cursor of None \<Rightarrow> True | Some c \<Rightarrow> c < is_id i)) (issues db)))
     in \<lparr> ipg_items = rows, ipg_next_cursor = (if rows = [] then None else Some (is_id (last rows))) \<rparr>))"

definition get_issue :: "nat \<Rightarrow> (db, issue option) tx" where
  "get_issue i = bind_i64 i (read_tx (\<lambda>db. issue_by_id db i))"

definition select_issue_record_in_tx :: "nat \<Rightarrow> (db, issue option) tx" where
  "select_issue_record_in_tx i = bind_i64 i (read_tx (\<lambda>db. issue_by_id db i))"

definition record_after_transition :: "nat \<Rightarrow> nat \<Rightarrow> (db, issue option) tx" where
  "record_after_transition i rows_affected =
     (if rows_affected = 0 then return_tx None else select_issue_record_in_tx i)"

definition prioritised :: "issue_priority \<Rightarrow> string option \<Rightarrow> instant \<Rightarrow> issue \<Rightarrow> issue" where
  "prioritised p reason now i = i\<lparr>is_priority := p, is_priority_source := ''user'',
     is_priority_reason := (case reason of None \<Rightarrow> is_priority_reason i | Some r \<Rightarrow> Some r),
     is_updated_at := now, is_epoch := Suc (is_epoch i)\<rparr>"

definition resolved_issue :: "instant \<Rightarrow> issue \<Rightarrow> issue" where
  "resolved_issue now i = i\<lparr>is_status := IssueResolved, is_resolved_at := Some now,
     is_suppressed_until := None, is_updated_at := now, is_epoch := Suc (is_epoch i)\<rparr>"

definition suppressed_issue :: "instant \<Rightarrow> instant \<Rightarrow> issue \<Rightarrow> issue" where
  "suppressed_issue until now i = i\<lparr>is_status := IssueSuppressed, is_suppressed_until := Some until,
     is_resolved_at := None, is_updated_at := now, is_epoch := Suc (is_epoch i)\<rparr>"

definition accepted_issue :: "instant \<Rightarrow> issue \<Rightarrow> issue" where
  "accepted_issue now i = i\<lparr>is_status := IssueAccepted, is_resolved_at := None,
     is_suppressed_until := None, is_updated_at := now, is_epoch := Suc (is_epoch i)\<rparr>"

definition update_priority_in_tx ::
  "nat \<Rightarrow> issue_priority \<Rightarrow> string option \<Rightarrow> instant \<Rightarrow> (db, issue option) tx" where
  "update_priority_in_tx i p reason now =
     bind_tx (update_issue i (prioritised p reason now)) (record_after_transition i)"

definition issue_resolve_in_tx :: "nat \<Rightarrow> instant \<Rightarrow> (db, issue option) tx" where
  "issue_resolve_in_tx i now = bind_tx (update_issue i (resolved_issue now)) (record_after_transition i)"

definition issue_suppress_in_tx :: "nat \<Rightarrow> instant \<Rightarrow> instant \<Rightarrow> (db, issue option) tx" where
  "issue_suppress_in_tx i until now =
     bind_tx (update_issue i (suppressed_issue until now)) (record_after_transition i)"

definition issue_accept_in_tx :: "nat \<Rightarrow> instant \<Rightarrow> (db, issue option) tx" where
  "issue_accept_in_tx i now = bind_tx (update_issue i (accepted_issue now)) (record_after_transition i)"

section \<open>What the repository keeps\<close>

text \<open>
  Ids grow, every row passes the constraints, no two issues share a dedupe key, and every link
  names a stored issue.
\<close>

definition issue_inv :: "db \<Rightarrow> bool" where
  "issue_inv db \<longleftrightarrow> wf_table is_id (issues db) \<and> (\<forall>i \<in> set (issues db). issue_checks i) \<and>
     (\<forall>i \<in> set (issues db). \<forall>j \<in> set (issues db).
        is_dedupe_key i \<noteq> None \<longrightarrow> is_dedupe_key i = is_dedupe_key j \<longrightarrow> i = j) \<and>
     (\<forall>l \<in> set (issue_links db). \<exists>i \<in> set (issues db). is_id i = il_issue_id l)"

definition same_issue :: "issue \<Rightarrow> issue \<Rightarrow> bool" where
  "same_issue i j \<longleftrightarrow> is_id j = is_id i \<and> is_kind j = is_kind i \<and> is_dedupe_key j = is_dedupe_key i \<and>
     is_created_at j = is_created_at i \<and> is_epoch i \<le> is_epoch j"

text \<open>One step: only the issue tables change, the invariant is kept and no issue goes away.\<close>

definition issue_step :: "db \<Rightarrow> db \<Rightarrow> bool" where
  "issue_step db db' \<longleftrightarrow> (\<exists>rs ls. db' = db\<lparr>issues := rs, issue_links := ls\<rparr>) \<and>
     (issue_inv db \<longrightarrow> issue_inv db') \<and> (wf_table is_id (issues db) \<longrightarrow> wf_table is_id (issues db')) \<and>
     (\<forall>i \<in> set (issues db). \<exists>j \<in> set (issues db'). same_issue i j)"

lemma same_issue_refl [simp]: "same_issue i i"
  by (simp add: same_issue_def)

lemma same_issue_trans: "same_issue i j \<Longrightarrow> same_issue j k \<Longrightarrow> same_issue i k"
  by (auto simp: same_issue_def)

lemma issue_step_refl [simp]: "issue_step db db"
proof -
  have "db = db\<lparr>issues := issues db, issue_links := issue_links db\<rparr>" by simp
  then show ?thesis unfolding issue_step_def using same_issue_refl by blast
qed

lemma issue_step_trans:
  assumes "issue_step a b" and "issue_step b c"
  shows "issue_step a c"
proof -
  obtain rs ls where b: "b = a\<lparr>issues := rs, issue_links := ls\<rparr>" using assms by (auto simp: issue_step_def)
  obtain rs' ls' where c: "c = b\<lparr>issues := rs', issue_links := ls'\<rparr>" using assms by (auto simp: issue_step_def)
  have "c = a\<lparr>issues := rs', issue_links := ls'\<rparr>" using b c by simp
  moreover have "\<exists>j \<in> set (issues c). same_issue i j" if "i \<in> set (issues a)" for i
    using assms that same_issue_trans unfolding issue_step_def by meson
  ultimately show ?thesis using assms unfolding issue_step_def by blast
qed

lemma abs_exec_issues [simp]:
  "abs_exec (db\<lparr>issues := rs\<rparr>) = abs_exec db"
  "abs_exec (db\<lparr>issue_links := ls\<rparr>) = abs_exec db"
  "abs_exec (db\<lparr>events := es\<rparr>) = abs_exec db"
  "abs_exec (db\<lparr>audio_extract_operations := os\<rparr>) = abs_exec db"
  "abs_exec (db\<lparr>audio_synthesis_operations := os\<rparr>) = abs_exec db"
  by (simp_all add: abs_exec_def)

lemma issue_step_refines: "issue_step db db' \<Longrightarrow> refines db db'"
  by (rule refines_same) (auto simp: issue_step_def wf_db_def)

lemma issue_step_insert:
  assumes ins: "insert_issue row db = Some (i, db')" and row: "\<And>k. is_id (row k) = k"
  shows "issue_step db db'" "row i \<in> set (issues db')" "db' = db\<lparr>issues := issues db @ [row i]\<rparr>"
proof -
  have i: "i = next_rowid is_id (issues db)" and db': "db' = db\<lparr>issues := issues db @ [row i]\<rparr>"
    and ok: "issue_checks (row i)" "dedupe_key_free db (is_dedupe_key (row i))"
    using ins by (auto simp: insert_issue_def Let_def split: if_splits)
  show "db' = db\<lparr>issues := issues db @ [row i]\<rparr>" by (rule db')
  show "row i \<in> set (issues db')" using db' by simp
  have wf: "wf_table is_id (issues db) \<Longrightarrow> wf_table is_id (issues db')"
    using wf_table_insert [of is_id "issues db" "row i"] i row db' by simp
  have "issue_inv db'" if "issue_inv db"
    using that ok wf unfolding issue_inv_def db' by (auto simp: dedupe_key_free_def)
  moreover have "db' = db\<lparr>issues := issues db', issue_links := issue_links db\<rparr>" using db' by simp
  moreover have "set (issues db) \<subseteq> set (issues db')" using db' by auto
  ultimately show "issue_step db db'" using wf same_issue_refl unfolding issue_step_def by blast
qed

text \<open>An update that keeps the row's identity.\<close>

definition keeps_identity :: "(issue \<Rightarrow> issue) \<Rightarrow> bool" where
  "keeps_identity f \<longleftrightarrow> (\<forall>i. same_issue i (f i))"

lemma update_issue_Inr:
  "update_issue i f db = (Inr n, db') \<longleftrightarrow> i < 2 ^ 63 \<and>
     (\<forall>r \<in> set (issues db). is_id r = i \<longrightarrow> issue_checks (f r)) \<and>
     n = rows_matching (\<lambda>r. is_id r = i) (issues db) \<and>
     db' = db\<lparr>issues := update_where (\<lambda>r. is_id r = i) f (issues db)\<rparr>"
  by (auto simp: update_issue_def bind_i64_Inr)

lemma issue_step_update:
  assumes upd: "update_issue i f db = (Inr n, db')" and keep: "keeps_identity f"
  shows "issue_step db db'"
proof -
  have ok: "\<And>r. r \<in> set (issues db) \<Longrightarrow> is_id r = i \<Longrightarrow> issue_checks (f r)"
    and db': "db' = db\<lparr>issues := update_where (\<lambda>r. is_id r = i) f (issues db)\<rparr>"
    using upd by (auto simp: update_issue_Inr)
  let ?g = "\<lambda>r. if is_id r = i then f r else r"
  have rows: "issues db' = map ?g (issues db)" using db' by (simp add: update_where_def)
  have keep': "same_issue r (?g r)" for r using keep by (simp add: keeps_identity_def)
  then have fields: "is_id (?g r) = is_id r" "is_dedupe_key (?g r) = is_dedupe_key r" for r
    by (simp_all add: same_issue_def)
  have wf: "wf_table is_id (issues db) \<Longrightarrow> wf_table is_id (issues db')"
    unfolding db' using keep by (auto intro!: wf_table_update simp: keeps_identity_def same_issue_def)
  moreover have "issue_inv db'" if inv: "issue_inv db"
  proof -
    have checks: "\<forall>j \<in> set (issues db'). issue_checks j" using inv ok rows by (auto simp: issue_inv_def)
    have uniq: "j = k" if jk: "j \<in> set (issues db')" "k \<in> set (issues db')"
      and key: "is_dedupe_key j \<noteq> None" "is_dedupe_key j = is_dedupe_key k" for j k
    proof -
      obtain a b where ab: "a \<in> set (issues db)" "j = ?g a" "b \<in> set (issues db)" "k = ?g b"
        using jk unfolding rows by auto
      then have "is_dedupe_key a \<noteq> None" "is_dedupe_key a = is_dedupe_key b" using key fields(2) by metis+
      then have "a = b" using inv ab unfolding issue_inv_def by blast
      then show ?thesis using ab by simp
    qed
    have "\<exists>j \<in> set (issues db'). is_id j = il_issue_id l" if l: "l \<in> set (issue_links db')" for l
    proof -
      obtain j where "j \<in> set (issues db)" "is_id j = il_issue_id l"
        using inv l db' by (auto simp: issue_inv_def)
      then show ?thesis using fields(1) [of j] rows by (intro bexI [of _ "?g j"]) auto
    qed
    moreover have "wf_table is_id (issues db')" using inv wf by (simp add: issue_inv_def)
    ultimately show ?thesis using checks uniq unfolding issue_inv_def by blast
  qed
  moreover have "\<exists>j \<in> set (issues db'). same_issue r j" if "r \<in> set (issues db)" for r
    using that keep' rows by (intro bexI [of _ "?g r"]) auto
  moreover have "db' = db\<lparr>issues := issues db', issue_links := issue_links db\<rparr>" using db' by simp
  ultimately show ?thesis unfolding issue_step_def by blast
qed

lemma keeps_identity_rows [simp]:
  "keeps_identity (redrafted d now)" "keeps_identity (policy_resolved t b now)"
  "keeps_identity (prioritised p reason now)" "keeps_identity (resolved_issue now)"
  "keeps_identity (suppressed_issue until now)" "keeps_identity (accepted_issue now)"
  by (simp_all add: keeps_identity_def same_issue_def redrafted_def policy_resolved_def
    prioritised_def resolved_issue_def suppressed_issue_def accepted_issue_def)

section \<open>Every operation is a step\<close>

lemma record_after_transition_state:
  "record_after_transition i n db = (Inr x, db') \<Longrightarrow> db' = db"
  by (auto simp: record_after_transition_def select_issue_record_in_tx_def bind_i64_Inr split: if_splits)

lemma operator_step:
  assumes "bind_tx (update_issue i f) (record_after_transition i) db = (Inr x, db')" and "keeps_identity f"
  shows "issue_step db db'"
  using assms issue_step_update by (auto simp: bind_tx_Inr dest!: record_after_transition_state)

lemma upsert_step:
  assumes "upsert_policy_noncompliant_in_tx d now db = (Inr m, db')"
  shows "issue_step db db'"
proof (cases "insert_issue (policy_issue d now) db")
  case (Some p)
  then show ?thesis using assms issue_step_insert(1) [of "policy_issue d now" db]
    by (cases p) (auto simp: upsert_policy_noncompliant_in_tx_def policy_issue_def)
next
  case None
  show ?thesis using assms None issue_step_update keeps_identity_rows(1)
    by (auto simp: upsert_policy_noncompliant_in_tx_def bind_tx_Inr
      split: sum.splits option.splits if_splits)
qed

lemma policy_resolve_step:
  assumes "resolve_policy_noncompliant_by_dedupe_key_in_tx k t b now db = (Inr m, db')"
  shows "issue_step db db'"
  using assms issue_step_update keeps_identity_rows(2)
  by (auto simp: resolve_policy_noncompliant_by_dedupe_key_in_tx_def bind_tx_Inr
    split: sum.splits option.splits)

lemma insert_link_Inr:
  "insert_issue_link i k t now db = (Inr u, db') \<longleftrightarrow> i < 2 ^ 63 \<and> t < 2 ^ 63 \<and>
     db' = db\<lparr>issue_links := issue_links db @ [\<lparr> il_issue_id = i, il_link_type = k,
       il_target_type = k, il_target_id = t, il_created_at = now \<rparr>]\<rparr>"
  by (auto simp: insert_issue_link_def bind_i64_Inr)

lemma link_step:
  assumes "insert_issue_link i k t now db = (Inr u, db')" and "\<exists>r \<in> set (issues db). is_id r = i"
  shows "issue_step db db'" "issues db' = issues db"
proof -
  have db': "db' = db\<lparr>issue_links := issue_links db @ [\<lparr> il_issue_id = i, il_link_type = k,
      il_target_type = k, il_target_id = t, il_created_at = now \<rparr>]\<rparr>"
    using assms(1) by (simp add: insert_link_Inr)
  then show same: "issues db' = issues db" by simp
  have "db' = db\<lparr>issues := issues db, issue_links := issue_links db'\<rparr>" using db' by simp
  moreover have "issue_inv db \<Longrightarrow> issue_inv db'" using assms(2) db' by (auto simp: issue_inv_def)
  ultimately show "issue_step db db'" unfolding issue_step_def using same by (metis same_issue_refl)
qed

definition failure_links :: "terminal_failure_issue_draft \<Rightarrow> instant \<Rightarrow> nat \<Rightarrow> issue_link list" where
  "failure_links d now i =
     \<lparr> il_issue_id = i, il_link_type = ''ticket'', il_target_type = ''ticket'',
       il_target_id = td_draft_ticket_id d, il_created_at = now \<rparr> #
     (case td_lease_id d of None \<Rightarrow> []
      | Some l \<Rightarrow> [\<lparr> il_issue_id = i, il_link_type = ''lease'', il_target_type = ''lease'',
          il_target_id = l, il_created_at = now \<rparr>])"

lemma open_failure_Inr:
  assumes "open_terminal_failure_in_tx d now db = (Inr i, db')"
  obtains (created) "insert_issue (terminal_failure_issue d now) db =
        Some (i, db\<lparr>issues := issues db @ [terminal_failure_issue d now i]\<rparr>)"
      "db' = db\<lparr>issues := issues db @ [terminal_failure_issue d now i],
                issue_links := issue_links db @ failure_links d now i\<rparr>"
  | (existing) "insert_issue (terminal_failure_issue d now) db = None" "db' = db"
      "select_terminal_failure_id db (terminal_failure_dedupe_key (td_draft_ticket_id d)) = Some i"
proof (cases "insert_issue (terminal_failure_issue d now) db")
  case None
  then show ?thesis using assms existing
    by (auto simp: open_terminal_failure_in_tx_def split: option.splits)
next
  case (Some p)
  then obtain k db1 where p: "insert_issue (terminal_failure_issue d now) db = Some (k, db1)"
    by (cases p) auto
  have db1: "db1 = db\<lparr>issues := issues db @ [terminal_failure_issue d now k]\<rparr>"
    using issue_step_insert(3) [OF p] by (simp add: terminal_failure_issue_def)
  have "i = k" "db' = db\<lparr>issues := issues db @ [terminal_failure_issue d now i],
      issue_links := issue_links db @ failure_links d now i\<rparr>"
    using assms p db1
    by (auto simp: open_terminal_failure_in_tx_def bind_tx_Inr insert_link_Inr failure_links_def
      split: option.splits)
  then show ?thesis using created p db1 by simp
qed

lemma open_failure_step:
  assumes "open_terminal_failure_in_tx d now db = (Inr i, db')"
  shows "issue_step db db'"
  using assms
proof (cases rule: open_failure_Inr)
  case created
  let ?db1 = "db\<lparr>issues := issues db @ [terminal_failure_issue d now i]\<rparr>"
  have one: "issue_step db ?db1"
    using issue_step_insert(1) [OF created(1)] by (simp add: terminal_failure_issue_def)
  have "is_id (terminal_failure_issue d now i) = i" by (simp add: terminal_failure_issue_def)
  then have "issue_inv ?db1 \<Longrightarrow> issue_inv db'" unfolding created(2)
    by (auto simp: issue_inv_def failure_links_def split: option.splits)
  moreover have "db' = ?db1\<lparr>issues := issues ?db1, issue_links := issue_links db @ failure_links d now i\<rparr>"
    unfolding created(2) by simp
  moreover have "issues db' = issues ?db1" unfolding created(2) by simp
  ultimately have "issue_step ?db1 db'" unfolding issue_step_def by (metis same_issue_refl)
  with one show ?thesis by (rule issue_step_trans)
qed simp

text \<open>Every operation that writes an issue, as one relation.\<close>

inductive issue_op :: "db \<Rightarrow> db \<Rightarrow> bool" where
  op_upsert: "upsert_policy_noncompliant_in_tx d now db = (Inr m, db') \<Longrightarrow> issue_op db db'"
| op_policy_resolve: "resolve_policy_noncompliant_by_dedupe_key_in_tx k t b now db = (Inr r, db') \<Longrightarrow> issue_op db db'"
| op_open_failure: "open_terminal_failure_in_tx f now db = (Inr i, db') \<Longrightarrow> issue_op db db'"
| op_priority: "update_priority_in_tx i p reason now db = (Inr x, db') \<Longrightarrow> issue_op db db'"
| op_resolve: "issue_resolve_in_tx i now db = (Inr x, db') \<Longrightarrow> issue_op db db'"
| op_suppress: "issue_suppress_in_tx i until now db = (Inr x, db') \<Longrightarrow> issue_op db db'"
| op_accept: "issue_accept_in_tx i now db = (Inr x, db') \<Longrightarrow> issue_op db db'"

lemma issue_op_step: "issue_op db db' \<Longrightarrow> issue_step db db'"
  by (induction rule: issue_op.induct)
    (auto intro: upsert_step policy_resolve_step open_failure_step operator_step
      simp: update_priority_in_tx_def issue_resolve_in_tx_def issue_suppress_in_tx_def issue_accept_in_tx_def)

lemma issue_ops_step: "issue_op\<^sup>*\<^sup>* db db' \<Longrightarrow> issue_step db db'"
  by (induction rule: rtranclp_induct) (auto intro: issue_step_trans issue_op_step)

lemma find_unique:
  assumes "x \<in> set xs" and "P x" and "\<And>y. y \<in> set xs \<Longrightarrow> P y \<Longrightarrow> y = x"
  shows "find P xs = Some x"
proof (cases "find P xs")
  case None
  then show ?thesis using assms(1,2) by (auto simp: find_None_iff)
next
  case (Some y)
  then show ?thesis using assms(3) [of y] find_Some_in [of P xs y] by simp
qed

lemma issue_by_key_unique:
  assumes "issue_inv db" and "i \<in> set (issues db)" and "is_dedupe_key i = Some k" and "Q i"
  shows "find (\<lambda>j. Q j \<and> is_dedupe_key j = Some k) (issues db) = Some i"
proof (rule find_unique)
  fix j assume "j \<in> set (issues db)" "Q j \<and> is_dedupe_key j = Some k"
  then show "j = i" using assms unfolding issue_inv_def by (metis option.distinct(1))
qed (use assms in auto)

lemma issue_by_key_None:
  "find (\<lambda>j. Q j \<and> is_dedupe_key j = Some k) (issues db) = None \<longleftrightarrow>
     (\<forall>j \<in> set (issues db). is_dedupe_key j = Some k \<longrightarrow> \<not> Q j)"
  by (auto simp: find_None_iff)

section \<open>Properties\<close>

text \<open>The issue a terminal failure of a ticket is filed under.\<close>

lemma open_failure_row:
  assumes "open_terminal_failure_in_tx d now db = (Inr i, db')"
  shows "\<exists>r \<in> set (issues db'). is_id r = i \<and> is_kind r = TerminalFailure \<and>
    is_dedupe_key r = Some (terminal_failure_dedupe_key (td_draft_ticket_id d))"
  using assms
proof (cases rule: open_failure_Inr)
  case created
  then show ?thesis by (intro bexI [of _ "terminal_failure_issue d now i"]) (simp_all add: terminal_failure_issue_def)
next
  case existing
  then show ?thesis by (auto simp: select_terminal_failure_id_def dest: find_Some_in)
qed

lemma open_failure_again:
  assumes r: "r \<in> set (issues db)" "is_kind r = TerminalFailure"
      "is_dedupe_key r = Some (terminal_failure_dedupe_key (td_draft_ticket_id d))"
    and inv: "issue_inv db"
  shows "open_terminal_failure_in_tx d now db = (Inr (is_id r), db)"
proof -
  have "insert_issue (terminal_failure_issue d now) db = None"
    using r by (auto simp: insert_issue_def Let_def dedupe_key_free_def terminal_failure_issue_def)
  then show ?thesis using issue_by_key_unique [OF inv r(1,3), of "\<lambda>j. is_kind j = TerminalFailure"] r(2)
    by (simp add: open_terminal_failure_in_tx_def select_terminal_failure_id_def)
qed

text \<open>
  C16. A ticket has one terminal-failure issue: once it was filed, filing it again, with whatever
  text, class or lease, returns the same issue and writes nothing, and no other ticket's failure
  is filed under it.
\<close>

theorem terminal_failure_filed_once:
  assumes "issue_inv db" and "open_terminal_failure_in_tx d now db = (Inr i, db')"
  shows "(td_draft_ticket_id d' = td_draft_ticket_id d \<longrightarrow>
      open_terminal_failure_in_tx d' now' db' = (Inr i, db')) \<and>
    (td_draft_ticket_id d' \<noteq> td_draft_ticket_id d \<longrightarrow>
      open_terminal_failure_in_tx d' now' db' = (Inr i', db'') \<longrightarrow> i' \<noteq> i)"
proof (intro conjI impI notI)
  have inv: "issue_inv db'" using open_failure_step [OF assms(2)] assms(1) by (simp add: issue_step_def)
  obtain r where r: "r \<in> set (issues db')" "is_id r = i" "is_kind r = TerminalFailure"
      "is_dedupe_key r = Some (terminal_failure_dedupe_key (td_draft_ticket_id d))"
    using open_failure_row [OF assms(2)] by blast
  show "open_terminal_failure_in_tx d' now' db' = (Inr i, db')"
    if "td_draft_ticket_id d' = td_draft_ticket_id d"
    using open_failure_again [of r db' d' now'] r inv that by simp
  assume other: "td_draft_ticket_id d' \<noteq> td_draft_ticket_id d" and same: "i' = i"
    and opened: "open_terminal_failure_in_tx d' now' db' = (Inr i', db'')"
  have step: "issue_step db' db''" by (rule open_failure_step [OF opened])
  obtain r' where r': "r' \<in> set (issues db'')" "is_id r' = i'"
      "is_dedupe_key r' = Some (terminal_failure_dedupe_key (td_draft_ticket_id d'))"
    using open_failure_row [OF opened] by blast
  obtain r1 where r1: "r1 \<in> set (issues db'')" "same_issue r r1"
    using step r(1) unfolding issue_step_def by blast
  have "wf_table is_id (issues db'')" using step inv by (simp add: issue_step_def issue_inv_def)
  moreover have "is_id r1 = is_id r'" using r1(2) r(2) r'(2) same by (simp add: same_issue_def)
  ultimately have "r1 = r'" using r'(1) r1(1) by (meson wf_table_inj inj_onD)
  then show False using r'(3) r1(2) r(4) other
    by (simp add: same_issue_def terminal_failure_dedupe_key_def show_nat_inj)
qed

definition mutation :: "policy_issue_mutation_kind \<Rightarrow> nat \<Rightarrow> policy_issue_draft \<Rightarrow> nat \<Rightarrow> policy_issue_mutation" where
  "mutation k i d e = \<lparr> pm_kind = k, pm_row = \<lparr> pi_id = i, pi_dedupe_key = pd_dedupe_key d,
     pi_status = pd_status d, pi_epoch = e \<rparr> \<rparr>"

definition carries_draft :: "policy_issue_draft \<Rightarrow> issue \<Rightarrow> bool" where
  "carries_draft d i \<longleftrightarrow> is_status i = stored_status (pd_status d) \<and> is_title i = pd_title d \<and>
     is_body i = pd_body d \<and> is_priority_reason i = Some (pd_priority_reason d)"

lemma policy_issue_checks: "issue_checks (policy_issue d now i) \<longleftrightarrow> pd_status d \<noteq> PolicyResolved"
  by (cases "pd_status d") (simp_all add: issue_checks_def policy_issue_def)

lemma redrafted_checks:
  "issue_checks i \<Longrightarrow> is_status i \<noteq> IssueSuppressed \<Longrightarrow>
     issue_checks (redrafted d now i) \<longleftrightarrow> pd_status d \<noteq> PolicyResolved"
  by (cases "pd_status d") (simp_all add: issue_checks_def redrafted_def)

lemma row_to_policy_issue_eq:
  "is_dedupe_key i = Some k \<Longrightarrow> row_to_policy_issue i =
     (if is_status i \<in> {IssueSuppressed, IssueAccepted} then Inl Database
      else Inr \<lparr> pi_id = is_id i, pi_dedupe_key = k,
        pi_status = (if is_status i = IssueOpen then PolicyOpen else
          if is_status i = IssuePlanned then PolicyPlanned else PolicyResolved),
        pi_epoch = is_epoch i \<rparr>)"
  by (cases "is_status i") (simp_all add: row_to_policy_issue_def policy_issue_status_parse_def)

lemma upsert_new:
  assumes "\<forall>j \<in> set (issues db). is_dedupe_key j \<noteq> Some (pd_dedupe_key d)"
  shows "upsert_policy_noncompliant_in_tx d now db =
    (if pd_status d = PolicyResolved then (Inl Database, db)
     else (Inr (mutation MutationCreated (next_rowid is_id (issues db)) d 0),
           db\<lparr>issues := issues db @ [policy_issue d now (next_rowid is_id (issues db))]\<rparr>))"
proof -
  have "dedupe_key_free db (is_dedupe_key (policy_issue d now k))" for k
    using assms by (simp add: dedupe_key_free_def policy_issue_def)
  then have ins: "insert_issue (policy_issue d now) db = (if pd_status d = PolicyResolved then None
      else Some (next_rowid is_id (issues db),
        db\<lparr>issues := issues db @ [policy_issue d now (next_rowid is_id (issues db))]\<rparr>))"
    by (simp add: insert_issue_def Let_def policy_issue_checks)
  have "policy_issue_by_key db (pd_dedupe_key d) = None"
    using assms by (simp add: policy_issue_by_key_def find_None_iff)
  then show ?thesis
    by (simp add: upsert_policy_noncompliant_in_tx_def ins select_issue_detail_def mutation_def)
qed

lemma upsert_existing:
  assumes inv: "issue_inv db" and i: "i \<in> set (issues db)" "is_dedupe_key i = Some (pd_dedupe_key d)"
    and id: "is_id i < 2 ^ 63"
  shows "upsert_policy_noncompliant_in_tx d now db =
    (if is_kind i \<noteq> PolicyNoncompliant \<or> is_status i \<in> {IssueSuppressed, IssueAccepted} then (Inl Database, db)
     else if carries_draft d i then (Inr (mutation MutationUnchanged (is_id i) d (is_epoch i)), db)
     else if pd_status d = PolicyResolved then (Inl Database, db)
     else (Inr (mutation MutationUpdated (is_id i) d (Suc (is_epoch i))),
           db\<lparr>issues := update_where (\<lambda>r. is_id r = is_id i) (redrafted d now) (issues db)\<rparr>))"
proof -
  have ins: "insert_issue (policy_issue d now) db = None"
    using i by (auto simp: insert_issue_def Let_def dedupe_key_free_def policy_issue_def)
  show ?thesis
  proof (cases "is_kind i = PolicyNoncompliant")
    case False
    then have "policy_issue_by_key db (pd_dedupe_key d) = None"
      using inv i unfolding policy_issue_by_key_def issue_inv_def issue_by_key_None
      by (metis option.distinct(1))
    then show ?thesis using False
      by (simp add: upsert_policy_noncompliant_in_tx_def ins select_issue_detail_def)
  next
    case True
    then have det: "policy_issue_by_key db (pd_dedupe_key d) = Some i"
      using issue_by_key_unique [OF inv i, of "\<lambda>j. is_kind j = PolicyNoncompliant"]
      by (simp add: policy_issue_by_key_def)
    have "wf_table is_id (issues db)" using inv by (simp add: issue_inv_def)
    then have same: "r = i" if "r \<in> set (issues db)" "is_id r = is_id i" for r
      using wf_table_same i(1) that by metis
    then have rows: "(\<exists>r \<in> set (issues db). is_id r = is_id i \<and> \<not> issue_checks (redrafted d now r)) \<longleftrightarrow>
        \<not> issue_checks (redrafted d now i)"
      using i(1) by blast
    have "issue_checks i" using inv i(1) by (simp add: issue_inv_def)
    then show ?thesis using True id
      by (cases "is_status i"; cases "pd_status d")
        (simp_all add: upsert_policy_noncompliant_in_tx_def ins select_issue_detail_def det
          row_to_policy_issue_eq [OF i(2)] draft_unchanged_def carries_draft_def mutation_def
          update_issue_def bind_i64_apply rows redrafted_checks bind_tx_def return_tx_def)
  qed
qed


lemma operator_closed:
  assumes run: "bind_tx (update_issue i f) (record_after_transition i) db = (Inr (Some r), db')"
    and inv: "issue_inv db" and keep: "keeps_identity f"
    and st: "\<And>j. is_status (f j) \<in> {IssueSuppressed, IssueAccepted}"
  shows "r \<in> set (issues db')" "is_status r \<in> {IssueSuppressed, IssueAccepted}" "is_id r < 2 ^ 63" "issue_inv db'"
proof -
  obtain n db1 where upd: "update_issue i f db = (Inr n, db1)"
    and re: "record_after_transition i n db1 = (Inr (Some r), db')"
    using run by (auto simp: bind_tx_Inr)
  then have db': "db' = db1" using record_after_transition_state by blast
  have r: "r \<in> set (issues db1)" "is_id r = i" "i < 2 ^ 63"
    using re by (auto simp: record_after_transition_def select_issue_record_in_tx_def bind_i64_Inr
      issue_by_id_def split: if_splits dest!: sym [of "Some r"] find_Some_in)
  have "issues db1 = update_where (\<lambda>r. is_id r = i) f (issues db)" using upd by (auto simp: update_issue_Inr)
  then obtain j where "j \<in> set (issues db)" "r = (if is_id j = i then f j else j)"
    using r(1) by (auto simp: update_where_def)
  then show "is_status r \<in> {IssueSuppressed, IssueAccepted}" using r(2) st by (auto split: if_splits)
  show "r \<in> set (issues db')" "is_id r < 2 ^ 63" using r db' by simp_all
  show "issue_inv db'" using issue_step_update [OF upd keep] inv db' by (simp add: issue_step_def)
qed



section \<open>Witnesses\<close>

definition example_draft :: policy_issue_draft where
  "example_draft = \<lparr> pd_dedupe_key = ''k'', pd_status = PolicyOpen, pd_title = ''t'', pd_body = ''b'',
     pd_priority_reason = ''r'' \<rparr>"

definition example_failure :: "nat \<Rightarrow> terminal_failure_issue_draft" where
  "example_failure t = \<lparr> td_draft_ticket_id = t, td_lease_id = Some 4, td_severity = issue_severity.High,
     td_priority = issue_priority.High, td_priority_reason = ''r'', td_title = ''t'', td_body = ''b'' \<rparr>"

definition example_issue_db :: db where
  "example_issue_db = empty_db\<lparr>issues := [policy_issue example_draft 5 1]\<rparr>"

lemma empty_issue_inv: "issue_inv empty_db"
  by (simp add: issue_inv_def empty_db_def)

lemma example_issue_inv: "issue_inv example_issue_db"
  by (simp add: issue_inv_def example_issue_db_def empty_db_def wf_table_def issue_checks_def
    policy_issue_def example_draft_def)

theorem terminal_failure_filed_once_witness:
  "\<exists>db'. open_terminal_failure_in_tx (example_failure 7) 5 empty_db = (Inr 1, db') \<and>
     open_terminal_failure_in_tx (example_failure 7) 9 db' = (Inr 1, db')"
proof -
  have "\<exists>db'. open_terminal_failure_in_tx (example_failure 7) 5 empty_db = (Inr 1, db')"
    by (simp add: open_terminal_failure_in_tx_def insert_issue_def Let_def next_rowid_def empty_db_def
      issue_checks_def terminal_failure_issue_def dedupe_key_free_def example_failure_def
      insert_issue_link_def bind_i64_apply bind_tx_def modify_tx_def return_tx_def)
  then show ?thesis using terminal_failure_filed_once [OF empty_issue_inv] by blast
qed




end
