(* ===== verification/Locators.thy ===== *)
theory Locators
  imports Store
begin

text \<open>
  Storage vocabularies and locators (\<^verbatim>\<open>crates/voom-core/src/taxonomy/storage.rs\<close>). A
  provider-relative locator names a file below a storage root; its validator is compared with
  the \<^verbatim>\<open>CHECK\<close> constraint the database repeats it in, and shown to keep a path inside its root.
\<close>

section \<open>Vocabularies\<close>

datatype storage_provider_kind = LocalFilesystem

primrec storage_provider_kind_as_str :: "storage_provider_kind \<Rightarrow> string" where
  "storage_provider_kind_as_str LocalFilesystem = ''local_filesystem''"

definition storage_provider_kind_from_wire :: "string \<Rightarrow> storage_provider_kind option" where
  "storage_provider_kind_from_wire s = (if s = ''local_filesystem'' then Some LocalFilesystem else None)"

datatype storage_root_state =
    RootUnassigned | RootConfigured | RootActive | RootUnavailable | RootRetired

primrec storage_root_state_as_str :: "storage_root_state \<Rightarrow> string" where
  "storage_root_state_as_str RootUnassigned = ''unassigned''"
| "storage_root_state_as_str RootConfigured = ''configured''"
| "storage_root_state_as_str RootActive = ''active''"
| "storage_root_state_as_str RootUnavailable = ''unavailable''"
| "storage_root_state_as_str RootRetired = ''retired''"

definition storage_root_state_from_wire :: "string \<Rightarrow> storage_root_state option" where
  "storage_root_state_from_wire s =
    (if s = ''unassigned'' then Some RootUnassigned else
     if s = ''configured'' then Some RootConfigured else
     if s = ''active'' then Some RootActive else
     if s = ''unavailable'' then Some RootUnavailable else
     if s = ''retired'' then Some RootRetired else None)"

interpretation storage_provider_kind:
  wire_vocab storage_provider_kind_as_str storage_provider_kind_from_wire
proof
  show "storage_provider_kind_from_wire (storage_provider_kind_as_str x) = Some x" for x
    by (cases x) (simp_all add: storage_provider_kind_from_wire_def)
  show "storage_provider_kind_from_wire s = Some x \<Longrightarrow> storage_provider_kind_as_str x = s" for s x
    by (auto simp: storage_provider_kind_from_wire_def split: if_splits)
qed

interpretation storage_root_state: wire_vocab storage_root_state_as_str storage_root_state_from_wire
proof
  show "storage_root_state_from_wire (storage_root_state_as_str x) = Some x" for x
    by (cases x) (simp_all add: storage_root_state_from_wire_def)
  show "storage_root_state_from_wire s = Some x \<Longrightarrow> storage_root_state_as_str x = s" for s x
    by (auto simp: storage_root_state_from_wire_def split: if_splits)
qed

section \<open>Validation\<close>

definition MAX_LOCATOR_BYTES :: nat where
  "MAX_LOCATOR_BYTES = 4096"

definition NUL :: char where
  "NUL = CHR 0x00"

text \<open>Splitting at a separator: a string without it is one component, also the empty one.\<close>

fun split_on :: "char \<Rightarrow> string \<Rightarrow> string list" where
  "split_on c [] = [[]]"
| "split_on c (x # xs) =
     (if x = c then [] # split_on c xs
      else case split_on c xs of [] \<Rightarrow> [[x]] | y # ys \<Rightarrow> (x # y) # ys)"

definition validate_provider_locator :: "string \<Rightarrow> bool" where
  "validate_provider_locator v \<longleftrightarrow> v \<noteq> [] \<and> length v \<le> MAX_LOCATOR_BYTES \<and> NUL \<notin> set v"

definition invalid_component :: "string \<Rightarrow> bool" where
  "invalid_component c \<longleftrightarrow> c = [] \<or> c = ''.'' \<or> c = ''..''"

definition ascii_alphabetic :: "char \<Rightarrow> bool" where
  "ascii_alphabetic c \<longleftrightarrow> (let n = of_char c :: nat in 65 \<le> n \<and> n \<le> 90 \<or> 97 \<le> n \<and> n \<le> 122)"

fun is_windows_drive_prefix :: "string \<Rightarrow> bool" where
  "is_windows_drive_prefix (a # b # _) \<longleftrightarrow> ascii_alphabetic a \<and> b = CHR '':''"
| "is_windows_drive_prefix _ \<longleftrightarrow> False"

definition validate_relative_locator :: "string \<Rightarrow> bool" where
  "validate_relative_locator v \<longleftrightarrow> validate_provider_locator v \<and>
     \<not> (hd v = CHR ''/'' \<or> last v = CHR ''/'') \<and> CHR 0x5C \<notin> set v \<and>
     (let components = split_on CHR ''/'' v in
        \<not> is_windows_drive_prefix (hd components) \<and> \<not> list_ex invalid_component components)"

definition provider_locator_new :: "string \<Rightarrow> string res" where
  "provider_locator_new v = (if validate_provider_locator v then Inr v else Inl Config)"

definition provider_relative_locator_new :: "string \<Rightarrow> string res" where
  "provider_relative_locator_new v = (if validate_relative_locator v then Inr v else Inl Config)"

definition provider_relative_locator_parse_database :: "string \<Rightarrow> string res" where
  "provider_relative_locator_parse_database v = (if validate_relative_locator v then Inr v else Inl Database)"

section \<open>The constraint of the schema\<close>

text \<open>SQLite's \<^verbatim>\<open>instr\<close>: whether a string occurs in another.\<close>

fun occurs :: "string \<Rightarrow> string \<Rightarrow> bool" where
  "occurs p s \<longleftrightarrow> take (length p) s = p \<or> (case s of [] \<Rightarrow> False | _ # s' \<Rightarrow> occurs p s')"

declare occurs.simps [simp del]

definition locator_check :: "string \<Rightarrow> bool" where
  "locator_check v \<longleftrightarrow> 1 \<le> length v \<and> length v \<le> 4096 \<and> NUL \<notin> set v \<and> CHR 0x5C \<notin> set v \<and>
     take 1 v \<noteq> ''/'' \<and> take 1 (rev v) \<noteq> ''/'' \<and> \<not> occurs ''//'' v \<and>
     \<not> occurs ''/./'' (''/'' @ v @ ''/'') \<and> \<not> occurs ''/../'' (''/'' @ v @ ''/'')"

section \<open>Components and occurrences\<close>

lemma split_on_nonempty [simp]: "split_on c s \<noteq> []"
  by (induction s) (auto split: list.splits)

lemma split_on_component: "c \<notin> set s \<Longrightarrow> split_on c s = [s]"
  by (induction s) auto

lemma split_on_append: "c \<notin> set p \<Longrightarrow> split_on c (p @ c # s) = p # split_on c s"
  by (induction p) (auto split: list.splits)

lemma occurs_Cons: "occurs p (x # s) \<longleftrightarrow> take (length p) (x # s) = p \<or> occurs p s"
  by (subst occurs.simps) simp

lemma occurs_Nil: "occurs p [] \<longleftrightarrow> p = []"
  by (subst occurs.simps) auto

lemma occurs_skip: "c \<notin> set t \<Longrightarrow> occurs (c # p) (t @ s) \<longleftrightarrow> occurs (c # p) s"
  by (induction t) (auto simp: occurs_Cons)

lemma take_component:
  "c \<notin> set p \<Longrightarrow> c \<notin> set q \<Longrightarrow> take (length (p @ [c])) (q @ c # s) = p @ [c] \<longleftrightarrow> p = q"
proof (induction p arbitrary: q)
  case Nil
  then show ?case by (cases q) auto
next
  case (Cons x p)
  then show ?case by (cases q) auto
qed

text \<open>A component occurs between separators exactly when it is one of the components.\<close>

lemma occurs_component:
  assumes "c \<notin> set p"
  shows "occurs (c # p @ [c]) (c # s @ [c]) \<longleftrightarrow> p \<in> set (split_on c s)"
proof (induction s rule: length_induct)
  case (1 s)
  show ?case
  proof (cases "c \<in> set s")
    case False
    have "occurs (c # p @ [c]) (s @ [c]) \<longleftrightarrow> occurs (c # p @ [c]) [c]"
      by (rule occurs_skip [OF False])
    then have "\<not> occurs (c # p @ [c]) (s @ [c])" by (simp add: occurs_Cons occurs_Nil)
    then show ?thesis using False take_component [OF assms False, of "[]"]
      by (auto simp: occurs_Cons split_on_component)
  next
    case True
    then obtain q t where s: "s = q @ c # t" and q: "c \<notin> set q" by (meson split_list_first)
    have "occurs (c # p @ [c]) (c # s @ [c]) \<longleftrightarrow> p = q \<or> occurs (c # p @ [c]) (c # t @ [c])"
      using occurs_skip [OF q, of "p @ [c]" "c # t @ [c]"] take_component [OF assms q, of "t @ [c]"]
      by (simp add: occurs_Cons s)
    also have "\<dots> \<longleftrightarrow> p = q \<or> p \<in> set (split_on c t)" using 1 s by auto
    finally show ?thesis using s q by (simp add: split_on_append)
  qed
qed

lemma occurs_snoc: "occurs [a, b] (s @ [x]) \<longleftrightarrow> occurs [a, b] s \<or> (s \<noteq> [] \<and> last s = a \<and> x = b)"
proof (induction s)
  case (Cons y s)
  then show ?case by (cases s) (auto simp: occurs_Cons occurs_Nil)
qed (simp add: occurs_Cons occurs_Nil)

lemma empty_component:
  assumes "s \<noteq> []"
  shows "[] \<in> set (split_on c s) \<longleftrightarrow> hd s = c \<or> last s = c \<or> occurs [c, c] s"
proof -
  have "[] \<in> set (split_on c s) \<longleftrightarrow> occurs [c, c] (c # s @ [c])"
    using occurs_component [of c "[]" s] by simp
  also have "\<dots> \<longleftrightarrow> hd s = c \<or> occurs [c, c] (s @ [c])"
    using assms by (cases s) (auto simp: occurs_Cons)
  finally show ?thesis using assms by (auto simp: occurs_snoc)
qed

lemma take1: "s \<noteq> [] \<Longrightarrow> take 1 s = [c] \<longleftrightarrow> hd s = c"
  by (cases s) auto

lemma validator_iff_check:
  "validate_relative_locator v \<longleftrightarrow>
     locator_check v \<and> \<not> is_windows_drive_prefix (hd (split_on CHR ''/'' v))"
proof (cases "v = []")
  case False
  have comps: "list_ex invalid_component (split_on CHR ''/'' v) \<longleftrightarrow>
      [] \<in> set (split_on CHR ''/'' v) \<or> ''.'' \<in> set (split_on CHR ''/'' v) \<or> ''..'' \<in> set (split_on CHR ''/'' v)"
    by (auto simp: list_ex_iff invalid_component_def)
  show ?thesis
    unfolding validate_relative_locator_def validate_provider_locator_def locator_check_def Let_def comps
    using False empty_component [OF False, of "CHR ''/''"]
      occurs_component [of "CHR ''/''" "''.''" v] occurs_component [of "CHR ''/''" "''..''" v]
      take1 [OF False, of "CHR ''/''"] take1 [of "rev v" "CHR ''/''"]
    by (auto simp: MAX_LOCATOR_BYTES_def hd_rev Suc_le_eq)
qed (simp add: validate_relative_locator_def validate_provider_locator_def locator_check_def)

section \<open>Properties\<close>

text \<open>
  C26. The locator validator accepts exactly the strings the schema's \<^verbatim>\<open>CHECK\<close> accepts, minus
  those whose first component looks like a Windows drive: a locator that passed validation is
  never refused by the database, and a stored one that fails to decode has a drive prefix.
\<close>

theorem locator_validator_matches_schema:
  "validate_relative_locator v \<longleftrightarrow>
     locator_check v \<and> \<not> is_windows_drive_prefix (hd (split_on CHR ''/'' v))"
  by (rule validator_iff_check)

text \<open>Walking a path below a root: a dot stays, two dots leave the last directory.\<close>

fun walk_path :: "string list \<Rightarrow> string list \<Rightarrow> string list" where
  "walk_path dir [] = dir"
| "walk_path dir (c # cs) =
     (if c = [] \<or> c = ''.'' then walk_path dir cs
      else if c = ''..'' then walk_path (butlast dir) cs
      else walk_path (dir @ [c]) cs)"

lemma walk_path_plain: "\<not> list_ex invalid_component cs \<Longrightarrow> walk_path dir cs = dir @ cs"
  by (induction cs arbitrary: dir) (auto simp: invalid_component_def)

text \<open>
  C25. A validated locator cannot leave its storage root: walking its components from any root
  ends in that root extended by at least one component, and no prefix of the walk leaves it.
\<close>

theorem locator_stays_below_root:
  assumes "provider_relative_locator_new v = Inr l"
  shows "\<exists>cs. cs \<noteq> [] \<and> walk_path root (split_on CHR ''/'' l) = root @ cs \<and>
    (\<forall>n. walk_path root (take n (split_on CHR ''/'' l)) = root @ take n cs)"
proof (intro exI conjI allI)
  have ok: "\<not> list_ex invalid_component (split_on CHR ''/'' l)"
    using assms by (auto simp: provider_relative_locator_new_def validate_relative_locator_def Let_def
      split: if_splits)
  then show "walk_path root (split_on CHR ''/'' l) = root @ split_on CHR ''/'' l"
    by (rule walk_path_plain)
  show "walk_path root (take n (split_on CHR ''/'' l)) = root @ take n (split_on CHR ''/'' l)" for n
    using ok by (intro walk_path_plain) (auto simp: list_ex_iff dest: in_set_takeD)
qed simp

theorem locator_stays_below_root_witness:
  "\<exists>cs. cs \<noteq> [] \<and> walk_path [''srv''] (split_on CHR ''/'' ''a/b.mkv'') = [''srv''] @ cs \<and>
    (\<forall>n. walk_path [''srv''] (take n (split_on CHR ''/'' ''a/b.mkv'')) = [''srv''] @ take n cs)"
proof (rule locator_stays_below_root)
  show "provider_relative_locator_new ''a/b.mkv'' = Inr ''a/b.mkv''"
    by (simp add: provider_relative_locator_new_def validate_relative_locator_def
      validate_provider_locator_def Let_def MAX_LOCATOR_BYTES_def NUL_def invalid_component_def)
qed

end
