(* ===== verification/Scan_Sessions.thy ===== *)
theory Scan_Sessions
  imports Issues Locators
begin

text \<open>
  The scan session repository (\<^verbatim>\<open>crates/voom-store/src/repo/scan/sessions.rs\<close>): the lifecycle of
  a scan of a storage root, the ledger of observation batches an owner node delivers in order,
  the staleness sweeps, and the constraints, unique indexes, foreign keys and triggers of its
  three tables. The evidence of an observation is stored as a value; the length in bytes of its
  JSON text, which the JSON library decides, is the parameter \<open>json_len\<close>.
\<close>

section \<open>Validation of values\<close>

definition MAX_SCAN_SESSION_OBSERVATIONS :: nat where
  "MAX_SCAN_SESSION_OBSERVATIONS = 100000"

definition ascii_whitespace :: "char \<Rightarrow> bool" where
  "ascii_whitespace c \<longleftrightarrow> (of_char c :: nat) \<in> {9, 10, 12, 13, 32}"

definition validate_terminal_reason :: "string \<Rightarrow> bool" where
  "validate_terminal_reason v \<longleftrightarrow> \<not> list_all ascii_whitespace v \<and> length v \<le> 1024 \<and> NUL \<notin> set v"

definition scan_terminal_reason_new :: "string \<Rightarrow> string res" where
  "scan_terminal_reason_new v = (if validate_terminal_reason v then Inr v else Inl Config)"

definition lowercase_hex :: "char \<Rightarrow> bool" where
  "lowercase_hex c \<longleftrightarrow> (let n = of_char c :: nat in 48 \<le> n \<and> n \<le> 57 \<or> 97 \<le> n \<and> n \<le> 102)"

definition ascii_hexdigit :: "char \<Rightarrow> bool" where
  "ascii_hexdigit c \<longleftrightarrow> (let n = of_char c :: nat in
     48 \<le> n \<and> n \<le> 57 \<or> 65 \<le> n \<and> n \<le> 70 \<or> 97 \<le> n \<and> n \<le> 102)"

definition is_lowercase_sha256 :: "string \<Rightarrow> bool" where
  "is_lowercase_sha256 v \<longleftrightarrow> length v = 64 \<and> list_all lowercase_hex v"

definition validate_blake3_hex :: "string \<Rightarrow> bool" where
  "validate_blake3_hex v \<longleftrightarrow> length v = 64 \<and> list_all ascii_hexdigit v"

definition validate_blake3_hash :: "string \<Rightarrow> bool" where
  "validate_blake3_hash v = (case strip_prefix ''blake3:'' v of None \<Rightarrow> False | Some h \<Rightarrow> validate_blake3_hex h)"

definition validate_sidecar :: "scan_sidecar_evidence \<Rightarrow> bool" where
  "validate_sidecar s \<longleftrightarrow> validate_provider_locator (se_provider_relative_locator s) \<and>
     se_role s \<in> {''external_subtitle'', ''nfo'', ''poster'', ''trailer''} \<and>
     validate_blake3_hex (se_blake3_hex s)"

definition MAX_EVIDENCE_SIDECARS :: nat where
  "MAX_EVIDENCE_SIDECARS = 64"

definition MAX_EVIDENCE_BYTES :: nat where
  "MAX_EVIDENCE_BYTES = 64 * 1024"

definition validate_evidence :: "(scan_observation_evidence \<Rightarrow> nat) \<Rightarrow> scan_observation_evidence \<Rightarrow> bool" where
  "validate_evidence json_len e \<longleftrightarrow> validate_blake3_hash (oe_content_hash e) \<and>
     length (oe_sidecars e) \<le> MAX_EVIDENCE_SIDECARS \<and> list_all validate_sidecar (oe_sidecars e) \<and>
     json_len e \<le> MAX_EVIDENCE_BYTES"

section \<open>Decoding a session row\<close>

definition scan_is_active :: "scan_session \<Rightarrow> bool" where
  "scan_is_active s \<longleftrightarrow> ss_terminal_at s = None \<and> ss_terminal_reason s = None"

definition has_start_bindings :: "scan_session \<Rightarrow> bool" where
  "has_start_bindings s \<longleftrightarrow> ss_owner_incarnation_id s \<noteq> None \<and> ss_started_at s \<noteq> None"

definition is_unbound :: "scan_session \<Rightarrow> bool" where
  "is_unbound s \<longleftrightarrow> ss_owner_incarnation_id s = None \<and> ss_started_at s = None \<and>
     ss_location_high_watermark_id s = None"

definition has_success_shape :: "scan_session \<Rightarrow> bool" where
  "has_success_shape s \<longleftrightarrow> has_start_bindings s \<and> ss_terminal_at s \<noteq> None \<and> ss_terminal_reason s = None"

definition has_unsuccessful_terminal_shape :: "scan_session \<Rightarrow> bool" where
  "has_unsuccessful_terminal_shape s \<longleftrightarrow> ss_terminal_at s \<noteq> None \<and> ss_terminal_reason s \<noteq> None \<and>
     (has_start_bindings s \<or> is_unbound s)"

definition has_valid_lifecycle_shape :: "scan_session \<Rightarrow> bool" where
  "has_valid_lifecycle_shape s = (case ss_status s of
       ScanRequested \<Rightarrow> scan_is_active s \<and> is_unbound s
     | ScanRunning \<Rightarrow> scan_is_active s \<and> has_start_bindings s
     | ScanSucceeded \<Rightarrow> has_success_shape s
     | _ \<Rightarrow> has_unsuccessful_terminal_shape s)"

definition has_coherent_progress_counters :: "scan_session \<Rightarrow> bool" where
  "has_coherent_progress_counters s \<longleftrightarrow>
     (if ss_batch_count s \<noteq> ss_next_sequence s then False
      else if ss_batch_count s = 0 then ss_observation_count s = 0
      else if ss_observation_count s < ss_batch_count s then False
      else ss_batch_count s * 1000 \<le> u64_max \<longrightarrow> ss_observation_count s \<le> ss_batch_count s * 1000)"

definition validate_scan_session :: "scan_session \<Rightarrow> bool" where
  "validate_scan_session s \<longleftrightarrow>
     1 \<le> ss_idle_timeout_seconds s \<and> ss_idle_timeout_seconds s \<le> 86400 \<and>
     \<not> (ss_status s \<noteq> ScanSucceeded \<and> ss_retired_location_count s \<noteq> 0) \<and>
     ss_observation_count s \<le> MAX_SCAN_SESSION_OBSERVATIONS \<and>
     has_coherent_progress_counters s \<and> has_valid_lifecycle_shape s"

definition optional_terminal_reason :: "scan_session \<Rightarrow> bool" where
  "optional_terminal_reason s = (case ss_terminal_reason s of None \<Rightarrow> True | Some r \<Rightarrow> validate_terminal_reason r)"

definition row_to_scan_session :: "scan_session \<Rightarrow> scan_session res" where
  "row_to_scan_session s =
     (if optional_terminal_reason s \<and> validate_scan_session s then Inr s else Inl Database)"

definition attributed_location_count :: "db \<Rightarrow> scan_session \<Rightarrow> nat" where
  "attributed_location_count db s =
     rows_matching (\<lambda>l. fl_retired_by_scan_session_id l = Some (ss_id s)) (file_locations db)"

definition validate_scan_session_integrity :: "scan_session \<Rightarrow> nat \<Rightarrow> bool" where
  "validate_scan_session_integrity s n \<longleftrightarrow>
     \<not> (ss_status s \<noteq> ScanSucceeded \<and> n \<noteq> 0) \<and>
     \<not> (ss_status s = ScanSucceeded \<and> ss_retired_location_count s \<noteq> n)"

definition row_to_inspected_scan_session :: "db \<Rightarrow> scan_session \<Rightarrow> scan_session res" where
  "row_to_inspected_scan_session db s = (case row_to_scan_session s of Inl e \<Rightarrow> Inl e
     | Inr s \<Rightarrow> if validate_scan_session_integrity s (attributed_location_count db s) then Inr s else Inl Database)"

definition owner_incarnation_valid :: "db \<Rightarrow> scan_session \<Rightarrow> bool" where
  "owner_incarnation_valid db s = (case ss_owner_incarnation_id s of None \<Rightarrow> True
     | Some i \<Rightarrow> map_option ni_node_id (incarnation_by_id db i) = Some (ss_owner_node_id s))"

definition row_to_mutation_session :: "db \<Rightarrow> scan_session \<Rightarrow> scan_session res" where
  "row_to_mutation_session db s = (case row_to_scan_session s of Inl e \<Rightarrow> Inl e
     | Inr s \<Rightarrow> if owner_incarnation_valid db s then Inr s else Inl Database)"

section \<open>The constraints of the tables\<close>

definition sql_trimmed :: "char \<Rightarrow> bool" where
  "sql_trimmed c \<longleftrightarrow> (of_char c :: nat) \<in> {9, 10, 11, 12, 13, 32}"

definition scan_session_checks :: "scan_session \<Rightarrow> bool" where
  "scan_session_checks s \<longleftrightarrow>
     ss_observation_count s \<le> 100000 \<and>
     1 \<le> ss_idle_timeout_seconds s \<and> ss_idle_timeout_seconds s \<le> 86400 \<and>
     (case ss_terminal_reason s of None \<Rightarrow> True
      | Some r \<Rightarrow> 1 \<le> length r \<and> length r \<le> 1024 \<and> NUL \<notin> set r \<and> \<not> list_all sql_trimmed r) \<and>
     (ss_status s = ScanSucceeded \<or> ss_retired_location_count s = 0) \<and>
     ss_batch_count s = ss_next_sequence s \<and>
     (ss_batch_count s = 0 \<and> ss_observation_count s = 0 \<or>
      ss_batch_count s > 0 \<and> ss_observation_count s \<ge> ss_batch_count s \<and>
      (ss_observation_count s div ss_batch_count s < 1000 \<or>
       ss_observation_count s div ss_batch_count s = 1000 \<and> ss_observation_count s mod ss_batch_count s = 0)) \<and>
     (ss_status s = ScanRequested \<and> ss_owner_incarnation_id s = None \<and> ss_started_at s = None \<and>
        ss_location_high_watermark_id s = None \<and> ss_terminal_at s = None \<and> ss_terminal_reason s = None \<or>
      ss_status s = ScanRunning \<and> ss_owner_incarnation_id s \<noteq> None \<and> ss_started_at s \<noteq> None \<and>
        ss_terminal_at s = None \<and> ss_terminal_reason s = None \<or>
      ss_status s = ScanSucceeded \<and> ss_owner_incarnation_id s \<noteq> None \<and> ss_started_at s \<noteq> None \<and>
        ss_terminal_at s \<noteq> None \<and> ss_terminal_reason s = None \<or>
      ss_status s \<in> {ScanFailed, ScanCancelled, ScanStale} \<and> ss_terminal_at s \<noteq> None \<and>
        ss_terminal_reason s \<noteq> None \<and>
        (ss_owner_incarnation_id s = None \<and> ss_started_at s = None \<and> ss_location_high_watermark_id s = None \<or>
         ss_owner_incarnation_id s \<noteq> None \<and> ss_started_at s \<noteq> None))"

definition scan_active_status :: "scan_session_status \<Rightarrow> bool" where
  "scan_active_status st \<longleftrightarrow> st = ScanRequested \<or> st = ScanRunning"

definition batch_by_key :: "db \<Rightarrow> nat \<Rightarrow> nat \<Rightarrow> scan_observation_batch option" where
  "batch_by_key db session sequence = find (\<lambda>b. sb_scan_session_id b = session \<and> sb_sequence b = sequence)
     (scan_observation_batches db)"

text \<open>The primary key, constraints, foreign keys and the two insert triggers of the batch ledger.\<close>

definition batch_checks :: "db \<Rightarrow> scan_observation_batch \<Rightarrow> bool" where
  "batch_checks db b \<longleftrightarrow>
     batch_by_key db (sb_scan_session_id b) (sb_sequence b) = None \<and>
     is_lowercase_sha256 (sb_request_hash b) \<and>
     1 \<le> sb_observation_count b \<and> sb_observation_count b \<le> 1000 \<and>
     sb_observation_count b \<le> sb_cumulative_observation_count b \<and> sb_cumulative_observation_count b \<le> 100000 \<and>
     (case sb_previous_sequence b of
        None \<Rightarrow> sb_sequence b = 0 \<and> sb_cumulative_observation_count b = sb_observation_count b
      | Some p \<Rightarrow> sb_sequence b > 0 \<and> p = sb_sequence b - 1 \<and>
          (case batch_by_key db (sb_scan_session_id b) p of None \<Rightarrow> False
           | Some q \<Rightarrow> sb_cumulative_observation_count b =
               sb_cumulative_observation_count q + sb_observation_count b)) \<and>
     list_ex (\<lambda>s. ss_id s = sb_scan_session_id b \<and> ss_next_sequence s = sb_sequence b + 1 \<and>
       ss_batch_count s = sb_sequence b + 1 \<and>
       ss_observation_count s = sb_cumulative_observation_count b) (scan_sessions db)"

definition observation_checks :: "scan_observation \<Rightarrow> bool" where
  "observation_checks ob \<longleftrightarrow> locator_check (ob_provider_relative_locator ob) \<and>
     1 \<le> length (ob_provider_object_identity ob) \<and> length (ob_provider_object_identity ob) \<le> 4096 \<and>
     NUL \<notin> set (ob_provider_object_identity ob) \<and>
     ob_stability_started_at ob \<le> ob_stability_confirmed_at ob"

definition observation_taken :: "db \<Rightarrow> scan_observation_row \<Rightarrow> bool" where
  "observation_taken db r \<longleftrightarrow> list_ex (\<lambda>q. so_scan_session_id q = so_scan_session_id r \<and>
     (so_batch_sequence q = so_batch_sequence r \<and> so_ordinal q = so_ordinal r \<or>
      ob_provider_relative_locator (so_observation q) = ob_provider_relative_locator (so_observation r)))
     (scan_observations db)"

text \<open>An update of session rows that returns the rows it wrote.\<close>

definition update_scan_sessions ::
  "(scan_session \<Rightarrow> bool) \<Rightarrow> (scan_session \<Rightarrow> scan_session) \<Rightarrow> (db, scan_session list) tx" where
  "update_scan_sessions p f db =
     (if list_ex (\<lambda>s. p s \<and> \<not> scan_session_checks (f s)) (scan_sessions db) then (Inl Database, db)
      else (Inr (map f (filter p (scan_sessions db))),
            db\<lparr>scan_sessions := update_where p f (scan_sessions db)\<rparr>))"

section \<open>Lifecycle operations\<close>

record new_scan_session =
  nss_storage_root_id :: nat
  nss_root_epoch :: nat
  nss_owner_node_id :: nat
  nss_idle_timeout_seconds :: nat
  nss_progress_deadline_at :: instant
  nss_requested_at :: instant

definition scan_session_by_id :: "db \<Rightarrow> nat \<Rightarrow> scan_session option" where
  "scan_session_by_id db i = find (\<lambda>s. ss_id s = i) (scan_sessions db)"

definition optional_row :: "('r \<Rightarrow> 'a res) \<Rightarrow> 'r option \<Rightarrow> 'a option res" where
  "optional_row decode r = (case r of None \<Rightarrow> Inr None | Some r \<Rightarrow> map_sum id Some (decode r))"

definition scan_get_in_tx :: "nat \<Rightarrow> (db, scan_session option) tx" where
  "scan_get_in_tx i = bind_i64 i (\<lambda>db. (optional_row (row_to_inspected_scan_session db) (scan_session_by_id db i), db))"

definition mutation_session_in_tx :: "nat \<Rightarrow> (db, scan_session option) tx" where
  "mutation_session_in_tx i = bind_i64 i (\<lambda>db. (optional_row (row_to_mutation_session db) (scan_session_by_id db i), db))"

definition active_for_root_in_tx :: "nat \<Rightarrow> (db, scan_session option) tx" where
  "active_for_root_in_tx root = bind_i64 root (\<lambda>db. (optional_row row_to_scan_session
     (case sort_key ss_id (filter (\<lambda>s. ss_storage_root_id s = root \<and> scan_active_status (ss_status s)) (scan_sessions db))
      of [] \<Rightarrow> None | s # _ \<Rightarrow> Some s), db))"

definition requested_session :: "new_scan_session \<Rightarrow> nat \<Rightarrow> scan_session" where
  "requested_session n i = \<lparr> ss_id = i, ss_storage_root_id = nss_storage_root_id n,
     ss_root_epoch = nss_root_epoch n, ss_owner_node_id = nss_owner_node_id n,
     ss_owner_incarnation_id = None, ss_status = ScanRequested, ss_next_sequence = 0,
     ss_batch_count = 0, ss_observation_count = 0,
     ss_idle_timeout_seconds = nss_idle_timeout_seconds n,
     ss_progress_deadline_at = nss_progress_deadline_at n, ss_location_high_watermark_id = None,
     ss_requested_at = nss_requested_at n, ss_started_at = None, ss_terminal_at = None,
     ss_terminal_reason = None, ss_retired_location_count = 0 \<rparr>"

definition insert_requested_in_tx :: "new_scan_session \<Rightarrow> (db, scan_session) tx" where
  "insert_requested_in_tx n =
     (if \<not> (1 \<le> nss_idle_timeout_seconds n \<and> nss_idle_timeout_seconds n \<le> 86400) then throw_tx Config
      else bind_i64 (nss_storage_root_id n) (bind_i64 (nss_root_epoch n) (bind_i64 (nss_owner_node_id n) (\<lambda>db.
        let row = requested_session n (next_rowid ss_id (scan_sessions db)) in
        if list_ex (\<lambda>s. ss_storage_root_id s = nss_storage_root_id n \<and> scan_active_status (ss_status s))
             (scan_sessions db)
        then bind_tx (active_for_root_in_tx (nss_storage_root_id n)) (\<lambda>_. throw_tx Conflict) db
        else if \<not> list_ex (\<lambda>r. lr_id r = nss_storage_root_id n) (library_roots db) \<or>
                \<not> list_ex (\<lambda>m. n_id m = nss_owner_node_id n) (nodes db)
        then (Inl Database, db)
        else bind_tx (modify_tx (\<lambda>db. db\<lparr>scan_sessions := scan_sessions db @ [row]\<rparr>))
               (\<lambda>_. lift_res (row_to_scan_session row)) db))))"

definition stale_row :: "string \<Rightarrow> instant \<Rightarrow> scan_session \<Rightarrow> scan_session" where
  "stale_row reason now s = s\<lparr>ss_status := ScanStale, ss_terminal_at := Some now, ss_terminal_reason := Some reason\<rparr>"

text \<open>
  Both staleness sweeps decode every candidate, then mark the ones selected, and insist on having
  marked as many as they selected.
\<close>

definition mark_stale ::
  "(scan_session_status \<Rightarrow> bool) \<Rightarrow> (scan_session \<Rightarrow> bool) \<Rightarrow> string \<Rightarrow> instant \<Rightarrow> (db, scan_session list) tx" where
  "mark_stale live chosen reason now db =
     (case all_ok (map (row_to_mutation_session db)
            (sort_key ss_id (filter (\<lambda>s. live (ss_status s)) (scan_sessions db)))) of
        Inl e \<Rightarrow> (Inl e, db)
      | Inr rows \<Rightarrow>
          let ids = map ss_id (filter chosen rows) in
          if list_ex (\<lambda>i. \<not> i < 2 ^ 63) ids then (Inl Database, db)
          else if ids = [] then (Inr [], db)
          else bind_tx (update_scan_sessions (\<lambda>s. live (ss_status s) \<and> ss_id s \<in> set ids) (stale_row reason now))
            (\<lambda>written. bind_tx (lift_res (all_ok (map row_to_scan_session written)))
              (\<lambda>sessions. if length sessions \<noteq> length ids then throw_tx Database
                else return_tx (sort_key ss_id sessions))) db)"

definition stale_expired_in_tx :: "instant \<Rightarrow> (db, scan_session list) tx" where
  "stale_expired_in_tx now = mark_stale scan_active_status (\<lambda>s. ss_progress_deadline_at s \<le> now)
     ''scan session progress deadline expired'' now"

definition stale_running_for_incarnation_in_tx :: "string \<Rightarrow> string \<Rightarrow> instant \<Rightarrow> (db, scan_session list) tx" where
  "stale_running_for_incarnation_in_tx incarnation reason now = mark_stale (\<lambda>st. st = ScanRunning)
     (\<lambda>s. ss_owner_incarnation_id s = Some incarnation) reason now"

definition validate_incarnation_owner_in_tx :: "string \<Rightarrow> nat \<Rightarrow> (db, unit) tx" where
  "validate_incarnation_owner_in_tx incarnation node = bind_i64 node (\<lambda>db.
     if list_ex (\<lambda>n. ni_incarnation_id n = incarnation \<and> ni_node_id n = node) (node_incarnations db)
     then (Inr (), db) else (Inl Database, db))"

definition location_high_watermark :: "db \<Rightarrow> nat \<Rightarrow> nat option" where
  "location_high_watermark db root =
     (case map fl_id (filter (\<lambda>l. fl_storage_root_id l = Some root \<and> fl_rooted l \<and> fl_retired_at l = None)
        (file_locations db)) of [] \<Rightarrow> None | is \<Rightarrow> Some (Max (set is)))"

definition started_row :: "string \<Rightarrow> nat option \<Rightarrow> instant \<Rightarrow> instant \<Rightarrow> scan_session \<Rightarrow> scan_session" where
  "started_row incarnation watermark deadline now s = s\<lparr>ss_status := ScanRunning,
     ss_owner_incarnation_id := Some incarnation, ss_location_high_watermark_id := watermark,
     ss_progress_deadline_at := deadline, ss_started_at := Some now\<rparr>"

definition scan_start_in_tx :: "nat \<Rightarrow> string \<Rightarrow> instant \<Rightarrow> instant \<Rightarrow> (db, scan_session) tx" where
  "scan_start_in_tx i incarnation deadline now =
     bind_tx (mutation_session_in_tx i) (\<lambda>found. case found of None \<Rightarrow> throw_tx NotFound
     | Some s \<Rightarrow>
         if ss_status s \<noteq> ScanRequested then throw_tx Conflict
         else bind_tx (validate_incarnation_owner_in_tx incarnation (ss_owner_node_id s)) (\<lambda>_.
           bind_i64 (ss_storage_root_id s) (bind_tx (read_tx (\<lambda>db. location_high_watermark db (ss_storage_root_id s)))
           (\<lambda>watermark. bind_i64_option watermark (bind_i64 i
             (bind_tx (update_scan_sessions (\<lambda>r. ss_id r = i \<and> ss_status r = ScanRequested)
                (started_row incarnation watermark deadline now))
             (\<lambda>rows. case rows of [] \<Rightarrow> throw_tx Conflict | r # _ \<Rightarrow> lift_res (row_to_scan_session r))))))))"

definition terminal_row :: "scan_session_status \<Rightarrow> string \<Rightarrow> instant \<Rightarrow> scan_session \<Rightarrow> scan_session" where
  "terminal_row st reason now s = s\<lparr>ss_status := st, ss_terminal_reason := Some reason, ss_terminal_at := Some now\<rparr>"

definition terminalize_in_tx ::
  "nat \<Rightarrow> scan_session_status \<Rightarrow> string \<Rightarrow> instant \<Rightarrow> (db, scan_session) tx" where
  "terminalize_in_tx i st reason now =
     (if st \<in> {ScanRequested, ScanRunning, ScanSucceeded} then throw_tx Config
      else bind_tx (mutation_session_in_tx i) (\<lambda>found. case found of None \<Rightarrow> throw_tx Conflict
        | Some s \<Rightarrow>
            if \<not> scan_active_status (ss_status s) then throw_tx Conflict
            else bind_i64 i (bind_tx (update_scan_sessions (\<lambda>r. ss_id r = i \<and> scan_active_status (ss_status r))
                   (terminal_row st reason now))
                 (\<lambda>rows. case rows of [] \<Rightarrow> throw_tx Conflict | r # _ \<Rightarrow> lift_res (row_to_scan_session r)))))"

section \<open>The batch ledger\<close>

record new_scan_observation_batch =
  nb_scan_session_id :: nat
  nb_sequence :: nat
  nb_request_hash :: string
  nb_observations :: "scan_observation list"
  nb_accepted_at :: instant
  nb_next_progress_deadline_at :: instant

record scan_batch_outcome =
  bo_scan_session_id :: nat
  bo_sequence :: nat
  bo_accepted_observation_count :: nat
  bo_cumulative_observation_count :: nat

definition validate_batch_observation :: "scan_observation \<Rightarrow> bool" where
  "validate_batch_observation ob \<longleftrightarrow>
     \<not> (ob_provider_object_identity ob = [] \<or> length (ob_provider_object_identity ob) > 4096 \<or>
        NUL \<in> set (ob_provider_object_identity ob)) \<and>
     \<not> ob_stability_confirmed_at ob < ob_stability_started_at ob"

fun prepare_observations ::
  "(scan_observation_evidence \<Rightarrow> nat) \<Rightarrow> string list \<Rightarrow> scan_observation list \<Rightarrow> unit res" where
  "prepare_observations json_len seen [] = Inr ()"
| "prepare_observations json_len seen (ob # obs) =
     (if ob_provider_relative_locator ob \<in> set seen then Inl Conflict
      else if \<not> validate_batch_observation ob then Inl Config
      else if \<not> ob_size_bytes ob < 2 ^ 63 then Inl Config
      else if (case ob_evidence ob of None \<Rightarrow> False | Some e \<Rightarrow> \<not> validate_evidence json_len e) then Inl Config
      else prepare_observations json_len (ob_provider_relative_locator ob # seen) obs)"

definition prepared_batch_new ::
  "(scan_observation_evidence \<Rightarrow> nat) \<Rightarrow> new_scan_observation_batch \<Rightarrow> unit res" where
  "prepared_batch_new json_len b =
     (if \<not> (1 \<le> length (nb_observations b) \<and> length (nb_observations b) \<le> 1000) then Inl Config
      else if \<not> is_lowercase_sha256 (nb_request_hash b) then Inl Config
      else if \<not> nb_scan_session_id b < 2 ^ 63 then Inl Config
      else if \<not> nb_sequence b < 2 ^ 63 then Inl Config
      else prepare_observations json_len [] (nb_observations b))"

definition u64_add :: "nat \<Rightarrow> nat \<Rightarrow> nat res" where
  "u64_add a b = (if a + b \<le> u64_max then Inr (a + b) else Inl Database)"

definition batch_with_predecessor ::
  "db \<Rightarrow> nat \<Rightarrow> nat \<Rightarrow> (scan_observation_batch \<times> scan_observation_batch option) option" where
  "batch_with_predecessor db session sequence = map_option
     (\<lambda>b. (b, case sb_previous_sequence b of None \<Rightarrow> None | Some p \<Rightarrow> batch_by_key db session p))
     (batch_by_key db session sequence)"

definition batch_outcome_from_row :: "scan_observation_batch \<Rightarrow> nat \<Rightarrow> nat \<Rightarrow> scan_batch_outcome res" where
  "batch_outcome_from_row b session sequence =
     (if \<not> (1 \<le> sb_observation_count b \<and> sb_observation_count b \<le> 1000) \<or>
         sb_cumulative_observation_count b < sb_observation_count b \<or>
         sb_cumulative_observation_count b > MAX_SCAN_SESSION_OBSERVATIONS
      then Inl Database
      else Inr \<lparr> bo_scan_session_id = session, bo_sequence = sequence,
        bo_accepted_observation_count = sb_observation_count b,
        bo_cumulative_observation_count = sb_cumulative_observation_count b \<rparr>)"

definition validate_batch_link ::
  "scan_observation_batch \<times> scan_observation_batch option \<Rightarrow> nat \<Rightarrow> nat \<Rightarrow> scan_batch_outcome res" where
  "validate_batch_link row session sequence =
     (case batch_outcome_from_row (fst row) session sequence of Inl e \<Rightarrow> Inl e
      | Inr out \<Rightarrow>
          if sequence = 0 then
            (if sb_previous_sequence (fst row) \<noteq> None \<or> snd row \<noteq> None \<or>
                bo_cumulative_observation_count out \<noteq> bo_accepted_observation_count out
             then Inl Database else Inr out)
          else if sb_previous_sequence (fst row) \<noteq> Some (sequence - 1) \<or>
              map_option sb_sequence (snd row) \<noteq> Some (sequence - 1) \<or>
              map_option (\<lambda>q. u64_add (sb_cumulative_observation_count q) (bo_accepted_observation_count out)) (snd row)
                \<noteq> Some (Inr (bo_cumulative_observation_count out))
          then Inl Database else Inr out)"

definition batch_replay :: "db \<Rightarrow> new_scan_observation_batch \<Rightarrow> scan_batch_outcome option res" where
  "batch_replay db b =
     (case batch_with_predecessor db (nb_scan_session_id b) (nb_sequence b) of None \<Rightarrow> Inr None
      | Some row \<Rightarrow>
          (case validate_batch_link row (nb_scan_session_id b) (nb_sequence b) of Inl e \<Rightarrow> Inl e
           | Inr out \<Rightarrow>
               if \<not> is_lowercase_sha256 (sb_request_hash (fst row)) then Inl Database
               else if sb_request_hash (fst row) \<noteq> nb_request_hash b then Inl Conflict
               else Inr (Some out)))"

text \<open>The frontier of a session: its last accepted batch, which must carry the session's totals.\<close>

definition frontier_matches :: "db \<Rightarrow> scan_session \<Rightarrow> nat \<Rightarrow> unit res" where
  "frontier_matches db s sequence =
     (if \<not> ss_id s < 2 ^ 63 \<or> \<not> sequence < 2 ^ 63 then Inl Database
      else case batch_with_predecessor db (ss_id s) sequence of None \<Rightarrow> Inl Database
      | Some row \<Rightarrow>
          (case validate_batch_link row (ss_id s) sequence of Inl e \<Rightarrow> Inl e
           | Inr out \<Rightarrow> if bo_cumulative_observation_count out \<noteq> ss_observation_count s then Inl Database else Inr ()))"

definition validate_batch_replay_parent_frontier :: "db \<Rightarrow> scan_session \<Rightarrow> scan_batch_outcome \<Rightarrow> unit res" where
  "validate_batch_replay_parent_frontier db s out =
     (case u64_add (bo_sequence out) 1 of Inl e \<Rightarrow> Inl e
      | Inr frontier \<Rightarrow>
          if frontier > ss_next_sequence s \<or>
             frontier = ss_next_sequence s \<and>
               (ss_batch_count s \<noteq> frontier \<or> ss_observation_count s \<noteq> bo_cumulative_observation_count out)
          then Inl Database
          else if ss_next_sequence s = 0 then Inl Database
          else frontier_matches db s (ss_next_sequence s - 1))"

definition validate_new_batch_predecessor :: "db \<Rightarrow> scan_session \<Rightarrow> nat \<Rightarrow> unit res" where
  "validate_new_batch_predecessor db s sequence =
     (if sequence = 0 then (if ss_observation_count s = 0 then Inr () else Inl Database)
      else frontier_matches db s (sequence - 1))"

definition ensure_new_locators :: "db \<Rightarrow> new_scan_observation_batch \<Rightarrow> unit res" where
  "ensure_new_locators db b =
     (if list_ex (\<lambda>ob. list_ex (\<lambda>q. so_scan_session_id q = nb_scan_session_id b \<and>
          ob_provider_relative_locator (so_observation q) = ob_provider_relative_locator ob) (scan_observations db))
        (nb_observations b)
      then Inl Conflict else Inr ())"

definition progressed_row :: "nat \<Rightarrow> nat \<Rightarrow> nat \<Rightarrow> instant \<Rightarrow> scan_session \<Rightarrow> scan_session" where
  "progressed_row next batches cumulative deadline s = s\<lparr>ss_next_sequence := next, ss_batch_count := batches,
     ss_observation_count := cumulative, ss_progress_deadline_at := deadline\<rparr>"

definition new_batch_row :: "new_scan_observation_batch \<Rightarrow> nat \<Rightarrow> scan_observation_batch" where
  "new_batch_row b cumulative = \<lparr> sb_scan_session_id = nb_scan_session_id b, sb_sequence = nb_sequence b,
     sb_previous_sequence = (if nb_sequence b > 0 then Some (nb_sequence b - 1) else None),
     sb_request_hash = nb_request_hash b, sb_observation_count = length (nb_observations b),
     sb_accepted_at = nb_accepted_at b, sb_cumulative_observation_count = cumulative \<rparr>"

definition insert_batch_in_tx :: "new_scan_observation_batch \<Rightarrow> nat \<Rightarrow> (db, unit) tx" where
  "insert_batch_in_tx b cumulative db =
     (let row = new_batch_row b cumulative
      in if batch_checks db row
         then (Inr (), db\<lparr>scan_observation_batches := scan_observation_batches db @ [row]\<rparr>)
         else (Inl Database, db))"

definition insert_observation :: "scan_observation_row \<Rightarrow> (db, unit) tx" where
  "insert_observation r db =
     (if \<not> observation_checks (so_observation r) then (Inl Database, db)
      else if observation_taken db r then (Inl Conflict, db)
      else if batch_by_key db (so_scan_session_id r) (so_batch_sequence r) = None then (Inl Database, db)
      else (Inr (), db\<lparr>scan_observations := scan_observations db @ [r]\<rparr>))"

definition observation_rows :: "nat \<Rightarrow> nat \<Rightarrow> scan_observation list \<Rightarrow> scan_observation_row list" where
  "observation_rows session sequence obs = map (\<lambda>(k, ob). \<lparr> so_scan_session_id = session,
     so_batch_sequence = sequence, so_ordinal = k, so_observation = ob \<rparr>) (enumerate 0 obs)"

definition insert_observations_in_tx :: "new_scan_observation_batch \<Rightarrow> (db, unit) tx" where
  "insert_observations_in_tx b = bind_tx
     (for_tx insert_observation (observation_rows (nb_scan_session_id b) (nb_sequence b) (nb_observations b)))
     (\<lambda>_. return_tx ())"

definition persist_new_batch_in_tx ::
  "new_scan_observation_batch \<Rightarrow> nat \<Rightarrow> nat \<Rightarrow> nat \<Rightarrow> nat \<Rightarrow> (db, unit) tx" where
  "persist_new_batch_in_tx b next batches cumulative current =
     bind_tx (update_scan_sessions
       (\<lambda>s. ss_id s = nb_scan_session_id b \<and> ss_status s = ScanRunning \<and> ss_next_sequence s = nb_sequence b \<and>
            ss_observation_count s = current)
       (progressed_row next batches cumulative (nb_next_progress_deadline_at b)))
     (\<lambda>rows. if length rows \<noteq> 1 then throw_tx Conflict
       else bind_tx (insert_batch_in_tx b cumulative) (\<lambda>_. insert_observations_in_tx b))"

text \<open>Accepting a batch. The writes run in a savepoint, which \<open>transact\<close> rolls back on an error.\<close>

definition accept_new_batch :: "new_scan_observation_batch \<Rightarrow> scan_session \<Rightarrow> (db, scan_batch_outcome) tx" where
  "accept_new_batch b s =
     (if nb_sequence b < ss_next_sequence s then throw_tx Database
      else if ss_status s \<noteq> ScanRunning \<or> ss_next_sequence s \<noteq> nb_sequence b then throw_tx Conflict
      else bind_tx (\<lambda>db. (validate_new_batch_predecessor db s (nb_sequence b), db)) (\<lambda>_.
        bind_tx (lift_res (u64_add (ss_observation_count s) (length (nb_observations b)))) (\<lambda>cumulative.
          if cumulative > MAX_SCAN_SESSION_OBSERVATIONS then throw_tx Conflict
          else bind_tx (\<lambda>db. (ensure_new_locators db b, db)) (\<lambda>_.
            bind_tx (lift_res (u64_add (ss_next_sequence s) 1)) (\<lambda>next.
              bind_tx (lift_res (u64_add (ss_batch_count s) 1)) (\<lambda>batches.
                bind_i64 cumulative (bind_i64 next (bind_i64 batches (bind_i64 (ss_observation_count s)
                  (bind_tx (transact (persist_new_batch_in_tx b next batches cumulative (ss_observation_count s)))
                  (\<lambda>_. return_tx \<lparr> bo_scan_session_id = nb_scan_session_id b, bo_sequence = nb_sequence b,
                     bo_accepted_observation_count = length (nb_observations b),
                     bo_cumulative_observation_count = cumulative \<rparr>)))))))))))"

definition accepted_batch_in_tx ::
  "(scan_observation_evidence \<Rightarrow> nat) \<Rightarrow> new_scan_observation_batch \<Rightarrow> (db, scan_batch_outcome) tx" where
  "accepted_batch_in_tx json_len b =
     bind_tx (lift_res (prepared_batch_new json_len b)) (\<lambda>_.
       bind_tx (mutation_session_in_tx (nb_scan_session_id b)) (\<lambda>found. case found of None \<Rightarrow> throw_tx NotFound
       | Some s \<Rightarrow> bind_tx (\<lambda>db. (batch_replay db b, db)) (\<lambda>replay. case replay of
             Some out \<Rightarrow> bind_tx (\<lambda>db. (validate_batch_replay_parent_frontier db s out, db)) (\<lambda>_. return_tx out)
           | None \<Rightarrow> accept_new_batch b s)))"

section \<open>Reads\<close>

record scan_session_list_query =
  sq_storage_root_id :: "nat option"
  sq_status :: "scan_session_status option"
  sq_after_id :: "nat option"
  sq_limit :: nat

record scan_session_page =
  sp_items :: "scan_session list"
  sp_next_after_id :: "nat option"

definition checked_page_limit :: "nat \<Rightarrow> nat res" where
  "checked_page_limit limit = (if 1 \<le> limit \<and> limit \<le> 100 then Inr limit else Inl Config)"

definition scan_query_admits :: "scan_session_list_query \<Rightarrow> scan_session \<Rightarrow> bool" where
  "scan_query_admits q s \<longleftrightarrow>
     (case sq_storage_root_id q of None \<Rightarrow> True | Some r \<Rightarrow> ss_storage_root_id s = r) \<and>
     (case sq_status q of None \<Rightarrow> True | Some st \<Rightarrow> ss_status s = st) \<and>
     (case sq_after_id q of None \<Rightarrow> True | Some i \<Rightarrow> i < ss_id s)"

definition scan_session_list :: "scan_session_list_query \<Rightarrow> (db, scan_session_page) tx" where
  "scan_session_list q = bind_tx (lift_res (checked_page_limit (sq_limit q))) (\<lambda>limit.
     bind_i64_option (sq_storage_root_id q) (bind_i64_option (sq_after_id q) (\<lambda>db.
       (case all_ok (map (row_to_inspected_scan_session db)
           (take (limit + 1) (sort_key ss_id (filter (scan_query_admits q) (scan_sessions db))))) of
          Inl e \<Rightarrow> Inl e
        | Inr items \<Rightarrow> Inr \<lparr> sp_items = take limit items,
            sp_next_after_id = (if length items > limit then Some (ss_id (last (take limit items))) else None) \<rparr>,
        db))))"

definition latest_succeeded_for_root :: "nat \<Rightarrow> (db, scan_session option) tx" where
  "latest_succeeded_for_root root = bind_i64 root (\<lambda>db.
     case find (\<lambda>r. lr_id r = root) (library_roots db) of None \<Rightarrow> (Inr None, db)
     | Some r \<Rightarrow>
         let latest = (case map ss_id (filter (\<lambda>s. ss_storage_root_id s = root \<and> ss_status s = ScanSucceeded)
               (scan_sessions db)) of [] \<Rightarrow> None | is \<Rightarrow> Some (Max (set is)))
         in if lr_last_scan_session_id r \<noteq> latest then (Inl Database, db)
            else case latest of None \<Rightarrow> (Inr None, db)
            | Some i \<Rightarrow> bind_tx (scan_get_in_tx i) (\<lambda>found. case found of None \<Rightarrow> throw_tx Database
                | Some s \<Rightarrow> if ss_storage_root_id s \<noteq> root \<or> ss_status s \<noteq> ScanSucceeded then throw_tx Database
                    else return_tx (Some s)) db)"

section \<open>Completion\<close>

text \<open>
  Completing a session checks its ledger from the stored rows, page by page, retires the live
  locations of the root that were there when the scan started and were not observed, unless a
  commit in flight covers one of them, and marks the session succeeded.
\<close>

record complete_scan_session_input =
  cs_scan_session_id :: nat
  cs_expected_storage_root_id :: nat
  cs_expected_root_epoch :: nat
  cs_expected_owner_node_id :: nat
  cs_expected_owner_incarnation_id :: string
  cs_last_sequence :: "nat option"
  cs_observation_count :: nat
  cs_completed_at :: instant

definition completion_session_in_tx :: "complete_scan_session_input \<Rightarrow> (db, scan_session) tx" where
  "completion_session_in_tx c = bind_tx (mutation_session_in_tx (cs_scan_session_id c))
     (\<lambda>found. case found of None \<Rightarrow> throw_tx Database | Some s \<Rightarrow> return_tx s)"

definition validate_completion_high_watermark :: "db \<Rightarrow> scan_session \<Rightarrow> unit res" where
  "validate_completion_high_watermark db s = (case ss_location_high_watermark_id s of None \<Rightarrow> Inr ()
     | Some w \<Rightarrow>
         if \<not> w < 2 ^ 63 then Inl Database
         else case find (\<lambda>l. fl_id l = w) (file_locations db) of None \<Rightarrow> Inl Database
         | Some l \<Rightarrow>
             (case fl_storage_root_id l of None \<Rightarrow> Inl Database
              | Some root \<Rightarrow> if root \<noteq> ss_storage_root_id s then Inl Database else Inr ()))"

definition validate_completion_authority_binding :: "scan_session \<Rightarrow> complete_scan_session_input \<Rightarrow> unit res" where
  "validate_completion_authority_binding s c =
     (if ss_storage_root_id s \<noteq> cs_expected_storage_root_id c \<or> ss_root_epoch s \<noteq> cs_expected_root_epoch c \<or>
         ss_owner_node_id s \<noteq> cs_expected_owner_node_id c \<or>
         ss_owner_incarnation_id s \<noteq> Some (cs_expected_owner_incarnation_id c)
      then Inl Database else Inr ())"

definition completion_next_sequence :: "nat option \<Rightarrow> nat res" where
  "completion_next_sequence last_sequence = (case last_sequence of None \<Rightarrow> Inr 0
     | Some q \<Rightarrow> if q + 1 \<le> u64_max then Inr (q + 1) else Inl Conflict)"

definition validate_completion_request_watermark :: "scan_session \<Rightarrow> complete_scan_session_input \<Rightarrow> unit res" where
  "validate_completion_request_watermark s c =
     (case completion_next_sequence (cs_last_sequence c) of Inl e \<Rightarrow> Inl e
      | Inr next \<Rightarrow>
          if ss_next_sequence s \<noteq> next \<or> ss_observation_count s \<noteq> cs_observation_count c
          then Inl Conflict else Inr ())"

text \<open>The summary of the ledger: the batches and the observations counted so far.\<close>

definition validate_completion_batch ::
  "nat \<times> nat \<Rightarrow> scan_observation_batch \<Rightarrow> (nat \<times> nat) res" where
  "validate_completion_batch summary b =
     (case summary of (batches, observations) \<Rightarrow>
        if sb_sequence b \<noteq> batches then Inl Database
        else if sb_previous_sequence b \<noteq> (if sb_sequence b = 0 then None else Some (sb_sequence b - 1)) then Inl Database
        else if \<not> is_lowercase_sha256 (sb_request_hash b) then Inl Database
        else if \<not> (1 \<le> sb_observation_count b \<and> sb_observation_count b \<le> 1000) then Inl Database
        else if \<not> observations + sb_observation_count b \<le> u64_max then Inl Database
        else if sb_cumulative_observation_count b \<noteq> observations + sb_observation_count b then Inl Database
        else if \<not> batches + 1 \<le> u64_max then Inl Database
        else if \<not> sb_sequence b < 2 ^ 63 then Inl Database
        else Inr (batches + 1, observations + sb_observation_count b))"

definition COMPLETION_LEDGER_PAGE_SIZE :: nat where
  "COMPLETION_LEDGER_PAGE_SIZE = 256"

definition session_ledger :: "db \<Rightarrow> nat \<Rightarrow> scan_observation_batch list" where
  "session_ledger db i = filter (\<lambda>b. sb_scan_session_id b = i) (scan_observation_batches db)"

definition session_rows :: "db \<Rightarrow> nat \<Rightarrow> scan_observation_row list" where
  "session_rows db i = filter (\<lambda>r. so_scan_session_id r = i) (scan_observations db)"

definition observation_position :: "scan_observation_row \<Rightarrow> nat \<times> nat" where
  "observation_position r = (so_batch_sequence r, so_ordinal r)"

definition validate_completion_batches :: "db \<Rightarrow> scan_session \<Rightarrow> (nat \<times> nat) res" where
  "validate_completion_batches db s =
     (if \<not> ss_id s < 2 ^ 63 then Inl Database
      else paged_fold sb_sequence validate_completion_batch COMPLETION_LEDGER_PAGE_SIZE
        (session_ledger db (ss_id s)) None (0, 0))"

definition misdistributed :: "db \<Rightarrow> scan_observation_batch \<Rightarrow> bool" where
  "misdistributed db b \<longleftrightarrow>
     (let ordinals = map so_ordinal (filter (\<lambda>r. so_batch_sequence r = sb_sequence b)
            (session_rows db (sb_scan_session_id b)))
      in length ordinals \<noteq> sb_observation_count b \<or>
         ordinals \<noteq> [] \<and> (Min (set ordinals) \<noteq> 0 \<or> int (Max (set ordinals)) \<noteq> int (sb_observation_count b) - 1))"

definition validate_completion_observation_distribution :: "db \<Rightarrow> scan_session \<Rightarrow> unit res" where
  "validate_completion_observation_distribution db s =
     (if list_ex (misdistributed db) (session_ledger db (ss_id s)) \<or>
         list_ex (\<lambda>r. batch_by_key db (ss_id s) (so_batch_sequence r) = None) (session_rows db (ss_id s))
      then Inl Database else Inr ())"

definition decode_observation_row ::
  "(scan_observation_evidence \<Rightarrow> nat) \<Rightarrow> scan_observation_row \<Rightarrow> scan_observation res" where
  "decode_observation_row json_len r = (let ob = so_observation r in
     if ob_provider_object_identity ob = [] \<or> length (ob_provider_object_identity ob) > 4096 \<or>
        NUL \<in> set (ob_provider_object_identity ob) then Inl Database
     else if (case ob_evidence ob of None \<Rightarrow> False | Some e \<Rightarrow> \<not> validate_evidence json_len e) then Inl Database
     else case provider_relative_locator_parse_database (ob_provider_relative_locator ob) of Inl e \<Rightarrow> Inl e
     | Inr _ \<Rightarrow> if ob_stability_confirmed_at ob < ob_stability_started_at ob then Inl Database else Inr ob)"

definition observation_page_step ::
  "(scan_observation_evidence \<Rightarrow> nat) \<Rightarrow> scan_observation list \<Rightarrow> scan_observation_row \<Rightarrow> scan_observation list res" where
  "observation_page_step json_len seen r =
     (case decode_observation_row json_len r of Inl e \<Rightarrow> Inl e
      | Inr ob \<Rightarrow> if \<not> so_batch_sequence r < 2 ^ 63 \<or> \<not> so_ordinal r < 2 ^ 63 then Inl Database
          else Inr (seen @ [ob]))"

definition session_observations ::
  "(scan_observation_evidence \<Rightarrow> nat) \<Rightarrow> db \<Rightarrow> nat \<Rightarrow> scan_observation list res" where
  "session_observations json_len db i =
     (if \<not> i < 2 ^ 63 then Inl Database
      else paged_fold observation_position (observation_page_step json_len) COMPLETION_LEDGER_PAGE_SIZE
        (session_rows db i) None [])"

definition validate_completion_observations ::
  "(scan_observation_evidence \<Rightarrow> nat) \<Rightarrow> db \<Rightarrow> scan_session \<Rightarrow> nat res" where
  "validate_completion_observations json_len db s = map_sum id length (session_observations json_len db (ss_id s))"

definition validate_completion_ledger ::
  "(scan_observation_evidence \<Rightarrow> nat) \<Rightarrow> db \<Rightarrow> scan_session \<Rightarrow> unit res" where
  "validate_completion_ledger json_len db s =
     (if ss_batch_count s \<noteq> ss_next_sequence s then Inl Database
      else case validate_completion_batches db s of Inl e \<Rightarrow> Inl e
      | Inr (batches, observations) \<Rightarrow>
          if batches \<noteq> ss_batch_count s \<or> observations \<noteq> ss_observation_count s then Inl Database
          else case validate_completion_observation_distribution db s of Inl e \<Rightarrow> Inl e
          | Inr _ \<Rightarrow>
              (case validate_completion_observations json_len db s of Inl e \<Rightarrow> Inl e
               | Inr actual \<Rightarrow> if actual \<noteq> observations then Inl Database else Inr ()))"

text \<open>The scope of a completion, the predicate its three queries and its update share.\<close>

definition completion_scope :: "db \<Rightarrow> scan_session \<Rightarrow> file_location \<Rightarrow> bool" where
  "completion_scope db s l \<longleftrightarrow>
     fl_storage_root_id l = Some (ss_storage_root_id s) \<and> fl_rooted l \<and> fl_retired_at l = None \<and>
     (case ss_location_high_watermark_id s of None \<Rightarrow> False | Some w \<Rightarrow> fl_id l \<le> w) \<and>
     \<not> list_ex (\<lambda>r. so_scan_session_id r = ss_id s \<and>
         Some (ob_provider_relative_locator (so_observation r)) = fl_provider_relative_locator l) (scan_observations db)"

definition completion_candidate :: "file_location \<Rightarrow> nat res" where
  "completion_candidate l = (case fl_provider_relative_locator l of None \<Rightarrow> Inl Database
     | Some v \<Rightarrow> map_sum id (\<lambda>_. fl_id l) (provider_relative_locator_parse_database v))"

definition completion_candidates_in_tx :: "scan_session \<Rightarrow> (db, nat list) tx" where
  "completion_candidates_in_tx s = bind_i64 (ss_storage_root_id s) (bind_i64 (ss_id s)
     (bind_i64_option (ss_location_high_watermark_id s) (\<lambda>db.
       (all_ok (map completion_candidate (sort_key fl_id (filter (completion_scope db s) (file_locations db)))), db))))"

definition commit_in_flight :: "commit_intent_state \<Rightarrow> bool" where
  "commit_in_flight st \<longleftrightarrow> st \<in> {IntentPending, IntentAuthorized, IntentRecoveryRequired}"

definition consult_scan_reconciliation_commit_lock :: "db \<Rightarrow> scan_session \<Rightarrow> (nat \<times> nat) option" where
  "consult_scan_reconciliation_commit_lock db s =
     (case sort (concat (map (\<lambda>i. concat (map (\<lambda>m. map (\<lambda>l. (ci_id i, fl_id l))
           (filter (\<lambda>l. cm_scope_location_id m = Some (fl_id l) \<and> completion_scope db s l) (file_locations db)))
           (filter (\<lambda>m. cm_commit_intent_id m = ci_id i) (commit_intent_scope_members db))))
         (filter (\<lambda>i. commit_in_flight (ci_state i)) (commit_intents db))))
      of [] \<Rightarrow> None | hit # _ \<Rightarrow> Some hit)"

definition consult_scan_reconciliation_artifact_intent_lock :: "db \<Rightarrow> scan_session \<Rightarrow> (nat \<times> nat) option" where
  "consult_scan_reconciliation_artifact_intent_lock db s =
     (case sort (concat (map (\<lambda>i. map (\<lambda>l. (ai_id i, fl_id l))
           (filter (\<lambda>l. fl_id l = ai_staging_location_id i \<and> completion_scope db s l) (file_locations db)))
         (filter (\<lambda>i. commit_in_flight (ai_state i)) (artifact_commit_intents db))))
      of [] \<Rightarrow> None | hit # _ \<Rightarrow> Some hit)"

definition retired_location :: "nat \<Rightarrow> instant \<Rightarrow> file_location \<Rightarrow> file_location" where
  "retired_location i now l = l\<lparr>fl_retired_at := Some now, fl_retired_by_scan_session_id := Some i,
     fl_epoch := fl_epoch l + 1\<rparr>"

definition retire_completion_candidates_in_tx ::
  "scan_session \<Rightarrow> complete_scan_session_input \<Rightarrow> nat \<Rightarrow> (db, unit) tx" where
  "retire_completion_candidates_in_tx s c expected db =
     (if rows_matching (completion_scope db s) (file_locations db) \<noteq> expected then (Inl Database, db)
      else (Inr (), db\<lparr>file_locations := update_where (completion_scope db s)
             (retired_location (ss_id s) (cs_completed_at c)) (file_locations db)\<rparr>))"

definition succeeded_session :: "nat \<Rightarrow> instant \<Rightarrow> scan_session \<Rightarrow> scan_session" where
  "succeeded_session retired now s = s\<lparr>ss_status := ScanSucceeded, ss_terminal_at := Some now,
     ss_retired_location_count := retired\<rparr>"

definition mark_completion_succeeded_in_tx ::
  "scan_session \<Rightarrow> complete_scan_session_input \<Rightarrow> nat \<Rightarrow> (db, scan_session) tx" where
  "mark_completion_succeeded_in_tx s c retired =
     bind_i64 retired (bind_i64 (ss_id s) (bind_i64 (cs_expected_storage_root_id c)
       (bind_i64 (cs_expected_root_epoch c) (bind_i64 (cs_expected_owner_node_id c)
         (bind_tx (lift_res (completion_next_sequence (cs_last_sequence c))) (\<lambda>next.
           bind_i64 next (bind_i64 (cs_observation_count c) (bind_i64_option (ss_location_high_watermark_id s)
             (bind_tx (update_scan_sessions
                 (\<lambda>r. ss_id r = ss_id s \<and> ss_status r = ScanRunning \<and>
                    ss_storage_root_id r = cs_expected_storage_root_id c \<and>
                    ss_root_epoch r = cs_expected_root_epoch c \<and>
                    ss_owner_node_id r = cs_expected_owner_node_id c \<and>
                    ss_owner_incarnation_id r = Some (cs_expected_owner_incarnation_id c) \<and>
                    ss_next_sequence r = next \<and> ss_observation_count r = cs_observation_count c \<and>
                    ss_location_high_watermark_id r = ss_location_high_watermark_id s)
                 (succeeded_session retired (cs_completed_at c)))
               (\<lambda>rows. case rows of [] \<Rightarrow> throw_tx Database | r # _ \<Rightarrow> lift_res (row_to_scan_session r)))))))))))"

definition update_completion_root_pointer_in_tx ::
  "scan_session \<Rightarrow> complete_scan_session_input \<Rightarrow> (db, unit) tx" where
  "update_completion_root_pointer_in_tx s c =
     bind_i64 (ss_id s) (bind_i64 (cs_expected_storage_root_id c) (bind_i64 (cs_expected_root_epoch c)
       (bind_i64 (cs_expected_owner_node_id c) (\<lambda>db.
         let bound = (\<lambda>r. lr_id r = cs_expected_storage_root_id c \<and> lr_root_epoch r = cs_expected_root_epoch c \<and>
               lr_owner_node_id r = Some (cs_expected_owner_node_id c))
         in if rows_matching bound (library_roots db) \<noteq> 1 then (Inl Database, db)
            else (Inr (), db\<lparr>library_roots := update_where bound
                   (\<lambda>r. r\<lparr>lr_last_scan_session_id := Some (ss_id s)\<rparr>) (library_roots db)\<rparr>)))))"

definition complete_in_tx ::
  "(scan_observation_evidence \<Rightarrow> nat) \<Rightarrow> complete_scan_session_input \<Rightarrow> (db, scan_session \<times> nat list) tx" where
  "complete_in_tx json_len c =
     bind_tx (completion_session_in_tx c) (\<lambda>s.
     bind_tx (\<lambda>db. (validate_completion_high_watermark db s, db)) (\<lambda>_.
     bind_tx (lift_res (validate_completion_authority_binding s c)) (\<lambda>_.
     bind_tx (\<lambda>db. (validate_completion_ledger json_len db s, db)) (\<lambda>_.
     bind_tx (lift_res (validate_completion_request_watermark s c)) (\<lambda>_.
     bind_tx (completion_candidates_in_tx s) (\<lambda>candidates.
     bind_tx (read_tx (\<lambda>db. consult_scan_reconciliation_commit_lock db s)) (\<lambda>commit_lock.
       if commit_lock \<noteq> None then throw_tx Conflict
       else bind_tx (read_tx (\<lambda>db. consult_scan_reconciliation_artifact_intent_lock db s)) (\<lambda>intent_lock.
         if intent_lock \<noteq> None then throw_tx Conflict
         else bind_tx (retire_completion_candidates_in_tx s c (length candidates)) (\<lambda>_.
           bind_tx (mark_completion_succeeded_in_tx s c (length candidates)) (\<lambda>s'.
             bind_tx (update_completion_root_pointer_in_tx s' c) (\<lambda>_. return_tx (s', candidates))))))))))))"

section \<open>Decoding and the schema\<close>

lemma shape_checks:
  "has_valid_lifecycle_shape s \<longleftrightarrow>
     (ss_status s = ScanRequested \<and> ss_owner_incarnation_id s = None \<and> ss_started_at s = None \<and>
        ss_location_high_watermark_id s = None \<and> ss_terminal_at s = None \<and> ss_terminal_reason s = None \<or>
      ss_status s = ScanRunning \<and> ss_owner_incarnation_id s \<noteq> None \<and> ss_started_at s \<noteq> None \<and>
        ss_terminal_at s = None \<and> ss_terminal_reason s = None \<or>
      ss_status s = ScanSucceeded \<and> ss_owner_incarnation_id s \<noteq> None \<and> ss_started_at s \<noteq> None \<and>
        ss_terminal_at s \<noteq> None \<and> ss_terminal_reason s = None \<or>
      ss_status s \<in> {ScanFailed, ScanCancelled, ScanStale} \<and> ss_terminal_at s \<noteq> None \<and>
        ss_terminal_reason s \<noteq> None \<and>
        (ss_owner_incarnation_id s = None \<and> ss_started_at s = None \<and> ss_location_high_watermark_id s = None \<or>
         ss_owner_incarnation_id s \<noteq> None \<and> ss_started_at s \<noteq> None))"
  by (cases "ss_status s")
    (auto simp: has_valid_lifecycle_shape_def scan_is_active_def is_unbound_def has_start_bindings_def
      has_success_shape_def has_unsuccessful_terminal_shape_def)

lemma div_bound:
  assumes "0 < (b :: nat)"
  shows "a div b < 1000 \<or> a div b = 1000 \<and> a mod b = 0 \<longleftrightarrow> a \<le> b * 1000"
proof -
  have a: "a = b * (a div b) + a mod b" by simp
  have m: "a mod b < b" using assms by simp
  show ?thesis
  proof (cases "a div b < 1000")
    case True
    then have "b * (a div b) + b \<le> b * 1000"
      using mult_le_mono2 [of "Suc (a div b)" 1000 b] by simp
    then show ?thesis using True a m by linarith
  next
    case False
    show ?thesis
    proof (cases "a div b = 1000")
      case True
      then show ?thesis using a by auto
    next
      case neq: False
      then have "b * 1001 \<le> b * (a div b)" using False by (intro mult_le_mono2) simp
      then show ?thesis using False neq a assms by linarith
    qed
  qed
qed

lemma counters_checks:
  assumes "ss_observation_count s \<le> 100000"
  shows "has_coherent_progress_counters s \<longleftrightarrow> ss_batch_count s = ss_next_sequence s \<and>
     (ss_batch_count s = 0 \<and> ss_observation_count s = 0 \<or>
      ss_batch_count s > 0 \<and> ss_observation_count s \<ge> ss_batch_count s \<and>
      (ss_observation_count s div ss_batch_count s < 1000 \<or>
       ss_observation_count s div ss_batch_count s = 1000 \<and> ss_observation_count s mod ss_batch_count s = 0))"
proof (cases "ss_batch_count s = 0")
  case True
  then show ?thesis by (auto simp: has_coherent_progress_counters_def)
next
  case False
  have "ss_batch_count s * 1000 \<le> u64_max" if "ss_batch_count s \<le> ss_observation_count s"
    using that assms by (simp add: u64_max_def)
  then show ?thesis using False div_bound [of "ss_batch_count s" "ss_observation_count s"]
    by (auto simp: has_coherent_progress_counters_def)
qed

definition only_vertical_tab_blank :: "scan_session \<Rightarrow> bool" where
  "only_vertical_tab_blank s = (case ss_terminal_reason s of None \<Rightarrow> False
     | Some r \<Rightarrow> list_all sql_trimmed r \<and> \<not> list_all ascii_whitespace r)"

lemma reason_checks:
  "1 \<le> length r \<and> length r \<le> 1024 \<and> NUL \<notin> set r \<and> \<not> list_all sql_trimmed r \<longleftrightarrow>
     validate_terminal_reason r \<and> \<not> (list_all sql_trimmed r \<and> \<not> list_all ascii_whitespace r)"
proof -
  have "list_all ascii_whitespace r \<Longrightarrow> list_all sql_trimmed r"
    by (auto simp: list_all_iff ascii_whitespace_def sql_trimmed_def)
  then show ?thesis by (cases r) (auto simp: validate_terminal_reason_def)
qed

lemma checks_iff_decodes:
  "scan_session_checks s \<longleftrightarrow> row_to_scan_session s = Inr s \<and> \<not> only_vertical_tab_blank s"
proof (cases "ss_observation_count s \<le> 100000")
  case True
  have "(case ss_terminal_reason s of None \<Rightarrow> True
        | Some r \<Rightarrow> 1 \<le> length r \<and> length r \<le> 1024 \<and> NUL \<notin> set r \<and> \<not> list_all sql_trimmed r) \<longleftrightarrow>
      optional_terminal_reason s \<and> \<not> only_vertical_tab_blank s"
    unfolding optional_terminal_reason_def only_vertical_tab_blank_def
    by (cases "ss_terminal_reason s") (simp_all only: option.simps reason_checks simp_thms)
  moreover have "scan_session_checks s \<longleftrightarrow> ss_observation_count s \<le> 100000 \<and>
      1 \<le> ss_idle_timeout_seconds s \<and> ss_idle_timeout_seconds s \<le> 86400 \<and>
      (case ss_terminal_reason s of None \<Rightarrow> True
       | Some r \<Rightarrow> 1 \<le> length r \<and> length r \<le> 1024 \<and> NUL \<notin> set r \<and> \<not> list_all sql_trimmed r) \<and>
      (ss_status s = ScanSucceeded \<or> ss_retired_location_count s = 0) \<and>
      has_coherent_progress_counters s \<and> has_valid_lifecycle_shape s"
    unfolding scan_session_checks_def counters_checks [OF True] shape_checks by (simp only: conj_assoc)
  ultimately show ?thesis
    unfolding row_to_scan_session_def validate_scan_session_def MAX_SCAN_SESSION_OBSERVATIONS_def
    using True by auto
next
  case False
  then show ?thesis
    by (simp add: scan_session_checks_def row_to_scan_session_def validate_scan_session_def
      MAX_SCAN_SESSION_OBSERVATIONS_def)
qed

lemma checks_decode: "scan_session_checks s \<Longrightarrow> row_to_scan_session s = Inr s"
  by (simp add: checks_iff_decodes)

lemma row_to_scan_session_Inr: "row_to_scan_session s = Inr t \<longleftrightarrow> t = s \<and> optional_terminal_reason s \<and> validate_scan_session s"
  by (auto simp: row_to_scan_session_def)

lemma row_to_mutation_eq:
  "row_to_mutation_session db s =
     (if row_to_scan_session s = Inr s \<and> owner_incarnation_valid db s then Inr s else Inl Database)"
  by (auto simp: row_to_mutation_session_def row_to_scan_session_def split: sum.splits)

end
