(* ===== verification/Scan_Ledger.thy ===== *)
theory Scan_Ledger
  imports Scan_Sessions "HOL-Library.Sublist"
begin

text \<open>
  What the scan session repository keeps: the invariant of its tables, that every operation
  preserves it and only extends the ledger, and what accepting and completing do.
\<close>

section \<open>The invariant\<close>

text \<open>
  The ledger of a session as the list of its batches: numbered from zero without gaps, each
  carrying the running total.
\<close>

fun chained :: "nat \<Rightarrow> nat \<Rightarrow> scan_observation_batch list \<Rightarrow> bool" where
  "chained k c [] \<longleftrightarrow> True"
| "chained k c (b # bs) \<longleftrightarrow> sb_sequence b = k \<and> sb_previous_sequence b = (if k = 0 then None else Some (k - 1)) \<and>
     is_lowercase_sha256 (sb_request_hash b) \<and> 1 \<le> sb_observation_count b \<and> sb_observation_count b \<le> 1000 \<and>
     sb_cumulative_observation_count b = c + sb_observation_count b \<and>
     chained (Suc k) (c + sb_observation_count b) bs"

definition ledger_total :: "scan_observation_batch list \<Rightarrow> nat" where
  "ledger_total bs = sum_list (map sb_observation_count bs)"

definition ledger_positions :: "scan_observation_batch list \<Rightarrow> (nat \<times> nat) list" where
  "ledger_positions bs = concat (map (\<lambda>b. map (Pair (sb_sequence b)) [0..<sb_observation_count b]) bs)"

definition session_locators :: "db \<Rightarrow> nat \<Rightarrow> string list" where
  "session_locators db i = map (\<lambda>r. ob_provider_relative_locator (so_observation r)) (session_rows db i)"

definition ledger_ok :: "db \<Rightarrow> scan_session \<Rightarrow> bool" where
  "ledger_ok db s \<longleftrightarrow> chained 0 0 (session_ledger db (ss_id s)) \<and>
     length (session_ledger db (ss_id s)) = ss_next_sequence s \<and>
     ledger_total (session_ledger db (ss_id s)) = ss_observation_count s \<and>
     map observation_position (session_rows db (ss_id s)) = ledger_positions (session_ledger db (ss_id s)) \<and>
     distinct (session_locators db (ss_id s))"

definition one_active :: "scan_session list \<Rightarrow> bool" where
  "one_active ss \<longleftrightarrow> (\<forall>s \<in> set ss. \<forall>t \<in> set ss. scan_active_status (ss_status s) \<longrightarrow> scan_active_status (ss_status t) \<longrightarrow>
     ss_storage_root_id s = ss_storage_root_id t \<longrightarrow> ss_id s = ss_id t)"

definition retirements_ok :: "db \<Rightarrow> bool" where
  "retirements_ok db \<longleftrightarrow> (\<forall>s \<in> set (scan_sessions db).
     validate_scan_session_integrity s (attributed_location_count db s)) \<and>
   (\<forall>l \<in> set (file_locations db). \<forall>i. fl_retired_by_scan_session_id l = Some i \<longrightarrow>
     fl_retired_at l \<noteq> None \<and> i \<in> ss_id ` set (scan_sessions db))"

definition scan_inv :: "db \<Rightarrow> bool" where
  "scan_inv db \<longleftrightarrow> wf_table ss_id (scan_sessions db) \<and> distinct (map ni_incarnation_id (node_incarnations db)) \<and>
     (\<forall>s \<in> set (scan_sessions db). scan_session_checks s \<and> owner_incarnation_valid db s \<and> ledger_ok db s) \<and>
     one_active (scan_sessions db) \<and>
     sb_scan_session_id ` set (scan_observation_batches db) \<subseteq> ss_id ` set (scan_sessions db) \<and>
     so_scan_session_id ` set (scan_observations db) \<subseteq> ss_id ` set (scan_sessions db) \<and>
     retirements_ok db"

text \<open>What a session keeps for ever, and what its status may become.\<close>

definition scan_later :: "scan_session \<Rightarrow> scan_session \<Rightarrow> bool" where
  "scan_later s t \<longleftrightarrow> ss_id t = ss_id s \<and> ss_storage_root_id t = ss_storage_root_id s \<and>
     ss_root_epoch t = ss_root_epoch s \<and> ss_owner_node_id t = ss_owner_node_id s \<and>
     (\<not> scan_active_status (ss_status s) \<longrightarrow> t = s) \<and>
     (ss_status s = ScanRunning \<longrightarrow> ss_status t \<noteq> ScanRequested \<and> ss_owner_incarnation_id t = ss_owner_incarnation_id s \<and>
        ss_location_high_watermark_id t = ss_location_high_watermark_id s)"

definition scan_step :: "db \<Rightarrow> db \<Rightarrow> bool" where
  "scan_step db db' \<longleftrightarrow> (scan_inv db \<longrightarrow> scan_inv db' \<and>
     (\<forall>s \<in> set (scan_sessions db). \<exists>t \<in> set (scan_sessions db'). scan_later s t) \<and>
     (\<forall>i. prefix (session_ledger db i) (session_ledger db' i)) \<and>
     (\<forall>i. prefix (session_rows db i) (session_rows db' i)))"

lemma scan_later_refl: "scan_later s s"
  by (simp add: scan_later_def)

lemma scan_later_trans:
  assumes "scan_later s t" "scan_later t u"
  shows "scan_later s u"
proof (cases "scan_active_status (ss_status s)")
  case True
  show ?thesis
  proof (cases "scan_active_status (ss_status t)")
    case True
    then show ?thesis using assms \<open>scan_active_status (ss_status s)\<close>
      by (auto simp: scan_later_def scan_active_status_def)
  next
    case False
    then have "u = t" using assms(2) by (simp add: scan_later_def)
    then show ?thesis using assms(1) by simp
  qed
next
  case False
  then have "t = s" using assms(1) by (simp add: scan_later_def)
  then show ?thesis using assms(2) by simp
qed

lemma scan_step_refl: "scan_step db db"
  unfolding scan_step_def using scan_later_refl by blast

lemma scan_step_trans:
  assumes "scan_step a b" "scan_step b c"
  shows "scan_step a c"
  unfolding scan_step_def
proof (intro impI conjI ballI allI)
  assume a: "scan_inv a"
  then have b: "scan_inv b" using assms(1) by (simp add: scan_step_def)
  then show "scan_inv c" using assms(2) by (simp add: scan_step_def)
  show "\<exists>t \<in> set (scan_sessions c). scan_later s t" if "s \<in> set (scan_sessions a)" for s
    using that a b assms scan_later_trans unfolding scan_step_def by meson
  show "prefix (session_ledger a i) (session_ledger c i)" "prefix (session_rows a i) (session_rows c i)" for i
    using a b assms prefix_order.trans unfolding scan_step_def by blast+
qed

lemma scan_inv_wf: "scan_inv db \<Longrightarrow> wf_table ss_id (scan_sessions db)"
  by (simp add: scan_inv_def)

lemma session_by_id_Some:
  "scan_inv db \<Longrightarrow> scan_session_by_id db i = Some s \<longleftrightarrow> s \<in> set (scan_sessions db) \<and> ss_id s = i"
  unfolding scan_session_by_id_def by (rule find_id [OF scan_inv_wf])

lemma mutation_session_Inr:
  "mutation_session_in_tx i db = (Inr found, db') \<longleftrightarrow> i < 2 ^ 63 \<and> db' = db \<and>
     (case scan_session_by_id db i of None \<Rightarrow> found = None
      | Some s \<Rightarrow> found = Some s \<and> row_to_mutation_session db s = Inr s)"
  by (auto simp: mutation_session_in_tx_def bind_i64_apply optional_row_def row_to_mutation_eq map_sum_def
    split: option.splits sum.splits if_splits)

text \<open>
  Rows of sessions change by updates that keep the identity and the totals of a session; such an
  update keeps the invariant when the rows it writes pass the constraints, stay valid and do not
  become active.
\<close>

lemma update_scan_Inr:
  "update_scan_sessions p f db = (Inr rows, db') \<longleftrightarrow>
     (\<forall>s \<in> set (scan_sessions db). p s \<longrightarrow> scan_session_checks (f s)) \<and>
     rows = map f (filter p (scan_sessions db)) \<and>
     db' = db\<lparr>scan_sessions := update_where p f (scan_sessions db)\<rparr>"
  by (auto simp: update_scan_sessions_def list_ex_iff)

lemma sessions_only [simp]:
  "session_ledger (db\<lparr>scan_sessions := ss\<rparr>) i = session_ledger db i"
  "session_rows (db\<lparr>scan_sessions := ss\<rparr>) i = session_rows db i"
  "owner_incarnation_valid (db\<lparr>scan_sessions := ss\<rparr>) s = owner_incarnation_valid db s"
  "attributed_location_count (db\<lparr>scan_sessions := ss\<rparr>) s = attributed_location_count db s"
  by (simp_all add: session_ledger_def session_rows_def owner_incarnation_valid_def attributed_location_count_def
    incarnation_by_id_def split: option.splits)

lemma ledger_ok_cong:
  assumes "ss_id t = ss_id s" "ss_next_sequence t = ss_next_sequence s" "ss_observation_count t = ss_observation_count s"
    and "session_ledger db' (ss_id s) = session_ledger db (ss_id s)" "session_rows db' (ss_id s) = session_rows db (ss_id s)"
  shows "ledger_ok db' t \<longleftrightarrow> ledger_ok db s"
  using assms by (simp add: ledger_ok_def session_locators_def)

lemma update_ids: "(\<And>s. ss_id (f s) = ss_id s) \<Longrightarrow> ss_id ` set (update_where p f ss) = ss_id ` set ss"
  by (simp only: list.set_map [symmetric] update_where_keep)

definition status_update :: "(scan_session \<Rightarrow> scan_session) \<Rightarrow> bool" where
  "status_update f \<longleftrightarrow> (\<forall>s. ss_id (f s) = ss_id s \<and> ss_storage_root_id (f s) = ss_storage_root_id s \<and>
     ss_root_epoch (f s) = ss_root_epoch s \<and> ss_owner_node_id (f s) = ss_owner_node_id s \<and>
     ss_next_sequence (f s) = ss_next_sequence s \<and> ss_observation_count (f s) = ss_observation_count s)"

lemma status_update_id: "status_update f \<Longrightarrow> ss_id (f s) = ss_id s"
  by (simp add: status_update_def)

lemma one_active_update:
  assumes "one_active ss" "\<And>s. ss_id (f s) = ss_id s \<and> ss_storage_root_id (f s) = ss_storage_root_id s"
    and "\<And>s. s \<in> set ss \<Longrightarrow> p s \<Longrightarrow> scan_active_status (ss_status s)"
  shows "one_active (update_where p f ss)"
  unfolding one_active_def
proof (intro ballI impI)
  fix s t
  assume s: "s \<in> set (update_where p f ss)" and t: "t \<in> set (update_where p f ss)"
    and a: "scan_active_status (ss_status s)" "scan_active_status (ss_status t)"
    and r: "ss_storage_root_id s = ss_storage_root_id t"
  from s obtain s0 where s0: "s0 \<in> set ss" "s = (if p s0 then f s0 else s0)" unfolding in_update_where by blast
  from t obtain t0 where t0: "t0 \<in> set ss" "t = (if p t0 then f t0 else t0)" unfolding in_update_where by blast
  have same: "ss_id s = ss_id s0" "ss_storage_root_id s = ss_storage_root_id s0"
    "ss_id t = ss_id t0" "ss_storage_root_id t = ss_storage_root_id t0"
    using s0(2) t0(2) assms(2) by auto
  have "scan_active_status (ss_status s0)" using a(1) s0 assms(3) by (cases "p s0") auto
  moreover have "scan_active_status (ss_status t0)" using a(2) t0 assms(3) by (cases "p t0") auto
  moreover have "ss_storage_root_id s0 = ss_storage_root_id t0" using r same by simp
  ultimately have "ss_id s0 = ss_id t0" using assms(1) s0(1) t0(1) unfolding one_active_def by blast
  then show "ss_id s = ss_id t" using same by simp
qed

lemma active_unattributed:
  assumes "scan_inv db" "s \<in> set (scan_sessions db)" "scan_active_status (ss_status s)"
  shows "attributed_location_count db s = 0"
proof -
  have "validate_scan_session_integrity s (attributed_location_count db s)"
    using assms(1,2) unfolding scan_inv_def retirements_ok_def by blast
  then show ?thesis using assms(3) by (auto simp: validate_scan_session_integrity_def scan_active_status_def)
qed

lemma attributed_cong: "ss_id t = ss_id s \<Longrightarrow> attributed_location_count db t = attributed_location_count db s"
  by (simp add: attributed_location_count_def)

lemma scan_step_status:
  assumes f: "status_update f"
    and p: "\<And>s. scan_inv db \<Longrightarrow> s \<in> set (scan_sessions db) \<Longrightarrow> p s \<Longrightarrow> scan_active_status (ss_status s) \<and>
      ss_status (f s) \<noteq> ScanSucceeded \<and> scan_session_checks (f s) \<and> owner_incarnation_valid db (f s) \<and>
      scan_later s (f s)"
  shows "scan_step db (db\<lparr>scan_sessions := update_where p f (scan_sessions db)\<rparr>)"
  unfolding scan_step_def
proof (intro impI conjI ballI allI)
  assume inv: "scan_inv db"
  let ?ss = "update_where p f (scan_sessions db)" and ?db = "db\<lparr>scan_sessions := update_where p f (scan_sessions db)\<rparr>"
  have ids: "ss_id ` set ?ss = ss_id ` set (scan_sessions db)" by (rule update_ids [OF status_update_id [OF f]])
  have rows: "scan_session_checks t \<and> owner_incarnation_valid ?db t \<and> ledger_ok ?db t \<and>
      validate_scan_session_integrity t (attributed_location_count ?db t)" if "t \<in> set ?ss" for t
  proof -
    from that obtain s where s: "s \<in> set (scan_sessions db)" "t = (if p s then f s else s)"
      unfolding in_update_where by blast
    have old: "scan_session_checks s" "owner_incarnation_valid db s" "ledger_ok db s"
      "validate_scan_session_integrity s (attributed_location_count db s)"
      using inv s(1) unfolding scan_inv_def retirements_ok_def by blast+
    have "ledger_ok ?db t = ledger_ok db s"
      using s(2) f by (intro ledger_ok_cong) (auto simp: status_update_def)
    moreover have "attributed_location_count db t = attributed_location_count db s"
      using s(2) f by (intro attributed_cong) (auto simp: status_update_def)
    moreover have "validate_scan_session_integrity t (attributed_location_count db s)"
    proof (cases "p s")
      case True
      then show ?thesis using s p [OF inv s(1) True] active_unattributed [OF inv s(1)]
        by (simp add: validate_scan_session_integrity_def)
    qed (use s old in simp)
    ultimately show ?thesis using s old p [OF inv s(1)] inv by (auto simp: scan_inv_def)
  qed
  have "one_active ?ss"
    using inv p f by (intro one_active_update) (auto simp: scan_inv_def status_update_def)
  moreover have "wf_table ss_id ?ss"
    using wf_table_update [OF scan_inv_wf [OF inv]] status_update_id [OF f] by blast
  ultimately show "scan_inv ?db"
    using inv rows ids unfolding scan_inv_def retirements_ok_def by simp
  show "\<exists>t \<in> set (scan_sessions ?db). scan_later s t" if "s \<in> set (scan_sessions db)" for s
  proof
    show "(if p s then f s else s) \<in> set (scan_sessions ?db)" using that by (auto simp: in_update_where)
    show "scan_later s (if p s then f s else s)" using p [OF inv that] scan_later_refl by simp
  qed
qed simp_all

lemma status_update_rows [simp]:
  "status_update (started_row incarnation watermark deadline now)"
  "status_update (terminal_row st reason now)"
  "status_update (stale_row reason now)"
  "status_update (succeeded_session retired now)"
  by (simp_all add: status_update_def started_row_def terminal_row_def stale_row_def succeeded_session_def)

lemma stale_row_eq: "stale_row reason now = terminal_row ScanStale reason now"
  by (simp add: fun_eq_iff stale_row_def terminal_row_def)

lemma sessions_rows:
  "scan_inv db \<Longrightarrow> s \<in> set (scan_sessions db) \<Longrightarrow> scan_session_checks s \<and> owner_incarnation_valid db s \<and> ledger_ok db s"
  by (simp add: scan_inv_def)

lemma terminal_row_valid: "owner_incarnation_valid db (terminal_row st reason now s) = owner_incarnation_valid db s"
  by (simp add: owner_incarnation_valid_def terminal_row_def split: option.split)

lemma terminal_row_later:
  "scan_active_status (ss_status s) \<Longrightarrow> st \<notin> {ScanRequested, ScanRunning} \<Longrightarrow> scan_later s (terminal_row st reason now s)"
  by (auto simp: scan_later_def terminal_row_def)

lemma terminal_step:
  assumes "update_scan_sessions p (terminal_row st reason now) db = (Inr rows, db')"
    and "\<And>s. p s \<Longrightarrow> scan_active_status (ss_status s)" "st \<notin> {ScanRequested, ScanRunning, ScanSucceeded}"
  shows "scan_step db db'"
proof -
  from assms(1) have checks: "\<forall>s \<in> set (scan_sessions db). p s \<longrightarrow> scan_session_checks (terminal_row st reason now s)"
    and db': "db' = db\<lparr>scan_sessions := update_where p (terminal_row st reason now) (scan_sessions db)\<rparr>"
    unfolding update_scan_Inr by simp_all
  show ?thesis unfolding db'
  proof (rule scan_step_status)
    fix s
    assume s: "scan_inv db" "s \<in> set (scan_sessions db)" "p s"
    have "ss_status (terminal_row st reason now s) \<noteq> ScanSucceeded"
      using assms(3) by (simp add: terminal_row_def)
    then show "scan_active_status (ss_status s) \<and> ss_status (terminal_row st reason now s) \<noteq> ScanSucceeded \<and>
        scan_session_checks (terminal_row st reason now s) \<and> owner_incarnation_valid db (terminal_row st reason now s) \<and>
        scan_later s (terminal_row st reason now s)"
      using s checks assms(2,3) sessions_rows [OF s(1,2)] terminal_row_later [of s st]
      by (simp add: terminal_row_valid)
  qed simp
qed

lemma first_row_Inr:
  "(case rows of [] \<Rightarrow> throw_tx e | r # _ \<Rightarrow> lift_res (g r)) db = (Inr t, db') \<longleftrightarrow>
     db' = db \<and> (\<exists>r rest. rows = r # rest \<and> g r = Inr t)"
  by (auto split: list.split)

lemma with_session_Inr:
  "bind_tx (mutation_session_in_tx i) (\<lambda>found. case found of None \<Rightarrow> throw_tx e | Some s \<Rightarrow> k s) db = (Inr x, db') \<longleftrightarrow>
     (\<exists>s. i < 2 ^ 63 \<and> scan_session_by_id db i = Some s \<and> row_to_mutation_session db s = Inr s \<and> k s db = (Inr x, db'))"
  by (cases "scan_session_by_id db i") (auto simp: bind_tx_Inr mutation_session_Inr)

lemma terminalize_step:
  assumes "terminalize_in_tx i st reason now db = (Inr s, db')"
  shows "scan_step db db'"
proof (cases "st \<in> {ScanRequested, ScanRunning, ScanSucceeded}")
  case True
  then show ?thesis using assms by (simp add: terminalize_in_tx_def)
next
  case False
  from assms obtain rows where "update_scan_sessions (\<lambda>r. ss_id r = i \<and> scan_active_status (ss_status r))
      (terminal_row st reason now) db = (Inr rows, db')"
    unfolding terminalize_in_tx_def if_not_P [OF False] with_session_Inr
    by (auto simp: bind_tx_Inr bind_i64_Inr first_row_Inr split: if_splits)
  then show ?thesis by (rule terminal_step) (use False in auto)
qed

lemma mark_stale_step:
  assumes "mark_stale live chosen reason now db = (Inr rows, db')" "\<And>st. live st \<Longrightarrow> scan_active_status st"
  shows "scan_step db db'"
proof (cases "db' = db")
  case False
  then obtain ids written where "update_scan_sessions (\<lambda>s. live (ss_status s) \<and> ss_id s \<in> ids)
      (stale_row reason now) db = (Inr written, db')"
    using assms(1) by (auto simp: mark_stale_def Let_def bind_tx_Inr split: sum.splits if_splits)
  then show ?thesis unfolding stale_row_eq by (rule terminal_step) (auto simp: assms(2))
qed (simp add: scan_step_refl)

lemma stale_step:
  "stale_expired_in_tx now db = (Inr rows, db') \<Longrightarrow> scan_step db db'"
  "stale_running_for_incarnation_in_tx incarnation reason now db = (Inr rows, db') \<Longrightarrow> scan_step db db'"
  unfolding stale_expired_in_tx_def stale_running_for_incarnation_in_tx_def
  by (auto simp: scan_active_status_def intro: mark_stale_step)

lemma start_Inr:
  assumes "scan_start_in_tx i incarnation deadline now db = (Inr t, db')"
  obtains s watermark where "scan_session_by_id db i = Some s" "ss_status s = ScanRequested"
    "watermark = location_high_watermark db (ss_storage_root_id s)"
    "list_ex (\<lambda>n. ni_incarnation_id n = incarnation \<and> ni_node_id n = ss_owner_node_id s) (node_incarnations db)"
    "update_scan_sessions (\<lambda>r. ss_id r = i \<and> ss_status r = ScanRequested)
      (started_row incarnation watermark deadline now) db =
      (Inr (map (started_row incarnation watermark deadline now)
        (filter (\<lambda>r. ss_id r = i \<and> ss_status r = ScanRequested) (scan_sessions db))), db')"
proof -
  from assms obtain s where s: "scan_session_by_id db i = Some s" "ss_status s = ScanRequested"
    "list_ex (\<lambda>n. ni_incarnation_id n = incarnation \<and> ni_node_id n = ss_owner_node_id s) (node_incarnations db)"
    "bind_tx (update_scan_sessions (\<lambda>r. ss_id r = i \<and> ss_status r = ScanRequested)
       (started_row incarnation (location_high_watermark db (ss_storage_root_id s)) deadline now))
       (\<lambda>rows. case rows of [] \<Rightarrow> throw_tx Conflict | r # _ \<Rightarrow> lift_res (row_to_scan_session r)) db = (Inr t, db')"
    unfolding scan_start_in_tx_def with_session_Inr
    by (auto simp: bind_tx_Inr bind_i64_Inr validate_incarnation_owner_in_tx_def
      dest!: bind_i64_option_Inr split: if_splits)
  then show thesis
    by (intro that [OF s(1,2) refl s(3)]) (auto simp: bind_tx_Inr first_row_Inr update_scan_Inr)
qed

lemma incarnation_by_id_unique:
  assumes "distinct (map ni_incarnation_id (node_incarnations db))" "n \<in> set (node_incarnations db)"
  shows "incarnation_by_id db (ni_incarnation_id n) = Some n"
proof -
  have "inj_on ni_incarnation_id (set (node_incarnations db))" using assms(1) by (simp add: distinct_map)
  then show ?thesis unfolding incarnation_by_id_def
    using assms(2) by (intro find_unique) (auto dest: inj_onD)
qed

lemma start_step:
  assumes "scan_start_in_tx i incarnation deadline now db = (Inr t, db')"
  shows "scan_step db db'"
  using assms
proof (cases rule: start_Inr)
  case (1 s watermark)
  let ?p = "\<lambda>r. ss_id r = i \<and> ss_status r = ScanRequested" and ?f = "started_row incarnation watermark deadline now"
  from 1(4) obtain n where n: "n \<in> set (node_incarnations db)" "ni_incarnation_id n = incarnation"
    "ni_node_id n = ss_owner_node_id s" unfolding list_ex_iff by blast
  from 1(5) have checks: "\<forall>r \<in> set (scan_sessions db). ?p r \<longrightarrow> scan_session_checks (?f r)"
    and db': "db' = db\<lparr>scan_sessions := update_where ?p ?f (scan_sessions db)\<rparr>"
    unfolding update_scan_Inr by simp_all
  show ?thesis unfolding db'
  proof (rule scan_step_status)
    fix r
    assume r: "scan_inv db" "r \<in> set (scan_sessions db)" "?p r"
    have "s \<in> set (scan_sessions db)" "ss_id s = i" using 1(1) session_by_id_Some [OF r(1)] by auto
    then have "r = s" using r wf_table_same [OF scan_inv_wf [OF r(1)]] by auto
    moreover have "incarnation_by_id db incarnation = Some n"
      using incarnation_by_id_unique [OF _ n(1)] n(2) r(1) by (simp add: scan_inv_def)
    ultimately have "owner_incarnation_valid db (?f r)"
      using n(3) by (simp add: owner_incarnation_valid_def started_row_def)
    moreover have "scan_later r (?f r)" using r(3) by (auto simp: scan_later_def started_row_def scan_active_status_def)
    ultimately show "scan_active_status (ss_status r) \<and> ss_status (?f r) \<noteq> ScanSucceeded \<and>
        scan_session_checks (?f r) \<and> owner_incarnation_valid db (?f r) \<and> scan_later r (?f r)"
      using checks r by (simp add: scan_active_status_def started_row_def)
  qed simp
qed

lemma insert_requested_Inr:
  assumes "insert_requested_in_tx n db = (Inr s, db')"
  shows "s = requested_session n (next_rowid ss_id (scan_sessions db))"
    "db' = db\<lparr>scan_sessions := scan_sessions db @ [s]\<rparr>" "row_to_scan_session s = Inr s"
    "\<forall>t \<in> set (scan_sessions db). ss_storage_root_id t = nss_storage_root_id n \<longrightarrow> \<not> scan_active_status (ss_status t)"
  using assms
  by (auto simp: insert_requested_in_tx_def bind_i64_Inr Let_def bind_tx_Inr row_to_scan_session_Inr list_ex_iff
    split: if_splits)

lemma one_active_insert:
  assumes "one_active ss" "\<forall>t \<in> set ss. ss_storage_root_id t = ss_storage_root_id s \<longrightarrow> \<not> scan_active_status (ss_status t)"
  shows "one_active (ss @ [s])"
  unfolding one_active_def
proof (intro ballI impI)
  fix x y
  assume xy: "x \<in> set (ss @ [s])" "y \<in> set (ss @ [s])" "scan_active_status (ss_status x)" "scan_active_status (ss_status y)"
    "ss_storage_root_id x = ss_storage_root_id y"
  then consider "x \<in> set ss" "y \<in> set ss" | "x = s" "y = s" using assms(2) by auto
  then show "ss_id x = ss_id y" using assms(1) xy(3-5) unfolding one_active_def by cases blast+
qed

lemma insert_requested_step:
  assumes "insert_requested_in_tx n db = (Inr s, db')"
  shows "scan_step db db'"
  unfolding scan_step_def insert_requested_Inr(2) [OF assms]
proof (intro impI conjI ballI allI)
  assume inv: "scan_inv db"
  note ins = insert_requested_Inr [OF assms]
  let ?db = "db\<lparr>scan_sessions := scan_sessions db @ [s]\<rparr>"
  have fresh: "ss_id s \<notin> ss_id ` set (scan_sessions db)"
    using next_rowid_fresh [of _ "scan_sessions db" ss_id] ins(1) by (fastforce simp: requested_session_def)
  have "sb_scan_session_id ` set (scan_observation_batches db) \<subseteq> ss_id ` set (scan_sessions db)"
    "so_scan_session_id ` set (scan_observations db) \<subseteq> ss_id ` set (scan_sessions db)"
    using inv by (simp_all add: scan_inv_def)
  then have "session_ledger db (ss_id s) = []" "session_rows db (ss_id s) = []"
    using fresh unfolding session_ledger_def session_rows_def filter_empty_conv by (metis image_subset_iff)+
  then have "ledger_ok ?db s" using ins(1)
    by (simp add: ledger_ok_def session_locators_def ledger_total_def ledger_positions_def requested_session_def)
  moreover have "owner_incarnation_valid db s" using ins(1) by (simp add: owner_incarnation_valid_def requested_session_def)
  moreover have "scan_session_checks s"
    unfolding checks_iff_decodes using ins(1,3) by (simp add: only_vertical_tab_blank_def requested_session_def)
  moreover have old: "ledger_ok ?db t = ledger_ok db t" for t by (rule ledger_ok_cong) simp_all
  moreover have "attributed_location_count db s = 0"
    using inv fresh unfolding attributed_location_count_def scan_inv_def retirements_ok_def by fastforce
  moreover have "ss_status s = ScanRequested" using ins(1) by (simp add: requested_session_def)
  moreover have "wf_table ss_id (scan_sessions db @ [s])"
    using ins(1) by (intro wf_table_insert [OF scan_inv_wf [OF inv]]) (simp add: requested_session_def)
  moreover have "one_active (scan_sessions db @ [s])"
    using inv ins(4) ins(1) by (intro one_active_insert) (simp_all add: scan_inv_def requested_session_def)
  ultimately show "scan_inv ?db"
    using inv unfolding scan_inv_def retirements_ok_def
    by (auto simp: validate_scan_session_integrity_def)
  show "\<exists>t \<in> set (scan_sessions ?db). scan_later s' t" if "s' \<in> set (scan_sessions db)" for s'
    using that scan_later_refl [of s'] by auto
qed simp_all

section \<open>Accepting a batch\<close>

lemma ledger_total_simps [simp]:
  "ledger_total [] = 0" "ledger_total (b # bs) = sb_observation_count b + ledger_total bs"
  "ledger_total (xs @ ys) = ledger_total xs + ledger_total ys"
  by (simp_all add: ledger_total_def)

lemma ledger_positions_append: "ledger_positions (xs @ ys) = ledger_positions xs @ ledger_positions ys"
  by (simp add: ledger_positions_def)

lemma chained_append:
  "chained k c (xs @ ys) \<longleftrightarrow> chained k c xs \<and> chained (k + length xs) (c + ledger_total xs) ys"
  by (induction xs arbitrary: k c) (auto simp: add.assoc add.commute add.left_commute)

lemma chained_nth:
  assumes "chained k c bs" "n < length bs"
  shows "chained (k + n) (c + ledger_total (take n bs)) [bs ! n]"
proof -
  have "chained k c (take n bs @ [bs ! n] @ drop (Suc n) bs)"
    using assms by (simp add: id_take_nth_drop [symmetric])
  then have "chained (k + length (take n bs)) (c + ledger_total (take n bs)) [bs ! n]"
    unfolding chained_append by blast
  then show ?thesis using assms(2) by (simp only: length_take min_absorb2 less_imp_le)
qed

lemma chained_sequences: "chained k c bs \<Longrightarrow> map sb_sequence bs = [k..<k + length bs]"
proof (induction bs arbitrary: k c)
  case (Cons b bs)
  from Cons.prems have "chained (Suc k) (c + sb_observation_count b) bs" "sb_sequence b = k" by simp_all
  then have "map sb_sequence bs = [Suc k..<Suc k + length bs]" "sb_sequence b = k" using Cons.IH by blast+
  then show ?case by (simp add: upt_conv_Cons del: upt_Suc)
qed simp

lemma find_filter: "find P (filter Q xs) = find (\<lambda>x. Q x \<and> P x) xs"
  by (induction xs) auto

lemma batch_by_key_ledger: "batch_by_key db i k = find (\<lambda>b. sb_sequence b = k) (session_ledger db i)"
  by (simp add: batch_by_key_def session_ledger_def find_filter)

lemma find_sequence:
  assumes "map sb_sequence bs = [0..<length bs]"
  shows "find (\<lambda>b. sb_sequence b = k) bs = (if k < length bs then Some (bs ! k) else None)"
proof -
  have seq: "sb_sequence (bs ! j) = j" if "j < length bs" for j
    using assms that by (metis nth_map nth_upt add_0 length_map)
  show ?thesis
  proof (cases "k < length bs")
    case True
    then have "find (\<lambda>b. sb_sequence b = k) bs = Some (bs ! k)"
      unfolding find_Some_iff using seq by (intro exI [of _ k]) auto
    then show ?thesis using True by simp
  next
    case False
    then have "sb_sequence b \<noteq> k" if "b \<in> set bs" for b
      using that seq by (auto simp: in_set_conv_nth)
    then show ?thesis using False by (simp add: find_None_iff)
  qed
qed

lemma ledger_lookup:
  assumes "ledger_ok db s"
  shows "batch_by_key db (ss_id s) k =
    (if k < ss_next_sequence s then Some (session_ledger db (ss_id s) ! k) else None)"
  using assms find_sequence [of "session_ledger db (ss_id s)" k] chained_sequences [of 0 0 "session_ledger db (ss_id s)"]
  unfolding batch_by_key_ledger ledger_ok_def by simp

text \<open>Inserting the rows of a batch: none may clash with a stored row or with another of the batch.\<close>

definition rows_clash :: "scan_observation_row \<Rightarrow> scan_observation_row \<Rightarrow> bool" where
  "rows_clash q r \<longleftrightarrow> so_scan_session_id q = so_scan_session_id r \<and>
     (so_batch_sequence q = so_batch_sequence r \<and> so_ordinal q = so_ordinal r \<or>
      ob_provider_relative_locator (so_observation q) = ob_provider_relative_locator (so_observation r))"

lemma observation_taken_iff: "observation_taken db r \<longleftrightarrow> (\<exists>q \<in> set (scan_observations db). rows_clash q r)"
  by (auto simp: observation_taken_def rows_clash_def list_ex_iff)

lemma insert_observation_Inr:
  "insert_observation r db = (Inr u, db') \<longleftrightarrow> observation_checks (so_observation r) \<and> \<not> observation_taken db r \<and>
     batch_by_key db (so_scan_session_id r) (so_batch_sequence r) \<noteq> None \<and>
     db' = db\<lparr>scan_observations := scan_observations db @ [r]\<rparr>"
  by (auto simp: insert_observation_def)

lemma insert_rows_Inr:
  assumes "for_tx insert_observation rows db = (Inr us, db')"
  shows "db' = db\<lparr>scan_observations := scan_observations db @ rows\<rparr> \<and>
    (\<forall>r \<in> set rows. observation_checks (so_observation r)) \<and>
    (\<forall>r \<in> set rows. \<not> observation_taken db r) \<and> sorted_wrt (\<lambda>q r. \<not> rows_clash q r) rows"
  using assms
proof (induction rows arbitrary: db us)
  case (Cons r rows)
  from Cons.prems obtain us' where step: "insert_observation r db = (Inr (), db\<lparr>scan_observations := scan_observations db @ [r]\<rparr>)"
    and rest: "for_tx insert_observation rows (db\<lparr>scan_observations := scan_observations db @ [r]\<rparr>) = (Inr us', db')"
    by (auto simp: bind_tx_Inr insert_observation_Inr)
  from step have "observation_checks (so_observation r)" "\<not> observation_taken db r"
    by (simp_all add: insert_observation_Inr)
  moreover note Cons.IH [OF rest]
  ultimately show ?case by (auto simp: observation_taken_iff)
qed simp

lemma insert_rows_runs:
  assumes "\<forall>r \<in> set rows. observation_checks (so_observation r)"
    and "\<forall>r \<in> set rows. \<not> observation_taken db r" "sorted_wrt (\<lambda>q r. \<not> rows_clash q r) rows"
    and "\<forall>r \<in> set rows. batch_by_key db (so_scan_session_id r) (so_batch_sequence r) \<noteq> None"
  shows "for_tx insert_observation rows db =
    (Inr (replicate (length rows) ()), db\<lparr>scan_observations := scan_observations db @ rows\<rparr>)"
  using assms
proof (induction rows arbitrary: db)
  case Nil
  then show ?case by (simp add: return_tx_def)
next
  case (Cons r rows)
  let ?db = "db\<lparr>scan_observations := scan_observations db @ [r]\<rparr>"
  have "insert_observation r db = (Inr (), ?db)" using Cons.prems by (simp add: insert_observation_Inr)
  moreover have "for_tx insert_observation rows ?db = (Inr (replicate (length rows) ()),
      ?db\<lparr>scan_observations := scan_observations ?db @ rows\<rparr>)"
    using Cons.prems by (intro Cons.IH) (auto simp: observation_taken_iff batch_by_key_def)
  ultimately show ?case by (simp add: bind_tx_def return_tx_def)
qed

lemma observation_rows_simps [simp]:
  "length (observation_rows i k obs) = length obs"
  "map observation_position (observation_rows i k obs) = map (Pair k) [0..<length obs]"
  "map so_observation (observation_rows i k obs) = obs"
  "r \<in> set (observation_rows i k obs) \<Longrightarrow> so_scan_session_id r = i \<and> so_batch_sequence r = k"
  by (auto simp: observation_rows_def observation_position_def enumerate_eq_zip zip_map_fst_snd
    comp_def case_prod_beta intro!: nth_equalityI)

definition stored_outcome :: "scan_observation_batch \<Rightarrow> scan_batch_outcome" where
  "stored_outcome b = \<lparr> bo_scan_session_id = sb_scan_session_id b, bo_sequence = sb_sequence b,
     bo_accepted_observation_count = sb_observation_count b,
     bo_cumulative_observation_count = sb_cumulative_observation_count b \<rparr>"

lemma ledger_total_take: "ledger_total (take n bs) \<le> ledger_total bs"
  using ledger_total_simps(3) [of "take n bs" "drop n bs"] by simp

lemma ledger_entry:
  assumes ok: "ledger_ok db s" and k: "k < ss_next_sequence s"
  defines "b \<equiv> session_ledger db (ss_id s) ! k"
  shows "sb_scan_session_id b = ss_id s" "sb_sequence b = k"
    "sb_previous_sequence b = (if k = 0 then None else Some (k - 1))"
    "is_lowercase_sha256 (sb_request_hash b)" "1 \<le> sb_observation_count b" "sb_observation_count b \<le> 1000"
    "sb_cumulative_observation_count b = ledger_total (take k (session_ledger db (ss_id s))) + sb_observation_count b"
    "sb_cumulative_observation_count b \<le> ss_observation_count s"
proof -
  let ?L = "session_ledger db (ss_id s)"
  have L: "chained 0 0 ?L" "length ?L = ss_next_sequence s" "ledger_total ?L = ss_observation_count s"
    using ok by (simp_all add: ledger_ok_def)
  have "b \<in> set ?L" using k L(2) by (simp add: b_def)
  then show "sb_scan_session_id b = ss_id s" by (simp add: session_ledger_def)
  have c: "chained k (ledger_total (take k ?L)) [b]" using chained_nth [OF L(1), of k] k L(2) by (simp add: b_def)
  then show "sb_sequence b = k" "sb_previous_sequence b = (if k = 0 then None else Some (k - 1))"
    "is_lowercase_sha256 (sb_request_hash b)" "1 \<le> sb_observation_count b" "sb_observation_count b \<le> 1000"
    and cum: "sb_cumulative_observation_count b = ledger_total (take k ?L) + sb_observation_count b"
    by simp_all
  have "ledger_total (take (Suc k) ?L) = ledger_total (take k ?L) + sb_observation_count b"
    using k L(2) by (simp add: take_Suc_conv_app_nth b_def)
  then show "sb_cumulative_observation_count b \<le> ss_observation_count s"
    using cum ledger_total_take [of "Suc k" ?L] L(3) by simp
qed

lemma ledger_previous:
  assumes ok: "ledger_ok db s" and k: "k < ss_next_sequence s" "0 < k"
  shows "sb_cumulative_observation_count (session_ledger db (ss_id s) ! k) =
    sb_cumulative_observation_count (session_ledger db (ss_id s) ! (k - 1)) +
    sb_observation_count (session_ledger db (ss_id s) ! k)"
proof -
  let ?L = "session_ledger db (ss_id s)"
  have "k = Suc (k - 1)" "length ?L = ss_next_sequence s" using k ok by (simp_all add: ledger_ok_def)
  then have "ledger_total (take k ?L) = ledger_total (take (k - 1) ?L) + sb_observation_count (?L ! (k - 1))"
    using k take_Suc_conv_app_nth [of "k - 1" ?L] by simp
  then show ?thesis using ledger_entry(7) [OF ok k(1)] ledger_entry(7) [OF ok, of "k - 1"] k by simp
qed

lemma link_ok:
  assumes ok: "ledger_ok db s" "ss_observation_count s \<le> 100000" and k: "k < ss_next_sequence s"
  defines "b \<equiv> session_ledger db (ss_id s) ! k"
  shows "\<exists>q. batch_with_predecessor db (ss_id s) k = Some (b, q) \<and>
    validate_batch_link (b, q) (ss_id s) k = Inr (stored_outcome b)"
proof -
  note e = ledger_entry [OF ok(1) k, folded b_def]
  have found: "batch_by_key db (ss_id s) j = Some (session_ledger db (ss_id s) ! j)" if "j \<le> k" for j
    using ledger_lookup [OF ok(1)] that k by simp
  have out: "batch_outcome_from_row b (ss_id s) k = Inr (stored_outcome b)"
    using e ok(2) by (simp add: batch_outcome_from_row_def stored_outcome_def MAX_SCAN_SESSION_OBSERVATIONS_def)
  show ?thesis
  proof (cases "k = 0")
    case True
    then show ?thesis using found [of 0] e out
      by (simp add: batch_with_predecessor_def b_def validate_batch_link_def stored_outcome_def)
  next
    case False
    let ?q = "session_ledger db (ss_id s) ! (k - 1)"
    have "k - 1 < ss_next_sequence s" using k by simp
    then have q: "sb_sequence ?q = k - 1" "sb_cumulative_observation_count ?q \<le> 100000"
      using ledger_entry(2,8) [OF ok(1)] ok(2) le_trans by blast+
    have "u64_add (sb_cumulative_observation_count ?q) (sb_observation_count b) = Inr (sb_cumulative_observation_count b)"
      using ledger_previous [OF ok(1) k] False e(6) q(2) by (simp add: u64_add_def u64_max_def b_def)
    then have "validate_batch_link (b, Some ?q) (ss_id s) k = Inr (stored_outcome b)"
      using out e q False by (simp add: validate_batch_link_def stored_outcome_def)
    then show ?thesis using found [of k] found [of "k - 1"] e False
      by (simp add: batch_with_predecessor_def b_def)
  qed
qed

lemma batch_replay_eq:
  assumes ok: "ledger_ok db s" "ss_observation_count s \<le> 100000" and s: "ss_id s = nb_scan_session_id b"
  defines "q \<equiv> session_ledger db (ss_id s) ! nb_sequence b"
  shows "batch_replay db b = (if \<not> nb_sequence b < ss_next_sequence s then Inr None
    else if sb_request_hash q \<noteq> nb_request_hash b then Inl Conflict else Inr (Some (stored_outcome q)))"
proof (cases "nb_sequence b < ss_next_sequence s")
  case True
  obtain p where "batch_with_predecessor db (ss_id s) (nb_sequence b) = Some (q, p)"
    "validate_batch_link (q, p) (ss_id s) (nb_sequence b) = Inr (stored_outcome q)"
    using link_ok [OF ok True] q_def by blast
  then show ?thesis using True ledger_entry(4) [OF ok(1) True] s by (simp add: batch_replay_def q_def)
next
  case False
  then show ?thesis using ledger_lookup [OF ok(1), of "nb_sequence b"] s
    by (simp add: batch_replay_def batch_with_predecessor_def)
qed

lemma ledger_last:
  assumes ok: "ledger_ok db s" and k: "ss_next_sequence s = Suc k"
  shows "sb_cumulative_observation_count (session_ledger db (ss_id s) ! k) = ss_observation_count s"
proof -
  let ?L = "session_ledger db (ss_id s)"
  have "length ?L = Suc k" "ledger_total ?L = ss_observation_count s" using ok k by (simp_all add: ledger_ok_def)
  then show ?thesis
    using ledger_entry(7) [OF ok, of k] k take_Suc_conv_app_nth [of k ?L]
    by (metis ledger_total_simps(1,2,3) add.right_neutral lessI order_refl take_all)
qed

lemma frontier_ok:
  assumes ok: "ledger_ok db s" "ss_observation_count s \<le> 100000" and "ss_id s < 2 ^ 63"
    and k: "ss_next_sequence s = Suc k" "k < 2 ^ 63"
  shows "frontier_matches db s k = Inr ()"
  using link_ok [OF ok, of k] ledger_last [OF ok(1) k(1)] k assms(3) by (auto simp: frontier_matches_def stored_outcome_def)

definition accepted_db :: "new_scan_observation_batch \<Rightarrow> scan_session \<Rightarrow> db \<Rightarrow> db" where
  "accepted_db b s db = (let cumulative = ss_observation_count s + length (nb_observations b) in
     db\<lparr>scan_sessions := update_where (\<lambda>r. ss_id r = ss_id s)
          (progressed_row (ss_next_sequence s + 1) (ss_batch_count s + 1) cumulative (nb_next_progress_deadline_at b))
          (scan_sessions db),
        scan_observation_batches := scan_observation_batches db @ [new_batch_row b cumulative],
        scan_observations := scan_observations db @
          observation_rows (nb_scan_session_id b) (nb_sequence b) (nb_observations b)\<rparr>)"

lemma prepare_observations_Inr:
  "prepare_observations json_len seen obs = Inr u \<longleftrightarrow>
     distinct (map ob_provider_relative_locator obs) \<and> set seen \<inter> ob_provider_relative_locator ` set obs = {} \<and>
     (\<forall>ob \<in> set obs. validate_batch_observation ob \<and> ob_size_bytes ob < 2 ^ 63 \<and>
       (\<forall>e. ob_evidence ob = Some e \<longrightarrow> validate_evidence json_len e))"
  by (induction json_len seen obs rule: prepare_observations.induct) (auto split: option.splits)

lemma prepared_Inr:
  assumes "prepared_batch_new json_len b = Inr u"
  shows "1 \<le> length (nb_observations b)" "length (nb_observations b) \<le> 1000" "is_lowercase_sha256 (nb_request_hash b)"
    "nb_scan_session_id b < 2 ^ 63" "nb_sequence b < 2 ^ 63" "distinct (map ob_provider_relative_locator (nb_observations b))"
    "\<forall>ob \<in> set (nb_observations b). validate_batch_observation ob"
    "\<forall>ob \<in> set (nb_observations b). \<forall>e. ob_evidence ob = Some e \<longrightarrow> validate_evidence json_len e"
  using assms by (auto simp: prepared_batch_new_def prepare_observations_Inr split: if_splits)

lemma nth_observation_rows:
  "n < length obs \<Longrightarrow> observation_rows i k obs ! n =
     \<lparr> so_scan_session_id = i, so_batch_sequence = k, so_ordinal = n, so_observation = obs ! n \<rparr>"
  by (simp add: observation_rows_def enumerate_eq_zip)

lemma observation_rows_clash:
  assumes "distinct (map ob_provider_relative_locator obs)"
  shows "sorted_wrt (\<lambda>q r. \<not> rows_clash q r) (observation_rows i k obs)"
  unfolding sorted_wrt_iff_nth_less
  using assms by (auto simp: nth_observation_rows rows_clash_def distinct_conv_nth)

lemma in_observation_rows: "r \<in> set (observation_rows i k obs) \<Longrightarrow> so_observation r \<in> set obs"
  by (metis observation_rows_simps(3) image_eqI list.set_map)

lemma insert_rows_fails:
  assumes "\<exists>r \<in> set rows. \<not> observation_checks (so_observation r)"
    and "\<forall>r \<in> set rows. \<not> observation_taken db r" "sorted_wrt (\<lambda>q r. \<not> rows_clash q r) rows"
    and "\<forall>r \<in> set rows. batch_by_key db (so_scan_session_id r) (so_batch_sequence r) \<noteq> None"
  shows "fst (for_tx insert_observation rows db) = Inl Database"
  using assms
proof (induction rows arbitrary: db)
  case (Cons r rows)
  show ?case
  proof (cases "observation_checks (so_observation r)")
    case True
    let ?db = "db\<lparr>scan_observations := scan_observations db @ [r]\<rparr>"
    have "insert_observation r db = (Inr (), ?db)" using Cons.prems True by (simp add: insert_observation_Inr)
    moreover have "fst (for_tx insert_observation rows ?db) = Inl Database"
      using Cons.prems True by (intro Cons.IH) (auto simp: observation_taken_iff batch_by_key_def)
    ultimately show ?thesis by (auto simp: bind_tx_def split: prod.split)
  next
    case False
    then have "insert_observation r db = (Inl Database, db)" by (simp add: insert_observation_def)
    then show ?thesis by (simp add: bind_tx_def)
  qed
qed simp

lemma progressed_checks:
  assumes "scan_session_checks s" "1 \<le> n" "n \<le> 1000" "ss_observation_count s + n \<le> 100000"
  shows "scan_session_checks
    (progressed_row (ss_next_sequence s + 1) (ss_batch_count s + 1) (ss_observation_count s + n) deadline s)"
proof -
  have old: "ss_observation_count s \<le> 100000" using assms(4) by simp
  let ?t = "progressed_row (ss_next_sequence s + 1) (ss_batch_count s + 1) (ss_observation_count s + n) deadline s"
  have "row_to_scan_session s = Inr s" "\<not> only_vertical_tab_blank s" using assms(1) unfolding checks_iff_decodes by blast+
  then have "optional_terminal_reason s" "validate_scan_session s" by (simp_all add: row_to_scan_session_Inr)
  moreover from this have "has_coherent_progress_counters ?t"
    using assms old unfolding validate_scan_session_def has_coherent_progress_counters_def
    by (auto simp: progressed_row_def u64_max_def split: if_splits)
  moreover have "has_valid_lifecycle_shape ?t = has_valid_lifecycle_shape s"
    by (simp add: has_valid_lifecycle_shape_def progressed_row_def scan_is_active_def is_unbound_def has_start_bindings_def
      has_success_shape_def has_unsuccessful_terminal_shape_def split: scan_session_status.split)
  ultimately have "row_to_scan_session ?t = Inr ?t"
    using assms(4) by (simp add: row_to_scan_session_Inr validate_scan_session_def optional_terminal_reason_def
      progressed_row_def MAX_SCAN_SESSION_OBSERVATIONS_def)
  moreover have "\<not> only_vertical_tab_blank ?t" using \<open>\<not> only_vertical_tab_blank s\<close>
    by (simp add: only_vertical_tab_blank_def progressed_row_def)
  ultimately show ?thesis unfolding checks_iff_decodes by blast
qed

lemma checks_counters:
  assumes "scan_session_checks s"
  shows "ss_observation_count s \<le> 100000" "ss_batch_count s = ss_next_sequence s"
    "ss_next_sequence s \<le> ss_observation_count s"
proof -
  have v: "validate_scan_session s" using checks_decode [OF assms] by (simp add: row_to_scan_session_Inr)
  then show "ss_observation_count s \<le> 100000" by (simp add: validate_scan_session_def MAX_SCAN_SESSION_OBSERVATIONS_def)
  from v have "has_coherent_progress_counters s" by (simp add: validate_scan_session_def)
  then show "ss_batch_count s = ss_next_sequence s" "ss_next_sequence s \<le> ss_observation_count s"
    by (auto simp: has_coherent_progress_counters_def split: if_splits)
qed

lemma update_where_cong: "(\<And>r. r \<in> set rows \<Longrightarrow> p r = q r) \<Longrightarrow> update_where p f rows = update_where q f rows"
  by (simp add: update_where_def)

lemma filter_key_one:
  assumes "wf_table key rows" "r \<in> set rows"
  shows "filter (\<lambda>x. key x = key r) rows = [r]"
proof -
  have "length (filter (\<lambda>x. key x = key r) rows) = 1"
    using rows_matching_key [OF assms(1), of "key r" "\<lambda>_. True"] assms(2) by (auto simp: rows_matching_def)
  moreover have "r \<in> set (filter (\<lambda>x. key x = key r) rows)" using assms(2) by simp
  ultimately show ?thesis by (metis One_nat_def empty_iff length_0_conv length_Suc_conv list.set(1) set_ConsD)
qed

text \<open>The row an accepted batch adds to the ledger passes the constraints and the triggers.\<close>

lemma new_batch_checks:
  assumes inv: "scan_inv db" and s: "s \<in> set (scan_sessions db)" "ss_id s = nb_scan_session_id b" "ss_next_sequence s = nb_sequence b"
    and b: "prepared_batch_new json_len b = Inr ()"
    and total: "ss_observation_count s + length (nb_observations b) \<le> 100000"
  defines "c \<equiv> ss_observation_count s + length (nb_observations b)"
    and "ss \<equiv> update_where (\<lambda>r. ss_id r = ss_id s) (progressed_row (ss_next_sequence s + 1) (ss_batch_count s + 1)
      (ss_observation_count s + length (nb_observations b)) (nb_next_progress_deadline_at b)) (scan_sessions db)"
  shows "batch_checks (db\<lparr>scan_sessions := ss\<rparr>) (new_batch_row b c)"
proof -
  let ?L = "session_ledger db (ss_id s)"
  note row = sessions_rows [OF inv s(1)] and p = prepared_Inr [OF b]
  have ok: "ledger_ok db s" and "ss_batch_count s = ss_next_sequence s" using row checks_counters by blast+
  let ?t = "progressed_row (ss_next_sequence s + 1) (ss_batch_count s + 1)
      (ss_observation_count s + length (nb_observations b)) (nb_next_progress_deadline_at b) s"
  have "?t \<in> set ss" unfolding ss_def using s(1) by (auto simp: in_update_where)
  then have parent: "list_ex (\<lambda>s. ss_id s = nb_scan_session_id b \<and> ss_next_sequence s = nb_sequence b + 1 \<and>
      ss_batch_count s = nb_sequence b + 1 \<and> ss_observation_count s = c) ss"
    unfolding list_ex_iff using s \<open>ss_batch_count s = ss_next_sequence s\<close>
    by (intro bexI [of _ ?t]) (simp_all add: progressed_row_def c_def)
  have lookup: "batch_by_key (db\<lparr>scan_sessions := ss\<rparr>) (nb_scan_session_id b) k =
      (if k < nb_sequence b then Some (?L ! k) else None)" for k
    using ledger_lookup [OF ok, of k] s by (simp add: batch_by_key_def)
  have last: "sb_cumulative_observation_count (?L ! (nb_sequence b - 1)) = ss_observation_count s" if "nb_sequence b > 0"
    using ledger_last [OF ok, of "nb_sequence b - 1"] that s(3) by simp
  have zero: "ss_observation_count s = 0" if "nb_sequence b = 0"
    using ok s(3) that unfolding ledger_ok_def by (metis ledger_total_simps(1) length_0_conv)
  show ?thesis
    unfolding batch_checks_def using lookup parent last zero p total
    by (auto simp: new_batch_row_def c_def)
qed

lemma row_position:
  assumes "ledger_ok db s" "q \<in> set (session_rows db (ss_id s))"
  shows "so_batch_sequence q < ss_next_sequence s" "so_ordinal q < 1000"
proof -
  let ?L = "session_ledger db (ss_id s)"
  have L: "chained 0 0 ?L" "length ?L = ss_next_sequence s"
    "map observation_position (session_rows db (ss_id s)) = ledger_positions ?L"
    using assms(1) by (simp_all add: ledger_ok_def)
  have "observation_position q \<in> set (map observation_position (session_rows db (ss_id s)))" using assms(2) by simp
  then obtain b where b: "b \<in> set ?L" "so_batch_sequence q = sb_sequence b" "so_ordinal q < sb_observation_count b"
    unfolding L(3) by (auto simp: ledger_positions_def observation_position_def)
  from b(1) obtain k where k: "k < length ?L" "?L ! k = b" unfolding in_set_conv_nth by blast
  then have "sb_sequence b = k" "sb_observation_count b \<le> 1000"
    using ledger_entry(2,6) [OF assms(1), of k] L(2) by simp_all
  then show "so_batch_sequence q < ss_next_sequence s" "so_ordinal q < 1000" using b k L(2) by simp_all
qed

lemma ensure_new_locators_eq:
  "ensure_new_locators db b = (if set (map ob_provider_relative_locator (nb_observations b)) \<inter>
     set (session_locators db (nb_scan_session_id b)) = {} then Inr () else Inl Conflict)"
proof -
  have "v \<in> set (session_locators db i) \<longleftrightarrow> list_ex (\<lambda>q. so_scan_session_id q = i \<and>
      ob_provider_relative_locator (so_observation q) = v) (scan_observations db)" for v i
    by (auto simp: session_locators_def session_rows_def list_ex_iff)
  then show ?thesis by (auto simp: ensure_new_locators_def list_ex_iff disjoint_iff)
qed

lemma checked_rows:
  assumes "\<forall>ob \<in> set obs. validate_batch_observation ob"
  shows "(\<forall>r \<in> set (observation_rows i k obs). observation_checks (so_observation r)) \<longleftrightarrow>
    (\<forall>ob \<in> set obs. locator_check (ob_provider_relative_locator ob))"
proof -
  have "(\<forall>r \<in> set (observation_rows i k obs). observation_checks (so_observation r)) \<longleftrightarrow>
      (\<forall>ob \<in> set (map so_observation (observation_rows i k obs)). observation_checks ob)"
    by (simp del: observation_rows_simps(3))
  also have "\<dots> \<longleftrightarrow> (\<forall>ob \<in> set obs. locator_check (ob_provider_relative_locator ob))"
    using assms unfolding observation_rows_simps
    by (auto simp: observation_checks_def validate_batch_observation_def Suc_le_eq)
  finally show ?thesis .
qed

lemma progress_update:
  fixes deadline :: instant
  assumes inv: "scan_inv db" and s: "s \<in> set (scan_sessions db)" "ss_id s = nb_scan_session_id b"
      "ss_next_sequence s = nb_sequence b" "ss_status s = ScanRunning"
    and n: "1 \<le> n" "n \<le> 1000" "ss_observation_count s + n \<le> 100000"
  defines "f \<equiv> progressed_row (ss_next_sequence s + 1) (ss_batch_count s + 1) (ss_observation_count s + n) deadline"
  shows "update_scan_sessions (\<lambda>r. ss_id r = nb_scan_session_id b \<and> ss_status r = ScanRunning \<and>
      ss_next_sequence r = nb_sequence b \<and> ss_observation_count r = ss_observation_count s) f db =
    (Inr [f s], db\<lparr>scan_sessions := update_where (\<lambda>r. ss_id r = ss_id s) f (scan_sessions db)\<rparr>)"
proof -
  let ?p = "\<lambda>r. ss_id r = nb_scan_session_id b \<and> ss_status r = ScanRunning \<and> ss_next_sequence r = nb_sequence b \<and>
    ss_observation_count r = ss_observation_count s"
  note row = sessions_rows [OF inv s(1)] and wf = scan_inv_wf [OF inv]
  have p: "?p r \<longleftrightarrow> ss_id r = ss_id s" if "r \<in> set (scan_sessions db)" for r
    using wf_table_same [OF wf that s(1)] s by auto
  have "update_where ?p f (scan_sessions db) = update_where (\<lambda>r. ss_id r = ss_id s) f (scan_sessions db)"
    by (rule update_where_cong) (rule p)
  moreover have "filter ?p (scan_sessions db) = [s]"
    using filter_key_one [OF wf s(1)] filter_cong [OF refl p, of "scan_sessions db" "\<lambda>r. r"] by simp
  moreover have "scan_session_checks (f r)" if "r \<in> set (scan_sessions db)" "?p r" for r
  proof -
    have "r = s" using that p wf_table_same [OF wf _ s(1)] by blast
    then show ?thesis unfolding f_def using progressed_checks row n by blast
  qed
  ultimately show ?thesis unfolding update_scan_Inr by simp
qed

lemma new_rows_free:
  assumes ok: "ledger_ok db s" and s: "ss_id s = nb_scan_session_id b" "ss_next_sequence s = nb_sequence b"
    and new: "ensure_new_locators db b = Inr ()"
    and r: "r \<in> set (observation_rows (nb_scan_session_id b) (nb_sequence b) (nb_observations b))"
  shows "\<not> observation_taken db r"
proof -
  have r: "so_scan_session_id r = ss_id s" "so_batch_sequence r = ss_next_sequence s"
    "ob_provider_relative_locator (so_observation r) \<notin> set (session_locators db (ss_id s))"
    using r new s in_observation_rows [OF r] by (auto simp: ensure_new_locators_eq split: if_splits)
  have "\<not> rows_clash q r" if "q \<in> set (scan_observations db)" for q
  proof (cases "so_scan_session_id q = ss_id s")
    case True
    then have "q \<in> set (session_rows db (ss_id s))" using that by (simp add: session_rows_def)
    moreover from this have "ob_provider_relative_locator (so_observation q) \<in> set (session_locators db (ss_id s))"
      by (simp add: session_locators_def)
    ultimately show ?thesis using row_position(1) [OF ok, of q] r by (auto simp: rows_clash_def)
  qed (use r in \<open>simp add: rows_clash_def\<close>)
  then show ?thesis by (simp add: observation_taken_iff)
qed

lemma persist_eq:
  assumes inv: "scan_inv db" and s: "s \<in> set (scan_sessions db)" "ss_id s = nb_scan_session_id b"
      "ss_next_sequence s = nb_sequence b" "ss_status s = ScanRunning"
    and b: "prepared_batch_new json_len b = Inr ()"
    and total: "ss_observation_count s + length (nb_observations b) \<le> 100000"
    and new: "ensure_new_locators db b = Inr ()"
  shows "transact (persist_new_batch_in_tx b (ss_next_sequence s + 1) (ss_batch_count s + 1)
      (ss_observation_count s + length (nb_observations b)) (ss_observation_count s)) db =
    (if \<forall>ob \<in> set (nb_observations b). locator_check (ob_provider_relative_locator ob)
     then (Inr (), accepted_db b s db) else (Inl Database, db))"
proof -
  let ?c = "ss_observation_count s + length (nb_observations b)"
  let ?f = "progressed_row (ss_next_sequence s + 1) (ss_batch_count s + 1) ?c (nb_next_progress_deadline_at b)"
  let ?ss = "update_where (\<lambda>r. ss_id r = ss_id s) ?f (scan_sessions db)"
  let ?db2 = "db\<lparr>scan_sessions := ?ss, scan_observation_batches := scan_observation_batches db @ [new_batch_row b ?c]\<rparr>"
  let ?rows = "observation_rows (nb_scan_session_id b) (nb_sequence b) (nb_observations b)"
  note pb = prepared_Inr [OF b]
  note u = progress_update [OF inv s pb(1,2) total, of "nb_next_progress_deadline_at b"]
  have batch: "insert_batch_in_tx b ?c (db\<lparr>scan_sessions := ?ss\<rparr>) = (Inr (), ?db2)"
    using new_batch_checks [OF inv s(1,2,3) b total] by (simp add: insert_batch_in_tx_def Let_def)
  have "\<not> observation_taken ?db2 r" if "r \<in> set ?rows" for r
    using new_rows_free [OF _ s(2,3) new that] sessions_rows [OF inv s(1)] by (simp add: observation_taken_iff)
  moreover have "batch_by_key ?db2 (so_scan_session_id r) (so_batch_sequence r) \<noteq> None" if "r \<in> set ?rows" for r
    using observation_rows_simps(4) [OF that] unfolding batch_by_key_def find_None_iff not_not
    by (intro exI [of _ "new_batch_row b ?c"]) (simp add: new_batch_row_def)
  moreover note rows = observation_rows_clash [OF pb(6)] checked_rows [OF pb(7)]
  ultimately have ins: "(\<forall>ob \<in> set (nb_observations b). locator_check (ob_provider_relative_locator ob)) \<Longrightarrow>
      for_tx insert_observation ?rows ?db2 = (Inr (replicate (length ?rows) ()), accepted_db b s db)"
    "\<not> (\<forall>ob \<in> set (nb_observations b). locator_check (ob_provider_relative_locator ob)) \<Longrightarrow>
      fst (for_tx insert_observation ?rows ?db2) = Inl Database"
    using insert_rows_runs [of ?rows ?db2] insert_rows_fails [of ?rows ?db2]
    by (simp_all add: accepted_db_def Let_def) blast
  have run: "persist_new_batch_in_tx b (ss_next_sequence s + 1) (ss_batch_count s + 1) ?c (ss_observation_count s) db =
      bind_tx (for_tx insert_observation ?rows) (\<lambda>_. return_tx ()) ?db2"
    unfolding persist_new_batch_in_tx_def insert_observations_in_tx_def using u batch by (simp add: bind_tx_def)
  show ?thesis
  proof (cases "\<forall>ob \<in> set (nb_observations b). locator_check (ob_provider_relative_locator ob)")
    case True
    then show ?thesis unfolding transact_def run using ins(1) by (simp add: bind_tx_def return_tx_def)
  next
    case False
    then show ?thesis unfolding transact_def run using ins(2)
      by (cases "for_tx insert_observation ?rows ?db2") (auto simp: bind_tx_def)
  qed
qed

definition new_outcome :: "new_scan_observation_batch \<Rightarrow> scan_session \<Rightarrow> scan_batch_outcome" where
  "new_outcome b s = \<lparr> bo_scan_session_id = nb_scan_session_id b, bo_sequence = nb_sequence b,
     bo_accepted_observation_count = length (nb_observations b),
     bo_cumulative_observation_count = ss_observation_count s + length (nb_observations b) \<rparr>"

lemma bind_tx_run: "m db = (Inr x, db') \<Longrightarrow> bind_tx m k db = k x db'"
  by (simp add: bind_tx_def)

lemma bind_reads:
  "bind_tx (\<lambda>db. (g db, db)) k db = (case g db of Inl e \<Rightarrow> (Inl e, db) | Inr x \<Rightarrow> k x db)"
  "bind_tx (lift_res r) k db = (case r of Inl e \<Rightarrow> (Inl e, db) | Inr x \<Rightarrow> k x db)"
  by (simp_all add: bind_tx_def lift_res_def split: sum.split)

lemma accept_new_eq:
  assumes inv: "scan_inv db" and s: "s \<in> set (scan_sessions db)" "ss_id s = nb_scan_session_id b"
    and b: "prepared_batch_new json_len b = Inr ()" and k: "\<not> nb_sequence b < ss_next_sequence s"
  shows "accept_new_batch b s db =
    (if ss_status s \<noteq> ScanRunning \<or> ss_next_sequence s \<noteq> nb_sequence b \<or>
        ss_observation_count s + length (nb_observations b) > 100000 \<or> ensure_new_locators db b \<noteq> Inr ()
     then (Inl Conflict, db)
     else if \<forall>ob \<in> set (nb_observations b). locator_check (ob_provider_relative_locator ob)
     then (Inr (new_outcome b s), accepted_db b s db) else (Inl Database, db))"
proof (cases "ss_status s \<noteq> ScanRunning \<or> ss_next_sequence s \<noteq> nb_sequence b")
  case True
  then show ?thesis using k by (auto simp: accept_new_batch_def throw_tx_def)
next
  case False
  note row = sessions_rows [OF inv s(1)] and pb = prepared_Inr [OF b]
  have c: "ss_observation_count s \<le> 100000" "ss_batch_count s = ss_next_sequence s"
    "ss_next_sequence s \<le> ss_observation_count s"
    using row checks_counters by blast+
  have "validate_new_batch_predecessor db s (nb_sequence b) = Inr ()"
  proof (cases "nb_sequence b")
    case 0
    then have "ss_observation_count s = 0"
      using row False unfolding ledger_ok_def by (metis ledger_total_simps(1) length_0_conv)
    then show ?thesis using 0 by (simp add: validate_new_batch_predecessor_def)
  next
    case (Suc m)
    then show ?thesis using frontier_ok [of db s m] row c False pb(4,5) s by (simp add: validate_new_batch_predecessor_def)
  qed
  moreover have "u64_add (ss_observation_count s) (length (nb_observations b)) =
      Inr (ss_observation_count s + length (nb_observations b))"
    "u64_add (ss_next_sequence s) 1 = Inr (ss_next_sequence s + 1)" "u64_add (ss_batch_count s) 1 = Inr (ss_batch_count s + 1)"
    using c pb(2) by (simp_all add: u64_add_def u64_max_def)
  moreover have "ss_status s = ScanRunning" "ss_next_sequence s = nb_sequence b" using False by simp_all
  ultimately have run: "accept_new_batch b s db =
      (if ss_observation_count s + length (nb_observations b) > 100000 then (Inl Conflict, db)
       else case ensure_new_locators db b of Inl e \<Rightarrow> (Inl e, db)
       | Inr _ \<Rightarrow> bind_tx (transact (persist_new_batch_in_tx b (ss_next_sequence s + 1) (ss_batch_count s + 1)
           (ss_observation_count s + length (nb_observations b)) (ss_observation_count s)))
           (\<lambda>_. return_tx (new_outcome b s)) db)"
    using c pb(2) by (simp add: accept_new_batch_def bind_reads throw_tx_def bind_i64_apply
      MAX_SCAN_SESSION_OBSERVATIONS_def new_outcome_def split: sum.split)
  show ?thesis
  proof (cases "ss_observation_count s + length (nb_observations b) > 100000 \<or> ensure_new_locators db b \<noteq> Inr ()")
    case True
    moreover have "ensure_new_locators db b = Inr () \<or> ensure_new_locators db b = Inl Conflict"
      by (simp add: ensure_new_locators_eq)
    ultimately show ?thesis unfolding run by auto
  next
    case ok: False
    then show ?thesis unfolding run using persist_eq [OF inv s _ _ b] False
      by (simp add: bind_tx_def return_tx_def)
  qed
qed

lemma parent_frontier_ok:
  assumes ok: "ledger_ok db s" and checks: "scan_session_checks s" and "ss_id s < 2 ^ 63" and k: "k < ss_next_sequence s"
  shows "validate_batch_replay_parent_frontier db s (stored_outcome (session_ledger db (ss_id s) ! k)) = Inr ()"
proof -
  note c = checks_counters [OF checks]
  obtain m where m: "ss_next_sequence s = Suc m" using k by (cases "ss_next_sequence s") auto
  have "frontier_matches db s m = Inr ()" using frontier_ok [OF ok c(1) assms(3) m] m c by simp
  moreover have "bo_sequence (stored_outcome (session_ledger db (ss_id s) ! k)) = k"
    using ledger_entry(2) [OF ok k] by (simp add: stored_outcome_def)
  moreover have "bo_cumulative_observation_count (stored_outcome (session_ledger db (ss_id s) ! m)) = ss_observation_count s"
    using ledger_last [OF ok m] by (simp add: stored_outcome_def)
  ultimately show ?thesis using m k c by (auto simp: validate_batch_replay_parent_frontier_def u64_add_def u64_max_def)
qed

lemma with_session_run:
  assumes "scan_inv db" "s \<in> set (scan_sessions db)" "ss_id s < 2 ^ 63"
  shows "mutation_session_in_tx (ss_id s) db = (Inr (Some s), db)"
proof -
  have "scan_session_by_id db (ss_id s) = Some s" using assms(2) by (simp add: session_by_id_Some [OF assms(1)])
  moreover have "row_to_mutation_session db s = Inr s"
    using sessions_rows [OF assms(1,2)] checks_decode by (simp add: row_to_mutation_eq)
  ultimately show ?thesis using assms(3) by (simp add: mutation_session_Inr)
qed

lemma accept_eq:
  assumes inv: "scan_inv db" and s: "s \<in> set (scan_sessions db)" "ss_id s = nb_scan_session_id b"
    and b: "prepared_batch_new json_len b = Inr ()"
  defines "q \<equiv> session_ledger db (ss_id s) ! nb_sequence b"
  shows "accepted_batch_in_tx json_len b db =
    (if nb_sequence b < ss_next_sequence s
     then (if sb_request_hash q = nb_request_hash b then (Inr (stored_outcome q), db) else (Inl Conflict, db))
     else accept_new_batch b s db)"
proof -
  note row = sessions_rows [OF inv s(1)] and pb = prepared_Inr [OF b]
  have run: "mutation_session_in_tx (nb_scan_session_id b) db = (Inr (Some s), db)"
    using with_session_run [OF inv s(1)] s(2) pb(4) by simp
  have "accepted_batch_in_tx json_len b db = (case batch_replay db b of Inl e \<Rightarrow> (Inl e, db)
      | Inr None \<Rightarrow> accept_new_batch b s db
      | Inr (Some out) \<Rightarrow> (case validate_batch_replay_parent_frontier db s out of Inl e \<Rightarrow> (Inl e, db)
          | Inr _ \<Rightarrow> (Inr out, db)))"
    unfolding accepted_batch_in_tx_def using b
    by (simp add: bind_tx_run [of "mutation_session_in_tx (nb_scan_session_id b)", OF run] bind_reads return_tx_def split: sum.split option.split)
  moreover have "batch_replay db b = (if \<not> nb_sequence b < ss_next_sequence s then Inr None
      else if sb_request_hash q \<noteq> nb_request_hash b then Inl Conflict else Inr (Some (stored_outcome q)))"
    unfolding q_def using row checks_counters(1) s by (intro batch_replay_eq) auto
  moreover have "validate_batch_replay_parent_frontier db s (stored_outcome q) = Inr ()" if "nb_sequence b < ss_next_sequence s"
    unfolding q_def using row s pb(4) that by (intro parent_frontier_ok) auto
  ultimately show ?thesis by simp
qed

text \<open>Accepting a batch extends the ledger of one session by that batch and nothing else.\<close>

lemma accepted_ledgers:
  assumes "ss_id s = nb_scan_session_id b"
  shows "session_ledger (accepted_db b s db) i = session_ledger db i @
      (if i = ss_id s then [new_batch_row b (ss_observation_count s + length (nb_observations b))] else [])"
    "session_rows (accepted_db b s db) i = session_rows db i @
      (if i = ss_id s then observation_rows (ss_id s) (nb_sequence b) (nb_observations b) else [])"
proof -
  show "session_ledger (accepted_db b s db) i = session_ledger db i @
      (if i = ss_id s then [new_batch_row b (ss_observation_count s + length (nb_observations b))] else [])"
    using assms by (simp add: session_ledger_def accepted_db_def Let_def new_batch_row_def)
  have "filter (\<lambda>r. so_scan_session_id r = i) (observation_rows (ss_id s) (nb_sequence b) (nb_observations b)) =
      (if i = ss_id s then observation_rows (ss_id s) (nb_sequence b) (nb_observations b) else [])"
    by (auto simp: filter_id_conv filter_empty_conv)
  then show "session_rows (accepted_db b s db) i = session_rows db i @
      (if i = ss_id s then observation_rows (ss_id s) (nb_sequence b) (nb_observations b) else [])"
    using assms by (simp add: session_rows_def accepted_db_def Let_def)
qed

lemma accepted_ledger_ok:
  assumes ok: "ledger_ok db s" and s: "ss_id s = nb_scan_session_id b" "ss_next_sequence s = nb_sequence b"
    and b: "prepared_batch_new json_len b = Inr ()" and new: "ensure_new_locators db b = Inr ()"
    and t: "ss_id t = ss_id s" "ss_next_sequence t = ss_next_sequence s + 1"
      "ss_observation_count t = ss_observation_count s + length (nb_observations b)"
  shows "ledger_ok (accepted_db b s db) t"
proof -
  note pb = prepared_Inr [OF b]
  let ?n = "new_batch_row b (ss_observation_count s + length (nb_observations b))"
  have "chained (ss_next_sequence s) (ss_observation_count s) [?n]" using pb s(2) by (simp add: new_batch_row_def)
  moreover have "ledger_positions [?n] = map observation_position (observation_rows (ss_id s) (nb_sequence b) (nb_observations b))"
    by (simp add: ledger_positions_def new_batch_row_def)
  moreover have "set (map ob_provider_relative_locator (nb_observations b)) \<inter> set (session_locators db (ss_id s)) = {}"
    using new s(1) by (simp add: ensure_new_locators_eq split: if_splits)
  moreover have "session_locators (accepted_db b s db) (ss_id s) =
      session_locators db (ss_id s) @ map ob_provider_relative_locator (nb_observations b)"
  proof -
    have "map (\<lambda>r. ob_provider_relative_locator (so_observation r)) (observation_rows (ss_id s) (nb_sequence b) (nb_observations b)) =
        map ob_provider_relative_locator (map so_observation (observation_rows (ss_id s) (nb_sequence b) (nb_observations b)))"
      by (simp del: observation_rows_simps(3))
    then show ?thesis by (simp add: session_locators_def accepted_ledgers [OF s(1)])
  qed
  ultimately show ?thesis using ok t pb(6) unfolding ledger_ok_def
    by (auto simp: accepted_ledgers [OF s(1)] chained_append ledger_positions_append new_batch_row_def)
qed

lemma accepted_other:
  "owner_incarnation_valid (accepted_db b s db) t = owner_incarnation_valid db t"
  "attributed_location_count (accepted_db b s db) t = attributed_location_count db t"
  "node_incarnations (accepted_db b s db) = node_incarnations db"
  "file_locations (accepted_db b s db) = file_locations db"
  by (simp_all add: accepted_db_def Let_def owner_incarnation_valid_def attributed_location_count_def
    incarnation_by_id_def split: option.split)

lemma accepted_session_ok:
  assumes inv: "scan_inv db" and s: "s \<in> set (scan_sessions db)" "ss_id s = nb_scan_session_id b"
      "ss_next_sequence s = nb_sequence b"
    and b: "prepared_batch_new json_len b = Inr ()"
    and total: "ss_observation_count s + length (nb_observations b) \<le> 100000"
    and new: "ensure_new_locators db b = Inr ()" and t: "t \<in> set (scan_sessions (accepted_db b s db))"
  shows "scan_session_checks t \<and> owner_incarnation_valid (accepted_db b s db) t \<and> ledger_ok (accepted_db b s db) t \<and>
    validate_scan_session_integrity t (attributed_location_count (accepted_db b s db) t)"
proof -
  let ?db = "accepted_db b s db"
  let ?f = "progressed_row (ss_next_sequence s + 1) (ss_batch_count s + 1)
    (ss_observation_count s + length (nb_observations b)) (nb_next_progress_deadline_at b)"
  let ?p = "\<lambda>r. ss_id r = ss_id s"
  have ss: "scan_sessions ?db = update_where ?p ?f (scan_sessions db)" by (simp add: accepted_db_def Let_def)
  note wf = scan_inv_wf [OF inv] and pb = prepared_Inr [OF b]
  from t obtain r where r: "r \<in> set (scan_sessions db)" "t = (if ?p r then ?f r else r)"
    unfolding ss in_update_where by blast
  note old = sessions_rows [OF inv r(1)]
  have integrity: "validate_scan_session_integrity r (attributed_location_count db r)"
    using inv r(1) unfolding scan_inv_def retirements_ok_def by blast
  show ?thesis
  proof (cases "?p r")
    case True
    then have "r = s" using r(1) s(1) wf_table_same [OF wf] by blast
    moreover have "t = ?f r" using r(2) True by simp
    moreover have "ledger_ok ?db t"
      using old \<open>r = s\<close> \<open>t = ?f r\<close> by (intro accepted_ledger_ok [OF _ s(2,3) b new]) (simp_all add: progressed_row_def)
    moreover have "owner_incarnation_valid db (?f s) = owner_incarnation_valid db s"
      by (simp add: owner_incarnation_valid_def progressed_row_def split: option.split)
    moreover have "attributed_location_count db (?f s) = attributed_location_count db s"
      by (rule attributed_cong) (simp add: progressed_row_def)
    ultimately show ?thesis using old progressed_checks [OF _ pb(1,2) total] integrity
      by (simp add: accepted_other validate_scan_session_integrity_def progressed_row_def)
  next
    case False
    then have "ledger_ok ?db r = ledger_ok db r" by (intro ledger_ok_cong) (simp_all add: accepted_ledgers [OF s(2)])
    then show ?thesis using r False old integrity by (simp add: accepted_other)
  qed
qed

lemma accepted_step:
  assumes s: "s \<in> set (scan_sessions db)" "ss_id s = nb_scan_session_id b" "ss_next_sequence s = nb_sequence b"
      "ss_status s = ScanRunning"
    and b: "prepared_batch_new json_len b = Inr ()"
    and total: "ss_observation_count s + length (nb_observations b) \<le> 100000"
    and new: "ensure_new_locators db b = Inr ()"
  shows "scan_step db (accepted_db b s db)"
  unfolding scan_step_def
proof (intro impI conjI ballI allI)
  assume inv: "scan_inv db"
  let ?db = "accepted_db b s db"
  let ?f = "progressed_row (ss_next_sequence s + 1) (ss_batch_count s + 1)
    (ss_observation_count s + length (nb_observations b)) (nb_next_progress_deadline_at b)"
  let ?p = "\<lambda>r. ss_id r = ss_id s"
  have ss: "scan_sessions ?db = update_where ?p ?f (scan_sessions db)" by (simp add: accepted_db_def Let_def)
  have ids: "ss_id ` set (scan_sessions ?db) = ss_id ` set (scan_sessions db)"
    unfolding ss by (rule update_ids) (simp add: progressed_row_def)
  note wf = scan_inv_wf [OF inv]
  note rows = accepted_session_ok [OF inv s(1,2,3) b total new]
  have here: "nb_scan_session_id b \<in> ss_id ` set (scan_sessions db)" using s(1,2) by (metis image_eqI)
  have only: "r = s" if "r \<in> set (scan_sessions db)" "?p r" for r
    by (rule wf_table_same [OF wf that(1) s(1) that(2)])
  have "one_active (scan_sessions ?db)" unfolding ss
  proof (rule one_active_update)
    show "one_active (scan_sessions db)" using inv by (simp add: scan_inv_def)
    show "scan_active_status (ss_status r)" if "r \<in> set (scan_sessions db)" "?p r" for r
      using only [OF that] s(4) by (simp add: scan_active_status_def)
  qed (simp add: progressed_row_def)
  moreover have "wf_table ss_id (scan_sessions ?db)"
    unfolding ss by (rule wf_table_update [OF wf]) (simp add: progressed_row_def)
  moreover have "sb_scan_session_id ` set (scan_observation_batches ?db) \<subseteq> ss_id ` set (scan_sessions db)"
    using inv here by (auto simp: accepted_db_def Let_def scan_inv_def new_batch_row_def)
  moreover have "so_scan_session_id ` set (scan_observations ?db) \<subseteq> ss_id ` set (scan_sessions db)"
    using inv here by (auto simp: accepted_db_def Let_def scan_inv_def)
  ultimately show "scan_inv ?db"
    using inv rows unfolding scan_inv_def retirements_ok_def ids by (simp add: accepted_other)
  show "\<exists>t \<in> set (scan_sessions ?db). scan_later r t" if "r \<in> set (scan_sessions db)" for r
  proof
    show "(if ?p r then ?f r else r) \<in> set (scan_sessions ?db)" unfolding ss using that by (auto simp: in_update_where)
    show "scan_later r (if ?p r then ?f r else r)"
    proof (cases "?p r")
      case True
      then show ?thesis using only [OF that True] s(4) by (simp add: scan_later_def progressed_row_def scan_active_status_def)
    qed (simp add: scan_later_refl)
  qed
qed (simp_all add: accepted_ledgers [OF s(2)])

lemma accept_step:
  assumes "accepted_batch_in_tx json_len b db = (Inr out, db')"
  shows "scan_step db db'"
proof (cases "scan_inv db")
  case inv: True
  from assms obtain s where b: "prepared_batch_new json_len b = Inr ()" and s: "scan_session_by_id db (nb_scan_session_id b) = Some s"
    unfolding accepted_batch_in_tx_def bind_reads
    by (cases "prepared_batch_new json_len b") (auto simp: with_session_Inr)
  then have s: "s \<in> set (scan_sessions db)" "ss_id s = nb_scan_session_id b" using session_by_id_Some [OF inv] by auto
  show ?thesis
  proof (cases "nb_sequence b < ss_next_sequence s")
    case True
    then show ?thesis using assms accept_eq [OF inv s b] scan_step_refl by (simp split: if_splits)
  next
    case False
    then have "accept_new_batch b s db = (Inr out, db')" using assms accept_eq [OF inv s b] by simp
    then show ?thesis using accept_new_eq [OF inv s b False] accepted_step [OF s(1,2) _ _ b]
      by (auto split: if_splits)
  qed
qed (simp add: scan_step_def)

end
