(* ===== verification/Scan_Completion.thy ===== *)
theory Scan_Completion
  imports Scan_Ledger
begin

text \<open>
  Completing a scan: the stored ledger of a session always passes its checks, completion retires
  exactly the unobserved locations, and the properties of the scan session repository.
\<close>

section \<open>The checks of the ledger\<close>

lemma fold_chained:
  assumes "chained k c bs" "k + length bs < 2 ^ 63" "c + ledger_total bs \<le> 100000"
  shows "fold_res validate_completion_batch (k, c) bs = Inr (k + length bs, c + ledger_total bs)"
  using assms
proof (induction bs arbitrary: k c)
  case (Cons b bs)
  have "validate_completion_batch (k, c) b = Inr (Suc k, c + sb_observation_count b)"
    using Cons.prems by (simp add: validate_completion_batch_def u64_max_def)
  moreover have "fold_res validate_completion_batch (Suc k, c + sb_observation_count b) bs =
      Inr (Suc k + length bs, c + sb_observation_count b + ledger_total bs)"
    using Cons.prems by (intro Cons.IH) simp_all
  ultimately show ?case by simp
qed simp

lemma completion_batches_ok:
  assumes "ledger_ok db s" "scan_session_checks s" "ss_id s < 2 ^ 63"
  shows "validate_completion_batches db s = Inr (ss_batch_count s, ss_observation_count s)"
proof -
  let ?L = "session_ledger db (ss_id s)"
  note c = checks_counters [OF assms(2)]
  have L: "chained 0 0 ?L" "length ?L = ss_next_sequence s" "ledger_total ?L = ss_observation_count s"
    using assms(1) by (simp_all add: ledger_ok_def)
  have seq: "map sb_sequence ?L = [0..<length ?L]" using chained_sequences [OF L(1)] by simp
  have "sort_key sb_sequence ?L = ?L" using seq by (intro sort_key_id_if_sorted) simp
  then have "paged_fold sb_sequence validate_completion_batch COMPLETION_LEDGER_PAGE_SIZE ?L None (0, 0) =
      fold_res validate_completion_batch (0, 0) ?L"
    using seq by (subst paged_fold_eq) (simp_all add: COMPLETION_LEDGER_PAGE_SIZE_def beyond_def)
  then show ?thesis using assms(3) fold_chained [OF L(1)] L c by (simp add: validate_completion_batches_def)
qed

lemma ledger_positions_Cons:
  "ledger_positions (b # bs) = map (Pair (sb_sequence b)) [0..<sb_observation_count b] @ ledger_positions bs"
  by (simp add: ledger_positions_def)

lemma in_ledger_positions:
  "p \<in> set (ledger_positions bs) \<longleftrightarrow> (\<exists>b \<in> set bs. fst p = sb_sequence b \<and> snd p < sb_observation_count b)"
proof -
  have "p \<in> Pair a ` {0..<n} \<longleftrightarrow> fst p = a \<and> snd p < n" for a n :: nat by (cases p) auto
  then show ?thesis by (simp add: ledger_positions_def)
qed

lemma chained_later: "chained k c bs \<Longrightarrow> b \<in> set bs \<Longrightarrow> k \<le> sb_sequence b"
  using chained_sequences [of k c bs] by (metis atLeastLessThan_iff image_eqI list.set_map set_upt)

lemma positions_sorted: "chained k c bs \<Longrightarrow> sorted_wrt (<) (ledger_positions bs)"
proof (induction bs arbitrary: k c)
  case (Cons b bs)
  from Cons.prems have "chained (Suc k) (c + sb_observation_count b) bs" "sb_sequence b = k" by simp_all
  moreover from this have "\<forall>p \<in> set (ledger_positions bs). k < fst p"
    using chained_later by (fastforce simp: in_ledger_positions)
  moreover from this have "\<forall>p \<in> set (map (Pair k) [0..<sb_observation_count b]). \<forall>q \<in> set (ledger_positions bs). p < q"
    by (auto simp: less_prod_def)
  moreover have "sorted_wrt (<) (map (Pair k) [0..<n])" for n
    by (auto simp: sorted_wrt_map less_prod_def intro: sorted_wrt_mono_rel [OF _ sorted_wrt_upt])
  ultimately show ?case using Cons.IH
    unfolding ledger_positions_Cons sorted_wrt_append by simp
qed (simp add: ledger_positions_def)

lemma positions_of_batch:
  "chained k c bs \<Longrightarrow> b \<in> set bs \<Longrightarrow>
     map snd (filter (\<lambda>p. fst p = sb_sequence b) (ledger_positions bs)) = [0..<sb_observation_count b]"
proof (induction bs arbitrary: k c)
  case (Cons a bs)
  from Cons.prems(1) have a: "chained (Suc k) (c + sb_observation_count a) bs" "sb_sequence a = k" by simp_all
  have own: "filter (\<lambda>p. fst p = j) (map (Pair (sb_sequence a)) [0..<n]) =
      (if j = sb_sequence a then map (Pair (sb_sequence a)) [0..<n] else [])" for j n
    by (auto simp: filter_id_conv filter_empty_conv)
  show ?case
  proof (cases "b \<in> set bs")
    case True
    then have "sb_sequence b \<noteq> sb_sequence a" using chained_later [OF a(1) True] a(2) by simp
    then show ?thesis using Cons.IH [OF a(1) True] by (simp add: ledger_positions_Cons own)
  next
    case False
    then have "b = a" using Cons.prems(2) by simp
    moreover have "filter (\<lambda>p. fst p = sb_sequence a) (ledger_positions bs) = []"
      using chained_later [OF a(1)] a(2) by (fastforce simp: filter_empty_conv in_ledger_positions)
    ultimately show ?thesis by (simp add: ledger_positions_Cons own comp_def)
  qed
qed simp

lemma completion_distribution_ok:
  assumes "ledger_ok db s"
  shows "validate_completion_observation_distribution db s = Inr ()"
proof -
  let ?L = "session_ledger db (ss_id s)" and ?R = "session_rows db (ss_id s)"
  have L: "chained 0 0 ?L" "map observation_position ?R = ledger_positions ?L" using assms by (simp_all add: ledger_ok_def)
  have "\<not> misdistributed db b" if b: "b \<in> set ?L" for b
  proof -
    have id: "sb_scan_session_id b = ss_id s" using b by (simp add: session_ledger_def)
    obtain k where k: "k < length ?L" "?L ! k = b" using b unfolding in_set_conv_nth by blast
    have n: "1 \<le> sb_observation_count b" using chained_nth [OF L(1) k(1)] k(2) by simp
    have "map so_ordinal (filter (\<lambda>r. so_batch_sequence r = sb_sequence b) ?R) =
        map snd (filter (\<lambda>p. fst p = sb_sequence b) (map observation_position ?R))"
      by (simp add: filter_map comp_def observation_position_def)
    also have "\<dots> = [0..<sb_observation_count b]" unfolding L(2) by (rule positions_of_batch [OF L(1) b])
    finally have "map so_ordinal (filter (\<lambda>r. so_batch_sequence r = sb_sequence b) ?R) = [0..<sb_observation_count b]" .
    moreover have "Max {0..<sb_observation_count b} = sb_observation_count b - 1" "Min {0..<sb_observation_count b} = 0"
      using n by (auto intro: Max_eqI Min_eqI)
    ultimately show ?thesis using n id by (simp add: misdistributed_def Let_def of_nat_diff)
  qed
  moreover have "batch_by_key db (ss_id s) (so_batch_sequence r) \<noteq> None" if "r \<in> set ?R" for r
    using row_position(1) [OF assms that] ledger_lookup [OF assms] by simp
  ultimately show ?thesis by (auto simp: validate_completion_observation_distribution_def list_ex_iff)
qed

definition rows_decode :: "(scan_observation_evidence \<Rightarrow> nat) \<Rightarrow> db \<Rightarrow> bool" where
  "rows_decode json_len db \<longleftrightarrow> (\<forall>r \<in> set (scan_observations db). decode_observation_row json_len r = Inr (so_observation r))"

lemma fold_decode:
  assumes "\<forall>r \<in> set rows. decode_observation_row json_len r = Inr (so_observation r) \<and>
    so_batch_sequence r < 2 ^ 63 \<and> so_ordinal r < 2 ^ 63"
  shows "fold_res (observation_page_step json_len) seen rows = Inr (seen @ map so_observation rows)"
  using assms by (induction rows arbitrary: seen) (simp_all add: observation_page_step_def)

lemma session_observations_eq:
  assumes "ledger_ok db s" "scan_session_checks s" "ss_id s < 2 ^ 63" "rows_decode json_len db"
  shows "session_observations json_len db (ss_id s) = Inr (map so_observation (session_rows db (ss_id s)))"
proof -
  let ?L = "session_ledger db (ss_id s)" and ?R = "session_rows db (ss_id s)"
  note c = checks_counters [OF assms(2)]
  have L: "chained 0 0 ?L" "map observation_position ?R = ledger_positions ?L" using assms(1) by (simp_all add: ledger_ok_def)
  have sorted: "sorted_wrt (<) (map observation_position ?R)" unfolding L(2) by (rule positions_sorted [OF L(1)])
  then have "sort_key observation_position ?R = ?R" "distinct (map observation_position ?R)"
    using strict_sorted_iff [of "map observation_position ?R"] by (auto intro: sort_key_id_if_sorted)
  then have "paged_fold observation_position (observation_page_step json_len) COMPLETION_LEDGER_PAGE_SIZE ?R None [] =
      fold_res (observation_page_step json_len) [] ?R"
    by (subst paged_fold_eq) (simp_all add: COMPLETION_LEDGER_PAGE_SIZE_def beyond_def)
  moreover have "\<forall>r \<in> set ?R. decode_observation_row json_len r = Inr (so_observation r) \<and>
      so_batch_sequence r < 2 ^ 63 \<and> so_ordinal r < 2 ^ 63"
  proof
    fix r
    assume r: "r \<in> set ?R"
    then show "decode_observation_row json_len r = Inr (so_observation r) \<and> so_batch_sequence r < 2 ^ 63 \<and> so_ordinal r < 2 ^ 63"
      using row_position [OF assms(1) r] c assms(4) by (auto simp: rows_decode_def session_rows_def)
  qed
  ultimately show ?thesis using assms(3) fold_decode by (simp add: session_observations_def)
qed

lemma length_positions: "length (ledger_positions bs) = ledger_total bs"
  by (induction bs) (simp_all add: ledger_positions_Cons, simp add: ledger_positions_def)

lemma completion_ledger_ok:
  assumes "ledger_ok db s" "scan_session_checks s" "ss_id s < 2 ^ 63" "rows_decode json_len db"
  shows "validate_completion_ledger json_len db s = Inr ()"
proof -
  have "length (session_rows db (ss_id s)) = length (map observation_position (session_rows db (ss_id s)))" by simp
  also have "\<dots> = ss_observation_count s" using assms(1) by (simp only: ledger_ok_def length_positions)
  finally have "validate_completion_observations json_len db s = Inr (ss_observation_count s)"
    by (simp add: validate_completion_observations_def session_observations_eq [OF assms])
  then show ?thesis
    using completion_batches_ok [OF assms(1-3)] completion_distribution_ok [OF assms(1)] checks_counters(2) [OF assms(2)]
    by (simp add: validate_completion_ledger_def)
qed

section \<open>What completion writes\<close>

definition completed_db :: "complete_scan_session_input \<Rightarrow> scan_session \<Rightarrow> nat \<Rightarrow> db \<Rightarrow> db" where
  "completed_db c s retired db =
     db\<lparr>file_locations := update_where (completion_scope db s) (retired_location (ss_id s) (cs_completed_at c)) (file_locations db),
        scan_sessions := update_where (\<lambda>r. ss_id r = ss_id s) (succeeded_session retired (cs_completed_at c)) (scan_sessions db),
        library_roots := update_where (\<lambda>r. lr_id r = cs_expected_storage_root_id c \<and>
          lr_root_epoch r = cs_expected_root_epoch c \<and> lr_owner_node_id r = Some (cs_expected_owner_node_id c))
          (\<lambda>r. r\<lparr>lr_last_scan_session_id := Some (ss_id s)\<rparr>) (library_roots db)\<rparr>"

lemma candidates_Inr: "all_ok (map completion_candidate ls) = Inr ids \<Longrightarrow> ids = map fl_id ls"
proof (induction ls arbitrary: ids)
  case (Cons l ls)
  have "completion_candidate l = Inr (fl_id l) \<or> completion_candidate l = Inl Database"
    by (simp add: completion_candidate_def provider_relative_locator_parse_database_def split: option.split)
  then show ?case using Cons by (cases "all_ok (map completion_candidate ls)") auto
qed simp

lemma candidates_in_tx_Inr:
  "completion_candidates_in_tx s db = (Inr ids, db') \<Longrightarrow>
     db' = db \<and> ids = map fl_id (sort_key fl_id (filter (completion_scope db s) (file_locations db)))"
  by (auto simp: completion_candidates_in_tx_def bind_i64_Inr dest!: bind_i64_option_Inr candidates_Inr)

lemma completion_session_Inr:
  assumes "scan_inv db" "completion_session_in_tx c db = (Inr s, db')"
  shows "db' = db" "s \<in> set (scan_sessions db)" "ss_id s = cs_scan_session_id c"
  using assms(2) session_by_id_Some [OF assms(1)]
  unfolding completion_session_in_tx_def with_session_Inr by auto

lemma mark_succeeded_Inr:
  assumes wf: "wf_table ss_id (scan_sessions db)" and s: "s \<in> set (scan_sessions db)"
    and run: "mark_completion_succeeded_in_tx s c n db = (Inr t, db')"
  shows "ss_status s = ScanRunning" "t = succeeded_session n (cs_completed_at c) s" "scan_session_checks t"
    "db' = db\<lparr>scan_sessions := update_where (\<lambda>r. ss_id r = ss_id s) (succeeded_session n (cs_completed_at c)) (scan_sessions db)\<rparr>"
proof -
  let ?f = "succeeded_session n (cs_completed_at c)"
  let ?P = "\<lambda>next (r :: scan_session). ss_id r = ss_id s \<and> ss_status r = ScanRunning \<and>
    ss_storage_root_id r = cs_expected_storage_root_id c \<and> ss_root_epoch r = cs_expected_root_epoch c \<and>
    ss_owner_node_id r = cs_expected_owner_node_id c \<and>
    ss_owner_incarnation_id r = Some (cs_expected_owner_incarnation_id c) \<and>
    ss_next_sequence r = next \<and> ss_observation_count r = cs_observation_count c \<and>
    ss_location_high_watermark_id r = ss_location_high_watermark_id s"
  from run obtain "next" rows rest where upd0: "update_scan_sessions (?P next) ?f db = (Inr (rows # rest), db')"
    and t: "row_to_scan_session rows = Inr t"
    unfolding mark_completion_succeeded_in_tx_def
    by (auto simp: bind_i64_Inr bind_tx_Inr first_row_Inr dest!: bind_i64_option_Inr)
  define P where "P = ?P next"
  have P: "\<And>r. P r \<Longrightarrow> ss_id r = ss_id s \<and> ss_status r = ScanRunning" by (simp add: P_def)
  note upd = upd0 [folded P_def]
  from upd have f: "map ?f (filter P (scan_sessions db)) = rows # rest"
    and db': "db' = db\<lparr>scan_sessions := update_where P ?f (scan_sessions db)\<rparr>"
    and checks: "\<forall>r \<in> set (scan_sessions db). P r \<longrightarrow> scan_session_checks (?f r)" unfolding update_scan_Inr by simp_all
  from f obtain r tail where "filter P (scan_sessions db) = r # tail" "rows = ?f r" by auto
  then have r: "r \<in> set (scan_sessions db)" "P r" "rows = ?f r"
    using filter_set [of P "scan_sessions db"] by auto
  then have "r = s" using P wf_table_same [OF wf _ s] by blast
  then have "P s" using r by simp
  then show "ss_status s = ScanRunning" using P by blast
  show "t = ?f s" using t r \<open>r = s\<close> by (simp add: row_to_scan_session_Inr)
  then show "scan_session_checks t" using checks \<open>P s\<close> s by blast
  have "P r \<longleftrightarrow> ss_id r = ss_id s" if "r \<in> set (scan_sessions db)" for r
    using P \<open>P s\<close> wf_table_same [OF wf that s] by blast
  then have "update_where P ?f (scan_sessions db) = update_where (\<lambda>r. ss_id r = ss_id s) ?f (scan_sessions db)"
    by (rule update_where_cong)
  then show "db' = db\<lparr>scan_sessions := update_where (\<lambda>r. ss_id r = ss_id s) ?f (scan_sessions db)\<rparr>"
    unfolding db' by simp
qed

lemma complete_Inr:
  assumes inv: "scan_inv db" and run: "complete_in_tx json_len c db = (Inr (t, ids), db')"
  obtains s where "s \<in> set (scan_sessions db)" "ss_id s = cs_scan_session_id c" "ss_status s = ScanRunning"
    "ids = map fl_id (sort_key fl_id (filter (completion_scope db s) (file_locations db)))"
    "consult_scan_reconciliation_commit_lock db s = None" "consult_scan_reconciliation_artifact_intent_lock db s = None"
    "t = succeeded_session (length ids) (cs_completed_at c) s" "scan_session_checks t"
    "db' = completed_db c s (length ids) db"
proof -
  from run obtain s db0 db1 db2 where sess: "completion_session_in_tx c db = (Inr s, db0)"
    and ids: "ids = map fl_id (sort_key fl_id (filter (completion_scope db0 s) (file_locations db0)))"
    and locks: "consult_scan_reconciliation_commit_lock db0 s = None" "consult_scan_reconciliation_artifact_intent_lock db0 s = None"
    and ret: "retire_completion_candidates_in_tx s c (length ids) db0 = (Inr (), db1)"
    and mark: "mark_completion_succeeded_in_tx s c (length ids) db1 = (Inr t, db2)"
    and root: "update_completion_root_pointer_in_tx t c db2 = (Inr (), db')"
    unfolding complete_in_tx_def
    by (auto simp: bind_tx_Inr simp del: not_None_eq not_Some_eq dest!: candidates_in_tx_Inr split: if_splits)
  note s = completion_session_Inr [OF inv sess]
  have db1: "db1 = db\<lparr>file_locations := update_where (completion_scope db s) (retired_location (ss_id s) (cs_completed_at c))
      (file_locations db)\<rparr>" using ret s(1) by (auto simp: retire_completion_candidates_in_tx_def split: if_splits)
  have "wf_table ss_id (scan_sessions db1)" "s \<in> set (scan_sessions db1)" using db1 s scan_inv_wf [OF inv] by simp_all
  note m = mark_succeeded_Inr [OF this mark]
  have "ss_id t = ss_id s" using m(2) by (simp add: succeeded_session_def)
  then have "db' = completed_db c s (length ids) db"
    using root m(4) db1 by (auto simp: update_completion_root_pointer_in_tx_def completed_db_def bind_i64_Inr Let_def split: if_splits)
  then show thesis using that s ids locks m by simp
qed

lemma attributed_update:
  assumes "\<forall>l \<in> set ls. p l \<longrightarrow> fl_retired_by_scan_session_id l = None"
  shows "rows_matching (\<lambda>l. fl_retired_by_scan_session_id l = Some i) (update_where p (retired_location j now) ls) =
    rows_matching (\<lambda>l. fl_retired_by_scan_session_id l = Some i) ls + (if i = j then rows_matching p ls else 0)"
  using assms by (induction ls) (auto simp: rows_matching_def retired_location_def)

lemma scope_unattributed:
  assumes "scan_inv db" "l \<in> set (file_locations db)" "completion_scope db s l"
  shows "fl_retired_by_scan_session_id l = None"
proof (rule ccontr)
  assume "fl_retired_by_scan_session_id l \<noteq> None"
  then have "fl_retired_at l \<noteq> None" using assms(1,2) unfolding scan_inv_def retirements_ok_def by blast
  then show False using assms(3) by (simp add: completion_scope_def)
qed

lemma completed_other:
  "session_ledger (completed_db c s n db) i = session_ledger db i"
  "session_rows (completed_db c s n db) i = session_rows db i"
  "owner_incarnation_valid (completed_db c s n db) t = owner_incarnation_valid db t"
  "node_incarnations (completed_db c s n db) = node_incarnations db"
  "scan_observations (completed_db c s n db) = scan_observations db"
  "scan_observation_batches (completed_db c s n db) = scan_observation_batches db"
  by (simp_all add: completed_db_def session_ledger_def session_rows_def owner_incarnation_valid_def
    incarnation_by_id_def split: option.split)

lemma completed_attributed:
  assumes "scan_inv db"
  shows "attributed_location_count (completed_db c s n db) t = attributed_location_count db t +
    (if ss_id t = ss_id s then rows_matching (completion_scope db s) (file_locations db) else 0)"
  using attributed_update [of "file_locations db" "completion_scope db s" "ss_id t" "ss_id s" "cs_completed_at c"]
    scope_unattributed [OF assms]
  by (simp add: attributed_location_count_def completed_db_def)

lemma completed_session_ok:
  assumes inv: "scan_inv db" and s: "s \<in> set (scan_sessions db)" "ss_status s = ScanRunning"
    and n: "n = rows_matching (completion_scope db s) (file_locations db)"
    and checks: "scan_session_checks (succeeded_session n (cs_completed_at c) s)"
    and t: "t \<in> set (scan_sessions (completed_db c s n db))"
  shows "scan_session_checks t \<and> owner_incarnation_valid db t \<and> ledger_ok db t \<and>
    validate_scan_session_integrity t (attributed_location_count (completed_db c s n db) t)"
proof -
  let ?f = "succeeded_session n (cs_completed_at c)"
  from t obtain r where r: "r \<in> set (scan_sessions db)" "t = (if ss_id r = ss_id s then ?f r else r)"
    unfolding completed_db_def by (auto simp: in_update_where)
  note old = sessions_rows [OF inv r(1)]
  show ?thesis
  proof (cases "ss_id r = ss_id s")
    case True
    then have "r = s" using r(1) s(1) wf_table_same [OF scan_inv_wf [OF inv]] by blast
    then have t: "t = ?f s" using r(2) by simp
    have "owner_incarnation_valid db t = owner_incarnation_valid db s"
      unfolding t by (simp add: owner_incarnation_valid_def succeeded_session_def split: option.split)
    moreover have "ledger_ok db t = ledger_ok db s"
      unfolding t by (rule ledger_ok_cong) (simp_all add: succeeded_session_def)
    moreover have "ss_id t = ss_id s" "ss_status t = ScanSucceeded" "ss_retired_location_count t = n"
      unfolding t by (simp_all add: succeeded_session_def)
    moreover have "attributed_location_count db t = 0"
      using attributed_cong [OF \<open>ss_id t = ss_id s\<close>] active_unattributed [OF inv s(1)] s(2)
      by (simp add: scan_active_status_def)
    ultimately show ?thesis using old checks \<open>r = s\<close> n t
      by (simp add: validate_scan_session_integrity_def completed_attributed [OF inv])
  next
    case False
    moreover have "validate_scan_session_integrity r (attributed_location_count db r)"
      using inv r(1) unfolding scan_inv_def retirements_ok_def by blast
    ultimately show ?thesis using r old by (simp add: completed_attributed [OF inv])
  qed
qed

lemma succeeded_later:
  assumes "ss_status s = ScanRunning"
  shows "scan_later s (succeeded_session n now s)"
proof -
  have "scan_active_status (ss_status s)" using assms by (simp add: scan_active_status_def)
  then show ?thesis unfolding scan_later_def by (simp add: succeeded_session_def)
qed

lemma completed_retired:
  assumes "scan_inv db" "s \<in> set (scan_sessions db)"
  shows "\<forall>l \<in> set (file_locations (completed_db c s n db)). \<forall>i. fl_retired_by_scan_session_id l = Some i \<longrightarrow>
    fl_retired_at l \<noteq> None \<and> i \<in> ss_id ` set (scan_sessions db)"
proof (intro ballI allI impI)
  fix l i
  assume l: "l \<in> set (file_locations (completed_db c s n db))" and i: "fl_retired_by_scan_session_id l = Some i"
  from l obtain r where r: "r \<in> set (file_locations db)"
    "l = (if completion_scope db s r then retired_location (ss_id s) (cs_completed_at c) r else r)"
    unfolding completed_db_def by (auto simp: in_update_where)
  show "fl_retired_at l \<noteq> None \<and> i \<in> ss_id ` set (scan_sessions db)"
  proof (cases "completion_scope db s r")
    case True
    then show ?thesis using r i imageI [OF assms(2), of ss_id] by (simp add: retired_location_def)
  next
    case False
    then show ?thesis using r i assms(1) unfolding scan_inv_def retirements_ok_def by auto
  qed
qed

lemma complete_step:
  assumes "complete_in_tx json_len c db = (Inr (t, ids), db')"
  shows "scan_step db db'"
proof (cases "scan_inv db")
  case inv: True
  obtain s where s: "s \<in> set (scan_sessions db)" "ss_status s = ScanRunning"
    and ids: "ids = map fl_id (sort_key fl_id (filter (completion_scope db s) (file_locations db)))"
    and t: "scan_session_checks (succeeded_session (length ids) (cs_completed_at c) s)"
    and db': "db' = completed_db c s (length ids) db"
    using complete_Inr [OF inv assms] by metis
  let ?f = "succeeded_session (length ids) (cs_completed_at c)"
  have n: "length ids = rows_matching (completion_scope db s) (file_locations db)"
    unfolding ids by (simp add: rows_matching_def)
  note rows = completed_session_ok [OF inv s n t] and wf = scan_inv_wf [OF inv]
  have ss: "scan_sessions db' = update_where (\<lambda>r. ss_id r = ss_id s) ?f (scan_sessions db)"
    unfolding db' by (simp add: completed_db_def)
  have only: "r = s" if "r \<in> set (scan_sessions db)" "ss_id r = ss_id s" for r
    by (rule wf_table_same [OF wf that(1) s(1) that(2)])
  have later: "\<exists>u \<in> set (scan_sessions db'). scan_later r u" if r: "r \<in> set (scan_sessions db)" for r
  proof
    show "(if ss_id r = ss_id s then ?f r else r) \<in> set (scan_sessions db')" unfolding ss in_update_where using r by blast
    show "scan_later r (if ss_id r = ss_id s then ?f r else r)"
    proof (cases "ss_id r = ss_id s")
      case True
      then show ?thesis using only [OF r True] succeeded_later [OF s(2)] by simp
    qed (simp add: scan_later_refl)
  qed
  have ids': "ss_id ` set (scan_sessions db') = ss_id ` set (scan_sessions db)"
    unfolding ss by (rule update_ids) (simp add: succeeded_session_def)
  have "one_active (scan_sessions db')" unfolding ss
  proof (rule one_active_update)
    show "scan_active_status (ss_status r)" if "r \<in> set (scan_sessions db)" "ss_id r = ss_id s" for r
      using only [OF that] s(2) by (simp add: scan_active_status_def)
  qed (use inv in \<open>simp_all add: scan_inv_def succeeded_session_def\<close>)
  moreover have "wf_table ss_id (scan_sessions db')"
    unfolding ss by (rule wf_table_update [OF wf]) (simp add: succeeded_session_def)
  moreover have "ledger_ok db' u = ledger_ok db u" for u
    by (rule ledger_ok_cong) (simp_all add: db' completed_other)
  moreover have "\<forall>l \<in> set (file_locations db'). \<forall>i. fl_retired_by_scan_session_id l = Some i \<longrightarrow>
      fl_retired_at l \<noteq> None \<and> i \<in> ss_id ` set (scan_sessions db)"
    unfolding db' by (rule completed_retired [OF inv s(1)])
  ultimately have "scan_inv db'"
    using inv rows unfolding scan_inv_def retirements_ok_def ids' by (simp add: db' completed_other)
  then show ?thesis unfolding scan_step_def using later by (simp add: db' completed_other)
qed (simp add: scan_step_def)

text \<open>A location is pinned when a commit in flight covers it or a fenced intent stages there.\<close>

definition pinned :: "db \<Rightarrow> file_location \<Rightarrow> bool" where
  "pinned db l \<longleftrightarrow>
     (\<exists>i \<in> set (commit_intents db). commit_in_flight (ci_state i) \<and>
        (\<exists>m \<in> set (commit_intent_scope_members db). cm_commit_intent_id m = ci_id i \<and> cm_scope_location_id m = Some (fl_id l))) \<or>
     (\<exists>i \<in> set (artifact_commit_intents db). commit_in_flight (ai_state i) \<and> fl_id l = ai_staging_location_id i)"

lemma first_hit_None: "(case sort xs of [] \<Rightarrow> None | h # _ \<Rightarrow> Some h) = None \<longleftrightarrow> xs = []"
  using set_sort [of "\<lambda>x. x" xs] by (cases "sort xs") auto

lemma locks_None:
  "consult_scan_reconciliation_commit_lock db s = None \<and> consult_scan_reconciliation_artifact_intent_lock db s = None \<longleftrightarrow>
     (\<forall>l \<in> set (file_locations db). completion_scope db s l \<longrightarrow> \<not> pinned db l)"
  unfolding consult_scan_reconciliation_commit_lock_def consult_scan_reconciliation_artifact_intent_lock_def first_hit_None
  by (auto simp: pinned_def filter_empty_conv)

section \<open>Sequences of operations\<close>

inductive scan_op :: "db \<Rightarrow> db \<Rightarrow> bool" where
  op_request: "insert_requested_in_tx n db = (Inr s, db') \<Longrightarrow> scan_op db db'"
| op_start: "scan_start_in_tx i incarnation deadline now db = (Inr s, db') \<Longrightarrow> scan_op db db'"
| op_terminalize: "terminalize_in_tx i st reason now db = (Inr s, db') \<Longrightarrow> scan_op db db'"
| op_stale: "stale_expired_in_tx now db = (Inr rows, db') \<Longrightarrow> scan_op db db'"
| op_stale_incarnation: "stale_running_for_incarnation_in_tx incarnation reason now db = (Inr rows, db') \<Longrightarrow> scan_op db db'"
| op_accept: "accepted_batch_in_tx json_len b db = (Inr out, db') \<Longrightarrow> scan_op db db'"
| op_complete: "complete_in_tx json_len c db = (Inr (s, ids), db') \<Longrightarrow> scan_op db db'"

lemma scan_op_step: "scan_op db db' \<Longrightarrow> scan_step db db'"
  by (induction rule: scan_op.induct)
    (blast intro: insert_requested_step start_step terminalize_step stale_step accept_step complete_step)+

lemma scan_ops_step: "scan_op\<^sup>*\<^sup>* db db' \<Longrightarrow> scan_step db db'"
  by (induction rule: rtranclp_induct) (blast intro: scan_step_refl scan_step_trans scan_op_step)+

section \<open>Properties\<close>


text \<open>
  C21. What delivering an observation batch does, on every branch, when the batch is well formed
  and its session exists. A batch the ledger already holds is answered with the outcome it had,
  and nothing is written, unless its request hash differs, which is a conflict. Otherwise it is
  accepted exactly when the session is running, it is the next batch, the session stays within
  100000 observations and none of its locators was observed before; then one batch, its rows and
  the new totals are written. Every other delivery is a conflict and writes nothing.
\<close>

theorem batch_delivery_outcome:
  assumes "scan_inv db" and "s \<in> set (scan_sessions db)" "ss_id s = nb_scan_session_id b"
    and "prepared_batch_new json_len b = Inr ()"
    and "list_all (\<lambda>ob. validate_relative_locator (ob_provider_relative_locator ob)) (nb_observations b)"
  shows "accepted_batch_in_tx json_len b db =
    (if nb_sequence b < ss_next_sequence s then
       (if sb_request_hash (session_ledger db (ss_id s) ! nb_sequence b) = nb_request_hash b
        then (Inr (stored_outcome (session_ledger db (ss_id s) ! nb_sequence b)), db) else (Inl Conflict, db))
     else if ss_status s = ScanRunning \<and> nb_sequence b = ss_next_sequence s \<and>
       ss_observation_count s + length (nb_observations b) \<le> 100000 \<and>
       set (map ob_provider_relative_locator (nb_observations b)) \<inter> set (session_locators db (ss_id s)) = {}
     then (Inr (new_outcome b s), accepted_db b s db)
     else (Inl Conflict, db))"
proof -
  have "\<forall>ob \<in> set (nb_observations b). locator_check (ob_provider_relative_locator ob)"
    using assms(5) by (simp add: list_all_iff validator_iff_check)
  then show ?thesis
    unfolding accept_eq [OF assms(1-4)]
    using accept_new_eq [OF assms(1-4)] assms(3) by (auto simp: ensure_new_locators_eq)
qed

text \<open>
  C23. Reading a session back page by page ends and returns the observations in the order they
  were delivered: after a batch is accepted the reader returns what it returned before followed
  by the observations of the batch.
\<close>

theorem accepted_batch_reads_back:
  assumes "scan_inv db" and "rows_decode json_len db"
    and "s \<in> set (scan_sessions db)" "ss_id s = nb_scan_session_id b" "nb_sequence b = ss_next_sequence s"
    and "list_all (\<lambda>ob. validate_relative_locator (ob_provider_relative_locator ob)) (nb_observations b)"
    and "accepted_batch_in_tx json_len b db = (Inr out, db')"
  shows "\<exists>old. session_observations json_len db (nb_scan_session_id b) = Inr old \<and>
    session_observations json_len db' (nb_scan_session_id b) = Inr (old @ nb_observations b) \<and>
    rows_decode json_len db'"
proof -
  have b: "prepared_batch_new json_len b = Inr ()"
    using assms(7) unfolding accepted_batch_in_tx_def bind_reads by (cases "prepared_batch_new json_len b") auto
  note pb = prepared_Inr [OF b] and old = sessions_rows [OF assms(1,3)]
  have "accept_new_batch b s db = (Inr out, db')" using assms(5,7) accept_eq [OF assms(1,3,4) b] by simp
  then have db': "db' = accepted_db b s db" using accept_new_eq [OF assms(1,3,4) b] assms(5) by (simp split: if_splits)
  have "scan_inv db'" using accept_step [OF assms(7)] assms(1) by (simp add: scan_step_def)
  moreover obtain t where t: "t \<in> set (scan_sessions db')" "ss_id t = ss_id s"
    using accept_step [OF assms(7)] assms(1,3) unfolding scan_step_def scan_later_def by metis
  ultimately have t_ok: "ledger_ok db' t" "scan_session_checks t" using sessions_rows by blast+
  have decode: "decode_observation_row json_len r = Inr (so_observation r)" if "r \<in> set (observation_rows i k (nb_observations b))" for r i k
    using in_observation_rows [OF that] pb(7,8) assms(6)
    by (auto simp: decode_observation_row_def Let_def list_all_iff validate_batch_observation_def
      provider_relative_locator_parse_database_def split: option.splits)
  then have rows: "rows_decode json_len db'"
    using assms(2) by (auto simp: db' rows_decode_def accepted_db_def Let_def)
  show ?thesis
    using session_observations_eq [OF _ _ _ assms(2), of s] session_observations_eq [OF t_ok _ rows] old rows pb(4) assms(4) t(2)
    by (simp add: db' accepted_ledgers [OF assms(4)])
qed



section \<open>Witnesses\<close>

definition example_scan :: scan_session where
  "example_scan = \<lparr> ss_id = 1, ss_storage_root_id = 1, ss_root_epoch = 0, ss_owner_node_id = 1,
     ss_owner_incarnation_id = Some ''i'', ss_status = ScanRunning, ss_next_sequence = 0, ss_batch_count = 0,
     ss_observation_count = 0, ss_idle_timeout_seconds = 60, ss_progress_deadline_at = 9,
     ss_location_high_watermark_id = Some 1, ss_requested_at = 1, ss_started_at = Some 2, ss_terminal_at = None,
     ss_terminal_reason = None, ss_retired_location_count = 0 \<rparr>"

definition example_scan_db :: db where
  "example_scan_db = empty_db\<lparr>scan_sessions := [example_scan],
     node_incarnations := [\<lparr> ni_incarnation_id = ''i'', ni_node_id = 1, ni_status = node_incarnation_status.Active \<rparr>],
     library_roots := [\<lparr> lr_id = 1, lr_root_epoch = 0, lr_owner_node_id = Some 1, lr_last_scan_session_id = None \<rparr>],
     file_locations := [\<lparr> fl_id = 1, fl_rooted = True, fl_storage_root_id = Some 1,
       fl_provider_relative_locator = Some ''a'', fl_retired_at = None, fl_retired_by_scan_session_id = None, fl_epoch = 0 \<rparr>]\<rparr>"

lemma example_scan_inv: "scan_inv example_scan_db"
  by (simp add: scan_inv_def example_scan_db_def empty_db_def example_scan_def wf_table_def one_active_def
    owner_incarnation_valid_def incarnation_by_id_def ledger_ok_def session_ledger_def session_rows_def session_locators_def
    ledger_positions_def retirements_ok_def validate_scan_session_integrity_def attributed_location_count_def
    rows_matching_def scan_session_checks_def)

definition example_completion :: complete_scan_session_input where
  "example_completion = \<lparr> cs_scan_session_id = 1, cs_expected_storage_root_id = 1, cs_expected_root_epoch = 0,
     cs_expected_owner_node_id = 1, cs_expected_owner_incarnation_id = ''i'', cs_last_sequence = None,
     cs_observation_count = 0, cs_completed_at = 5 \<rparr>"

definition example_batch :: new_scan_observation_batch where
  "example_batch = \<lparr> nb_scan_session_id = 1, nb_sequence = 0, nb_request_hash = replicate 64 CHR ''a'',
     nb_observations = [\<lparr> ob_provider_relative_locator = ''b'', ob_provider_object_identity = ''x'', ob_size_bytes = 3,
       ob_modified_at = 1, ob_stability_started_at = 1, ob_stability_confirmed_at = 2, ob_evidence = None \<rparr>],
     nb_accepted_at = 3, nb_next_progress_deadline_at = 63 \<rparr>"

lemma example_scan_in: "example_scan \<in> set (scan_sessions example_scan_db)"
  by (simp add: example_scan_db_def)

lemma example_rows_decode: "rows_decode json_len example_scan_db"
  by (simp add: rows_decode_def example_scan_db_def empty_db_def)

lemma example_batch_prepared: "prepared_batch_new json_len example_batch = Inr ()"
  by (simp add: prepared_batch_new_def example_batch_def is_lowercase_sha256_def lowercase_hex_def list_all_iff
    validate_batch_observation_def NUL_def)

lemma example_batch_locators:
  "list_all (\<lambda>ob. validate_relative_locator (ob_provider_relative_locator ob)) (nb_observations example_batch)"
  by (simp add: example_batch_def) code_simp


lemma example_ids: "ss_id example_scan = nb_scan_session_id example_batch" "nb_sequence example_batch = ss_next_sequence example_scan"
  by (simp_all add: example_scan_def example_batch_def)

theorem batch_delivery_outcome_witness:
  "accepted_batch_in_tx (\<lambda>_. 0) example_batch example_scan_db =
     (Inr (new_outcome example_batch example_scan), accepted_db example_batch example_scan example_scan_db)"
  using batch_delivery_outcome [OF example_scan_inv example_scan_in example_ids(1) example_batch_prepared
    example_batch_locators]
  by (simp add: example_scan_def example_batch_def session_locators_def session_rows_def example_scan_db_def empty_db_def)

theorem accepted_batch_reads_back_witness:
  "session_observations (\<lambda>_. 0) (accepted_db example_batch example_scan example_scan_db) 1 =
     Inr (nb_observations example_batch)"
proof -
  have "accepted_batch_in_tx (\<lambda>_. 0) example_batch example_scan_db =
      (Inr (new_outcome example_batch example_scan), accepted_db example_batch example_scan example_scan_db)"
    unfolding accept_eq [OF example_scan_inv example_scan_in example_ids(1) example_batch_prepared]
    using accept_new_eq [OF example_scan_inv example_scan_in example_ids(1) example_batch_prepared] example_batch_locators
    by (simp add: example_scan_def example_batch_def ensure_new_locators_eq session_locators_def session_rows_def
      example_scan_db_def empty_db_def validator_iff_check)
  note reads = accepted_batch_reads_back [OF example_scan_inv example_rows_decode example_scan_in example_ids
    example_batch_locators this]
  moreover have "session_rows example_scan_db 1 = []" by (simp add: session_rows_def example_scan_db_def empty_db_def)
  then have "session_observations (\<lambda>_. 0) example_scan_db 1 = Inr []"
    using session_observations_eq [OF _ _ _ example_rows_decode, of example_scan] sessions_rows [OF example_scan_inv example_scan_in]
    by (simp add: example_scan_def)
  ultimately show ?thesis by (simp add: example_batch_def)
qed

lemma example_completes:
  "\<exists>t db'. complete_in_tx (\<lambda>_. 0) example_completion example_scan_db = (Inr (t, [1]), db')"
proof -
  have "mutation_session_in_tx 1 example_scan_db = (Inr (Some example_scan), example_scan_db)"
    using with_session_run [OF example_scan_inv example_scan_in] by (simp add: example_scan_def)
  then have sess: "completion_session_in_tx example_completion example_scan_db = (Inr example_scan, example_scan_db)"
    by (simp add: completion_session_in_tx_def example_completion_def bind_tx_def return_tx_def)
  have ledger: "validate_completion_ledger (\<lambda>_. 0) example_scan_db example_scan = Inr ()"
    using completion_ledger_ok [OF _ _ _ example_rows_decode] sessions_rows [OF example_scan_inv example_scan_in]
    by (simp add: example_scan_def)
  have water: "validate_completion_high_watermark example_scan_db example_scan = Inr ()"
    "validate_completion_authority_binding example_scan example_completion = Inr ()"
    "validate_completion_request_watermark example_scan example_completion = Inr ()"
    by (simp_all add: validate_completion_high_watermark_def validate_completion_authority_binding_def
      validate_completion_request_watermark_def completion_next_sequence_def example_scan_def example_scan_db_def
      example_completion_def)
  have valid: "validate_relative_locator ''a''" by code_simp
  have cand: "completion_candidates_in_tx example_scan example_scan_db = (Inr [1], example_scan_db)"
    using valid by (simp add: completion_candidates_in_tx_def bind_i64_apply bind_i64_option_def example_scan_def example_scan_db_def
      completion_scope_def completion_candidate_def provider_relative_locator_parse_database_def empty_db_def)
  have locks: "consult_scan_reconciliation_commit_lock example_scan_db example_scan = None"
    "consult_scan_reconciliation_artifact_intent_lock example_scan_db example_scan = None"
    by (simp_all add: consult_scan_reconciliation_commit_lock_def consult_scan_reconciliation_artifact_intent_lock_def
      example_scan_db_def empty_db_def)
  obtain db1 where ret: "retire_completion_candidates_in_tx example_scan example_completion 1 example_scan_db = (Inr (), db1)"
    "scan_sessions db1 = [example_scan]" "library_roots db1 = library_roots example_scan_db"
    by (simp add: retire_completion_candidates_in_tx_def rows_matching_def completion_scope_def example_scan_def
      example_scan_db_def empty_db_def)
  obtain t db2 where mark: "mark_completion_succeeded_in_tx example_scan example_completion 1 db1 = (Inr t, db2)"
    "library_roots db2 = library_roots example_scan_db" "ss_id t = 1"
    using ret(2,3) by (simp add: mark_completion_succeeded_in_tx_def bind_i64_apply bind_i64_option_def completion_next_sequence_def
      bind_reads update_scan_sessions_def bind_tx_def lift_res_def example_completion_def example_scan_def succeeded_session_def
      scan_session_checks_def row_to_scan_session_def optional_terminal_reason_def validate_scan_session_def
      MAX_SCAN_SESSION_OBSERVATIONS_def has_coherent_progress_counters_def has_valid_lifecycle_shape_def
      has_success_shape_def has_start_bindings_def)
  obtain db3 where "update_completion_root_pointer_in_tx t example_completion db2 = (Inr (), db3)"
    using mark(2,3) by (simp add: update_completion_root_pointer_in_tx_def bind_i64_apply Let_def example_completion_def
      example_scan_db_def rows_matching_def)
  then show ?thesis
    using sess water ledger cand locks ret(1) mark(1)
    by (simp add: complete_in_tx_def bind_tx_def lift_res_def read_tx_def return_tx_def)
qed


end
