(* ===== verification/Ticket_Payload.thy ===== *)
theory Ticket_Payload
  imports Taxonomy "HOL-Library.Product_Lexorder"
begin

text \<open>
  The payload of a workflow ticket (\<^verbatim>\<open>workflow/plan/ticket_payload.rs\<close>), the artifact access it
  declares (\<^verbatim>\<open>taxonomy/artifact_access_declaration.rs\<close>) and the canonical access of an operation
  (\<^verbatim>\<open>workflow/plan/access_declaration.rs\<close>), with the JSON encoding the derived
  \<^verbatim>\<open>Serialize\<close> and \<^verbatim>\<open>Deserialize\<close> implementations define for these types.
  Error texts are left out: an operation that fails returns \<open>None\<close>.
\<close>

section \<open>Access declarations\<close>

datatype artifact_access_right = RightRead | RightWrite | RightDelete

definition artifact_access_right_ALL :: "artifact_access_right list" where
  "artifact_access_right_ALL = [RightRead, RightWrite, RightDelete]"

primrec artifact_access_right_as_str :: "artifact_access_right \<Rightarrow> string" where
  "artifact_access_right_as_str RightRead = ''read''"
| "artifact_access_right_as_str RightWrite = ''write''"
| "artifact_access_right_as_str RightDelete = ''delete''"

definition artifact_access_right_from_wire :: "string \<Rightarrow> artifact_access_right option" where
  "artifact_access_right_from_wire token =
     wire_find artifact_access_right_ALL artifact_access_right_as_str token"

text \<open>The derived order of the rights is their order of declaration.\<close>

primrec right_index :: "artifact_access_right \<Rightarrow> nat" where
  "right_index RightRead = 0"
| "right_index RightWrite = 1"
| "right_index RightDelete = 2"

lemma right_index_inj: "right_index a = right_index b \<Longrightarrow> a = b"
  by (cases a; cases b) simp_all

instantiation artifact_access_right :: linorder
begin

definition less_eq_artifact_access_right :: "artifact_access_right \<Rightarrow> artifact_access_right \<Rightarrow> bool" where
  "less_eq_artifact_access_right a b \<longleftrightarrow> right_index a \<le> right_index b"

definition less_artifact_access_right :: "artifact_access_right \<Rightarrow> artifact_access_right \<Rightarrow> bool" where
  "less_artifact_access_right a b \<longleftrightarrow> right_index a < right_index b"

instance
  by standard (auto simp: less_eq_artifact_access_right_def less_artifact_access_right_def intro: right_index_inj)

end

datatype artifact_access_target =
    StorageRoot nat
  | FileLocation nat nat
  | ExistingArtifact nat nat nat
  | PlannedArtifact nat nat

text \<open>The derived order compares the variants in their order of declaration, then field by field.\<close>

primrec target_key :: "artifact_access_target \<Rightarrow> nat \<times> nat \<times> nat \<times> nat" where
  "target_key (StorageRoot root) = (0, root, 0, 0)"
| "target_key (FileLocation root location) = (1, root, location, 0)"
| "target_key (ExistingArtifact handle root location) = (2, handle, root, location)"
| "target_key (PlannedArtifact handle root) = (3, handle, root, 0)"

lemma target_key_inj: "target_key a = target_key b \<Longrightarrow> a = b"
  by (cases a; cases b) simp_all

instantiation artifact_access_target :: linorder
begin

definition less_eq_artifact_access_target :: "artifact_access_target \<Rightarrow> artifact_access_target \<Rightarrow> bool" where
  "less_eq_artifact_access_target a b \<longleftrightarrow> target_key a \<le> target_key b"

definition less_artifact_access_target :: "artifact_access_target \<Rightarrow> artifact_access_target \<Rightarrow> bool" where
  "less_artifact_access_target a b \<longleftrightarrow> target_key a < target_key b"

instance
proof
  fix a b c :: artifact_access_target
  show "a < b \<longleftrightarrow> a \<le> b \<and> \<not> b \<le> a"
    by (simp add: less_eq_artifact_access_target_def less_artifact_access_target_def less_le_not_le)
  show "a \<le> a" by (simp add: less_eq_artifact_access_target_def)
  show "a \<le> b \<Longrightarrow> b \<le> c \<Longrightarrow> a \<le> c" unfolding less_eq_artifact_access_target_def by (rule order_trans)
  show "a \<le> b \<Longrightarrow> b \<le> a \<Longrightarrow> a = b"
    unfolding less_eq_artifact_access_target_def by (blast intro: target_key_inj antisym)
  show "a \<le> b \<or> b \<le> a" unfolding less_eq_artifact_access_target_def by (rule linear)
qed

end

primrec target_file_location_id :: "artifact_access_target \<Rightarrow> nat option" where
  "target_file_location_id (StorageRoot root) = None"
| "target_file_location_id (FileLocation root location) = Some location"
| "target_file_location_id (ExistingArtifact handle root location) = Some location"
| "target_file_location_id (PlannedArtifact handle root) = None"

primrec target_artifact_handle_id :: "artifact_access_target \<Rightarrow> nat option" where
  "target_artifact_handle_id (StorageRoot root) = None"
| "target_artifact_handle_id (FileLocation root location) = None"
| "target_artifact_handle_id (ExistingArtifact handle root location) = Some handle"
| "target_artifact_handle_id (PlannedArtifact handle root) = Some handle"

primrec target_storage_root_id :: "artifact_access_target \<Rightarrow> nat" where
  "target_storage_root_id (StorageRoot root) = root"
| "target_storage_root_id (FileLocation root location) = root"
| "target_storage_root_id (ExistingArtifact handle root location) = root"
| "target_storage_root_id (PlannedArtifact handle root) = root"

primrec target_has_zero_id :: "artifact_access_target \<Rightarrow> bool" where
  "target_has_zero_id (StorageRoot root) \<longleftrightarrow> root = 0"
| "target_has_zero_id (FileLocation root location) \<longleftrightarrow> root = 0 \<or> location = 0"
| "target_has_zero_id (ExistingArtifact handle root location) \<longleftrightarrow> handle = 0 \<or> root = 0 \<or> location = 0"
| "target_has_zero_id (PlannedArtifact handle root) \<longleftrightarrow> handle = 0 \<or> root = 0"

record artifact_access_entry =
  ae_target :: artifact_access_target
  ae_rights :: "artifact_access_right list"

type_synonym artifact_access_declaration = "artifact_access_entry list"

fun windows_ascend :: "('a :: linorder) list \<Rightarrow> bool" where
  "windows_ascend (x # y # xs) \<longleftrightarrow> x < y \<and> windows_ascend (y # xs)"
| "windows_ascend _ \<longleftrightarrow> True"

definition validate_rights :: "artifact_access_right list \<Rightarrow> bool" where
  "validate_rights rights \<longleftrightarrow> rights \<noteq> [] \<and> windows_ascend rights"

fun validate_entries ::
  "artifact_access_target option \<Rightarrow> nat set \<Rightarrow> nat set \<Rightarrow> artifact_access_entry list \<Rightarrow> bool" where
  "validate_entries previous locations handles [] \<longleftrightarrow> True"
| "validate_entries previous locations handles (entry # entries) \<longleftrightarrow>
     (let t = ae_target entry in
      if \<not> validate_rights (ae_rights entry) then False
      else if target_has_zero_id t then False
      else if (case previous of None \<Rightarrow> False | Some p \<Rightarrow> p \<ge> t) then False
      else if (case target_file_location_id t of None \<Rightarrow> False | Some l \<Rightarrow> l \<in> locations) then False
      else if (case target_artifact_handle_id t of None \<Rightarrow> False | Some h \<Rightarrow> h \<in> handles) then False
      else validate_entries (Some t) (locations \<union> set_option (target_file_location_id t))
        (handles \<union> set_option (target_artifact_handle_id t)) entries)"

definition validate_declaration :: "artifact_access_entry list \<Rightarrow> bool" where
  "validate_declaration entries \<longleftrightarrow> entries \<noteq> [] \<and> validate_entries None {} {} entries"

definition artifact_access_declaration_new :: "artifact_access_entry list \<Rightarrow> artifact_access_declaration res" where
  "artifact_access_declaration_new entries = (if validate_declaration entries then Inr entries else Inl Config)"

section \<open>The canonical access of an operation\<close>

datatype ticket_storage_source = SourceRoot nat | SourceLocation nat nat

primrec source_storage_root_id :: "ticket_storage_source \<Rightarrow> nat" where
  "source_storage_root_id (SourceRoot root) = root"
| "source_storage_root_id (SourceLocation root location) = root"

definition access_target :: "nat \<Rightarrow> nat option \<Rightarrow> artifact_access_target" where
  "access_target root location = (case location of None \<Rightarrow> StorageRoot root | Some l \<Rightarrow> FileLocation root l)"

definition access_entry :: "artifact_access_target \<Rightarrow> artifact_access_right list \<Rightarrow> artifact_access_entry" where
  "access_entry target rights = \<lparr> ae_target = target, ae_rights = rights \<rparr>"

definition source_location :: "operation_kind \<Rightarrow> ticket_storage_source \<Rightarrow> nat option" where
  "source_location operation source = (if operation = ScanLibrary then None
     else case source of SourceRoot _ \<Rightarrow> None | SourceLocation _ l \<Rightarrow> Some l)"

definition entries_for :: "operation_kind \<Rightarrow> ticket_storage_source \<Rightarrow> artifact_access_entry list option" where
  "entries_for operation source =
     (let root = source_storage_root_id source; location = source_location operation source in
      if operation \<in> {ScanLibrary, ProbeFile, HashFile, VerifyArtifact}
      then Some [access_entry (access_target root location) [RightRead]]
      else if operation \<in> {Remux, TranscodeVideo, TranscodeAudio, ExtractAudio, EditTracks, BackUpFile, CommitArtifact}
      then Some (case location of
          None \<Rightarrow> [access_entry (StorageRoot root) [RightRead, RightWrite]]
        | Some l \<Rightarrow> [access_entry (StorageRoot root) [RightWrite], access_entry (FileLocation root l) [RightRead]])
      else if operation = DeleteArtifact
      then Some [access_entry (access_target root location) [RightRead, RightDelete]]
      else None)"

definition declaration_for ::
  "operation_kind \<Rightarrow> ticket_storage_source option \<Rightarrow> artifact_access_declaration option res" where
  "declaration_for operation source =
     (if \<not> is_byte_touching operation then Inr None
      else case source of None \<Rightarrow> Inl Config
      | Some source \<Rightarrow>
          (case entries_for operation source of None \<Rightarrow> Inl Config
           | Some entries \<Rightarrow> map_sum id Some (artifact_access_declaration_new entries)))"

section \<open>JSON encoding\<close>

text \<open>
  A derived struct decodes from an object with no unknown field, or from an array with one
  element per field in order. A unit variant decodes from its name or from an object with its name
  and null. An internally tagged variant decodes from an object with a tag, or from an array that
  starts with it. A missing optional field, or null, is absent.
\<close>

definition struct_fields :: "string list \<Rightarrow> json \<Rightarrow> (string \<rightharpoonup> json) option" where
  "struct_fields names v = (case v of
       JObject kvs \<Rightarrow> if list_all (\<lambda>(k, _). k \<in> set names) kvs then Some (map_of kvs) else None
     | JArray xs \<Rightarrow> if length xs = length names then Some (map_of (zip names xs)) else None
     | _ \<Rightarrow> None)"

definition field :: "(json \<Rightarrow> 'a option) \<Rightarrow> (string \<rightharpoonup> json) \<Rightarrow> string \<Rightarrow> 'a option" where
  "field decode m k = Option.bind (m k) decode"

definition optional_field :: "(json \<Rightarrow> 'a option) \<Rightarrow> (string \<rightharpoonup> json) \<Rightarrow> string \<Rightarrow> 'a option option" where
  "optional_field decode m k = (case m k of None \<Rightarrow> Some None | Some JNull \<Rightarrow> Some None
     | Some v \<Rightarrow> map_option Some (decode v))"

definition unit_variant_from_json :: "(string \<Rightarrow> 'a option) \<Rightarrow> json \<Rightarrow> 'a option" where
  "unit_variant_from_json parse v = (case v of
       JString s \<Rightarrow> parse s
     | JObject [(s, JNull)] \<Rightarrow> parse s
     | _ \<Rightarrow> None)"

fun decode_all :: "(json \<Rightarrow> 'a option) \<Rightarrow> json list \<Rightarrow> 'a list option" where
  "decode_all decode [] = Some []"
| "decode_all decode (v # vs) = (case decode v of None \<Rightarrow> None | Some x \<Rightarrow> map_option ((#) x) (decode_all decode vs))"

definition list_from_json :: "(json \<Rightarrow> 'a option) \<Rightarrow> json \<Rightarrow> 'a list option" where
  "list_from_json decode v = Option.bind (as_array_json v) (decode_all decode)"

definition id_to_json :: "nat \<Rightarrow> json" where
  "id_to_json n = JInt (int n)"

primrec target_to_json :: "artifact_access_target \<Rightarrow> json" where
  "target_to_json (StorageRoot root) =
     JObject [(''kind'', JString ''storage_root''), (''storage_root_id'', id_to_json root)]"
| "target_to_json (FileLocation root location) =
     JObject [(''kind'', JString ''file_location''), (''storage_root_id'', id_to_json root),
       (''file_location_id'', id_to_json location)]"
| "target_to_json (ExistingArtifact handle root location) =
     JObject [(''kind'', JString ''existing_artifact''), (''artifact_handle_id'', id_to_json handle),
       (''storage_root_id'', id_to_json root), (''file_location_id'', id_to_json location)]"
| "target_to_json (PlannedArtifact handle root) =
     JObject [(''kind'', JString ''planned_artifact''), (''artifact_handle_id'', id_to_json handle),
       (''target_storage_root_id'', id_to_json root)]"

definition target_content_from_json :: "string \<Rightarrow> json \<Rightarrow> artifact_access_target option" where
  "target_content_from_json kind v =
     (if kind = ''storage_root'' then
        Option.bind (struct_fields [''storage_root_id''] v) (\<lambda>m.
          map_option StorageRoot (field as_u64_json m ''storage_root_id''))
      else if kind = ''file_location'' then
        Option.bind (struct_fields [''storage_root_id'', ''file_location_id''] v) (\<lambda>m.
          Option.bind (field as_u64_json m ''storage_root_id'') (\<lambda>root.
            map_option (FileLocation root) (field as_u64_json m ''file_location_id'')))
      else if kind = ''existing_artifact'' then
        Option.bind (struct_fields [''artifact_handle_id'', ''storage_root_id'', ''file_location_id''] v) (\<lambda>m.
          Option.bind (field as_u64_json m ''artifact_handle_id'') (\<lambda>handle.
            Option.bind (field as_u64_json m ''storage_root_id'') (\<lambda>root.
              map_option (ExistingArtifact handle root) (field as_u64_json m ''file_location_id''))))
      else if kind = ''planned_artifact'' then
        Option.bind (struct_fields [''artifact_handle_id'', ''target_storage_root_id''] v) (\<lambda>m.
          Option.bind (field as_u64_json m ''artifact_handle_id'') (\<lambda>handle.
            map_option (PlannedArtifact handle) (field as_u64_json m ''target_storage_root_id'')))
      else None)"

definition target_from_json :: "json \<Rightarrow> artifact_access_target option" where
  "target_from_json v = (case v of
       JObject kvs \<Rightarrow> (case map_of kvs ''kind'' of
           Some (JString kind) \<Rightarrow> target_content_from_json kind (JObject (filter (\<lambda>(k, _). k \<noteq> ''kind'') kvs))
         | _ \<Rightarrow> None)
     | JArray (JString kind # xs) \<Rightarrow> target_content_from_json kind (JArray xs)
     | _ \<Rightarrow> None)"

definition entry_to_json :: "artifact_access_entry \<Rightarrow> json" where
  "entry_to_json entry = JObject [(''target'', target_to_json (ae_target entry)),
     (''rights'', JArray (map (\<lambda>r. JString (artifact_access_right_as_str r)) (ae_rights entry)))]"

definition entry_from_json :: "json \<Rightarrow> artifact_access_entry option" where
  "entry_from_json v = Option.bind (struct_fields [''target'', ''rights''] v) (\<lambda>m.
     Option.bind (field target_from_json m ''target'') (\<lambda>t.
       Option.bind (field (list_from_json (unit_variant_from_json artifact_access_right_from_wire)) m ''rights'') (\<lambda>rs.
         Some \<lparr> ae_target = t, ae_rights = rs \<rparr>)))"

definition declaration_to_json :: "artifact_access_declaration \<Rightarrow> json" where
  "declaration_to_json d = JArray (map entry_to_json d)"

definition declaration_from_json :: "json \<Rightarrow> artifact_access_declaration option" where
  "declaration_from_json v = Option.bind (list_from_json entry_from_json v) (\<lambda>entries.
     case artifact_access_declaration_new entries of Inl _ \<Rightarrow> None | Inr d \<Rightarrow> Some d)"

section \<open>Workflow ticket payloads\<close>

record effective_timing =
  et_duration_ms :: nat
  et_progress_interval_ms :: nat

record workflow_ticket_payload =
  wp_workflow_id :: string
  wp_plan_id :: string
  wp_node_id :: string
  wp_branch_id :: string
  wp_operation :: operation_kind
  wp_rendered_payload :: json
  wp_timing :: effective_timing
  wp_source_file :: "json option"
  wp_declared_artifact_access :: "artifact_access_declaration option"

definition timing_to_json :: "effective_timing \<Rightarrow> json" where
  "timing_to_json t = JObject [(''duration_ms'', id_to_json (et_duration_ms t)),
     (''progress_interval_ms'', id_to_json (et_progress_interval_ms t))]"

definition timing_from_json :: "json \<Rightarrow> effective_timing option" where
  "timing_from_json v = Option.bind (struct_fields [''duration_ms'', ''progress_interval_ms''] v) (\<lambda>m.
     Option.bind (field as_u64_json m ''duration_ms'') (\<lambda>d.
       Option.bind (field as_u64_json m ''progress_interval_ms'') (\<lambda>p.
         Some \<lparr> et_duration_ms = d, et_progress_interval_ms = p \<rparr>)))"

definition payload_to_json :: "workflow_ticket_payload \<Rightarrow> (string \<times> json) list" where
  "payload_to_json p =
     [(''workflow_id'', JString (wp_workflow_id p)), (''plan_id'', JString (wp_plan_id p)),
      (''node_id'', JString (wp_node_id p)), (''branch_id'', JString (wp_branch_id p)),
      (''operation'', JString (operation_kind_as_str (wp_operation p))),
      (''rendered_payload'', wp_rendered_payload p), (''timing'', timing_to_json (wp_timing p))] @
     (case wp_source_file p of None \<Rightarrow> [] | Some v \<Rightarrow> [(''source_file'', v)]) @
     (case wp_declared_artifact_access p of None \<Rightarrow> []
      | Some d \<Rightarrow> [(''declared_artifact_access'', declaration_to_json d)])"

definition payload_from_json :: "json \<Rightarrow> workflow_ticket_payload option" where
  "payload_from_json v =
     Option.bind (struct_fields [''workflow_id'', ''plan_id'', ''node_id'', ''branch_id'', ''operation'',
       ''rendered_payload'', ''timing'', ''source_file'', ''declared_artifact_access''] v) (\<lambda>m.
     Option.bind (field as_str_json m ''workflow_id'') (\<lambda>w.
     Option.bind (field as_str_json m ''plan_id'') (\<lambda>pl.
     Option.bind (field as_str_json m ''node_id'') (\<lambda>n.
     Option.bind (field as_str_json m ''branch_id'') (\<lambda>b.
     Option.bind (field (unit_variant_from_json operation_kind_from_wire) m ''operation'') (\<lambda>op.
     Option.bind (field Some m ''rendered_payload'') (\<lambda>r.
     Option.bind (field timing_from_json m ''timing'') (\<lambda>t.
     Option.bind (optional_field Some m ''source_file'') (\<lambda>s.
     Option.bind (optional_field declaration_from_json m ''declared_artifact_access'') (\<lambda>d.
       Some \<lparr> wp_workflow_id = w, wp_plan_id = pl, wp_node_id = n, wp_branch_id = b, wp_operation = op,
         wp_rendered_payload = r, wp_timing = t, wp_source_file = s, wp_declared_artifact_access = d \<rparr>))))))))))"

definition rendered_source_id :: "workflow_ticket_payload \<Rightarrow> string \<Rightarrow> nat option" where
  "rendered_source_id p name = Option.bind (json_get (wp_rendered_payload p) name) as_u64_json"

definition rendered_source :: "workflow_ticket_payload \<Rightarrow> ticket_storage_source option" where
  "rendered_source p = (case rendered_source_id p ''source_storage_root_id'' of None \<Rightarrow> None
     | Some root \<Rightarrow>
         if root = 0 then None
         else case json_get (wp_rendered_payload p) ''source_location_id'' of None \<Rightarrow> Some (SourceRoot root)
         | Some raw \<Rightarrow>
             (case as_u64_json raw of None \<Rightarrow> None
              | Some location \<Rightarrow> if location = 0 then None else Some (SourceLocation root location)))"

definition validate_artifact_access :: "workflow_ticket_payload \<Rightarrow> bool" where
  "validate_artifact_access p =
     (if \<not> is_byte_touching (wp_operation p) then wp_declared_artifact_access p = None
      else case wp_declared_artifact_access p of None \<Rightarrow> False
      | Some declared \<Rightarrow>
          (case rendered_source p of None \<Rightarrow> False
           | Some source \<Rightarrow>
               (case declaration_for (wp_operation p) (Some source) of Inl _ \<Rightarrow> False
                | Inr expected \<Rightarrow> expected = Some declared)))"

fun json_insert :: "string \<Rightarrow> json \<Rightarrow> (string \<times> json) list \<Rightarrow> (string \<times> json) list" where
  "json_insert k v [] = [(k, v)]"
| "json_insert k v ((k', v') # kvs) = (if k' = k then (k, v) # kvs else (k', v') # json_insert k v kvs)"

definition render_operation :: "operation_kind \<Rightarrow> json \<Rightarrow> json option" where
  "render_operation op v = (case v of
       JObject kvs \<Rightarrow>
         (case Option.bind (map_of kvs ''operation'') as_str_json of
            Some rendered \<Rightarrow> if rendered = operation_kind_as_str op then Some v else None
          | None \<Rightarrow> Some (JObject (json_insert ''operation'' (JString (operation_kind_as_str op)) kvs)))
     | _ \<Rightarrow> None)"

definition to_ticket_payload :: "workflow_ticket_payload \<Rightarrow> json option" where
  "to_ticket_payload p =
     (if \<not> validate_artifact_access p then None
      else map_option (\<lambda>r. JObject (json_insert ''rendered_payload'' r (payload_to_json p)))
        (render_operation (wp_operation p) (wp_rendered_payload p)))"

definition ticket_operation :: "string \<Rightarrow> operation_kind option" where
  "ticket_operation ticket_kind = (case ticket_operation_new ticket_kind of Inl _ \<Rightarrow> None
     | Inr token \<Rightarrow> (case normalize token of Known kind True \<Rightarrow> Some kind | _ \<Rightarrow> None))"

definition parse_ticket :: "string \<Rightarrow> json \<Rightarrow> workflow_ticket_payload option" where
  "parse_ticket ticket_kind payload =
     Option.bind (ticket_operation ticket_kind) (\<lambda>op.
     Option.bind (payload_from_json payload) (\<lambda>parsed.
       if op \<noteq> wp_operation parsed then None
       else Option.bind (Option.bind (json_get (wp_rendered_payload parsed) ''operation'') as_str_json) (\<lambda>rendered.
         Option.bind (operation_kind_from_wire rendered) (\<lambda>rendered.
           if rendered \<noteq> wp_operation parsed then None
           else if \<not> validate_artifact_access parsed then None
           else Some parsed))))"

section \<open>Encoding and decoding agree\<close>

lemma artifact_access_right_all: "set artifact_access_right_ALL = UNIV"
proof -
  have "x \<in> set artifact_access_right_ALL" for x by (cases x) (simp_all add: artifact_access_right_ALL_def)
  then show ?thesis by blast
qed

interpretation artifact_access_right: wire_vocab artifact_access_right_as_str artifact_access_right_from_wire
  unfolding artifact_access_right_from_wire_def [abs_def]
  by (rule wire_find_vocab [OF artifact_access_right_all]) (simp add: artifact_access_right_ALL_def)

definition u64 :: "nat \<Rightarrow> bool" where
  "u64 n \<longleftrightarrow> n < 2 ^ 64"

primrec target_ids_u64 :: "artifact_access_target \<Rightarrow> bool" where
  "target_ids_u64 (StorageRoot root) \<longleftrightarrow> u64 root"
| "target_ids_u64 (FileLocation root location) \<longleftrightarrow> u64 root \<and> u64 location"
| "target_ids_u64 (ExistingArtifact handle root location) \<longleftrightarrow> u64 handle \<and> u64 root \<and> u64 location"
| "target_ids_u64 (PlannedArtifact handle root) \<longleftrightarrow> u64 handle \<and> u64 root"

text \<open>The values a payload of the source's types can hold.\<close>

definition payload_typed :: "workflow_ticket_payload \<Rightarrow> bool" where
  "payload_typed p \<longleftrightarrow> u64 (et_duration_ms (wp_timing p)) \<and> u64 (et_progress_interval_ms (wp_timing p)) \<and>
     (\<forall>d. wp_declared_artifact_access p = Some d \<longrightarrow> validate_declaration d \<and> (\<forall>e \<in> set d. target_ids_u64 (ae_target e)))"

lemma id_roundtrip [simp]: "u64 n \<Longrightarrow> as_u64_json (id_to_json n) = Some n"
  by (simp add: id_to_json_def u64_def)

lemma target_roundtrip: "target_ids_u64 t \<Longrightarrow> target_from_json (target_to_json t) = Some t"
  by (cases t) (simp_all add: target_from_json_def target_content_from_json_def struct_fields_def field_def)

lemma decode_all_map: "(\<And>x. x \<in> set xs \<Longrightarrow> decode (encode x) = Some x) \<Longrightarrow> decode_all decode (map encode xs) = Some xs"
  by (induction xs) simp_all

lemma entry_roundtrip:
  assumes "target_ids_u64 (ae_target e)"
  shows "entry_from_json (entry_to_json e) = Some e"
proof -
  have "decode_all (unit_variant_from_json artifact_access_right_from_wire)
      (map (\<lambda>r. JString (artifact_access_right_as_str r)) (ae_rights e)) = Some (ae_rights e)"
    by (rule decode_all_map) (simp add: unit_variant_from_json_def artifact_access_right.parse_as_str)
  then show ?thesis using target_roundtrip [OF assms]
    by (simp add: entry_from_json_def entry_to_json_def struct_fields_def field_def list_from_json_def)
qed

lemma declaration_roundtrip:
  assumes "validate_declaration d" "\<forall>e \<in> set d. target_ids_u64 (ae_target e)"
  shows "declaration_from_json (declaration_to_json d) = Some d"
proof -
  have "decode_all entry_from_json (map entry_to_json d) = Some d"
    using assms(2) by (intro decode_all_map entry_roundtrip) blast
  then show ?thesis using assms(1)
    by (simp add: declaration_from_json_def declaration_to_json_def list_from_json_def artifact_access_declaration_new_def)
qed

lemma timing_roundtrip:
  "u64 (et_duration_ms t) \<Longrightarrow> u64 (et_progress_interval_ms t) \<Longrightarrow> timing_from_json (timing_to_json t) = Some t"
  by (simp add: timing_from_json_def timing_to_json_def struct_fields_def field_def)

lemma optional_present: "m k = Some v \<Longrightarrow> v \<noteq> JNull \<Longrightarrow> optional_field decode m k = map_option Some (decode v)"
  by (cases v) (simp_all add: optional_field_def)

lemma optional_absent: "m k = None \<Longrightarrow> optional_field decode m k = Some None"
  by (simp add: optional_field_def)

lemma declaration_not_null: "declaration_to_json d \<noteq> JNull"
  by (simp add: declaration_to_json_def)

text \<open>Replacing the rendered payload of an encoded payload encodes the payload with it replaced.\<close>

lemma insert_rendered:
  "json_insert ''rendered_payload'' r (payload_to_json p) = payload_to_json (p\<lparr>wp_rendered_payload := r\<rparr>)"
  by (simp add: payload_to_json_def)

lemma payload_roundtrip:
  assumes "payload_typed p" "wp_source_file p \<noteq> Some JNull"
  shows "payload_from_json (JObject (payload_to_json p)) = Some p"
proof -
  have t: "timing_from_json (timing_to_json (wp_timing p)) = Some (wp_timing p)"
    using assms(1) by (simp add: payload_typed_def timing_roundtrip)
  let ?kvs = "payload_to_json p"
  let ?names = "[''workflow_id'', ''plan_id'', ''node_id'', ''branch_id'', ''operation'', ''rendered_payload'', ''timing'',
    ''source_file'', ''declared_artifact_access'']"
  have fields: "struct_fields ?names (JObject ?kvs) = Some (map_of ?kvs)"
    by (auto simp: struct_fields_def payload_to_json_def split: option.split)
  have get: "map_of ?kvs ''workflow_id'' = Some (JString (wp_workflow_id p))"
    "map_of ?kvs ''plan_id'' = Some (JString (wp_plan_id p))" "map_of ?kvs ''node_id'' = Some (JString (wp_node_id p))"
    "map_of ?kvs ''branch_id'' = Some (JString (wp_branch_id p))"
    "map_of ?kvs ''operation'' = Some (JString (operation_kind_as_str (wp_operation p)))"
    "map_of ?kvs ''rendered_payload'' = Some (wp_rendered_payload p)" "map_of ?kvs ''timing'' = Some (timing_to_json (wp_timing p))"
    "map_of ?kvs ''source_file'' = wp_source_file p"
    "map_of ?kvs ''declared_artifact_access'' = map_option declaration_to_json (wp_declared_artifact_access p)"
    by (simp_all add: payload_to_json_def map_add_def split: option.split)
  have s: "optional_field Some (map_of ?kvs) ''source_file'' = Some (wp_source_file p)"
  proof (cases "wp_source_file p")
    case None
    then show ?thesis using get(8) optional_absent by simp
  next
    case (Some v)
    then show ?thesis using get(8) assms(2) optional_present [of "map_of ?kvs" "''source_file''" v Some] by simp
  qed
  have d: "optional_field declaration_from_json (map_of ?kvs) ''declared_artifact_access'' = Some (wp_declared_artifact_access p)"
  proof (cases "wp_declared_artifact_access p")
    case None
    then show ?thesis using get(9) optional_absent by simp
  next
    case (Some d)
    then have "declaration_from_json (declaration_to_json d) = Some d"
      using assms(1) by (intro declaration_roundtrip) (simp_all add: payload_typed_def)
    then show ?thesis
      using get(9) Some optional_present [OF _ declaration_not_null [of d], of "map_of ?kvs" "''declared_artifact_access''" declaration_from_json]
      by simp
  qed
  show ?thesis unfolding payload_from_json_def fields using t s d get
    by (simp add: field_def unit_variant_from_json_def operation_kind.parse_as_str)
qed

lemma map_of_json_insert: "map_of (json_insert k v kvs) = (map_of kvs)(k \<mapsto> v)"
  by (induction k v kvs rule: json_insert.induct) (auto simp: fun_eq_iff)

lemma as_str_json_Some: "as_str_json v = Some s \<longleftrightarrow> v = JString s"
  by (cases v) simp_all

lemma render_operation_Some:
  assumes "render_operation op v = Some r"
  shows "json_get r ''operation'' = Some (JString (operation_kind_as_str op))"
    "k \<noteq> ''operation'' \<Longrightarrow> json_get r k = json_get v k" "render_operation op r = Some r"
proof -
  obtain kvs where v: "v = JObject kvs" using assms by (cases v) (simp_all add: render_operation_def)
  show "json_get r ''operation'' = Some (JString (operation_kind_as_str op))"
    using assms unfolding v
    by (auto simp: render_operation_def json_get_def map_of_json_insert bind_eq_Some_conv as_str_json_Some
      split: option.splits if_splits)
  show "k \<noteq> ''operation'' \<Longrightarrow> json_get r k = json_get v k"
    using assms unfolding v by (auto simp: render_operation_def json_get_def map_of_json_insert split: option.splits if_splits)
  show "render_operation op r = Some r"
    using assms unfolding v by (auto simp: render_operation_def map_of_json_insert split: option.splits if_splits)
qed

lemma validate_rendered:
  assumes "render_operation op (wp_rendered_payload p) = Some r"
  shows "validate_artifact_access (p\<lparr>wp_rendered_payload := r\<rparr>) = validate_artifact_access p"
proof -
  have "json_get r ''source_storage_root_id'' = json_get (wp_rendered_payload p) ''source_storage_root_id''"
    "json_get r ''source_location_id'' = json_get (wp_rendered_payload p) ''source_location_id''"
    using render_operation_Some(2) [OF assms] by simp_all
  then have "rendered_source (p\<lparr>wp_rendered_payload := r\<rparr>) = rendered_source p"
    by (simp add: rendered_source_def rendered_source_id_def cong: option.case_cong if_cong)
  then show ?thesis by (simp add: validate_artifact_access_def cong: option.case_cong if_cong)
qed

lemma namespaced_token: "validate_operation_token (WORKFLOW_OPERATION_NAMESPACE @ operation_kind_as_str k)"
  by (cases k) (simp_all add: validate_operation_token_def is_token_char_def WORKFLOW_OPERATION_NAMESPACE_def)

lemma ticket_operation_iff: "ticket_operation kind = Some k \<longleftrightarrow> kind = WORKFLOW_OPERATION_NAMESPACE @ operation_kind_as_str k"
proof
  assume "ticket_operation kind = Some k"
  then have "normalize kind = Known k True"
    by (auto simp: ticket_operation_def ticket_operation_new_def split: if_splits normalized_ticket_operation.splits bool.splits)
  then show "kind = WORKFLOW_OPERATION_NAMESPACE @ operation_kind_as_str k" by (simp add: normalize_Known_iff)
qed (simp add: ticket_operation_def ticket_operation_new_def namespaced_token)

lemma to_ticket_payload_Some:
  "to_ticket_payload p = Some v \<longleftrightarrow> validate_artifact_access p \<and>
     (\<exists>r. render_operation (wp_operation p) (wp_rendered_payload p) = Some r \<and>
       v = JObject (payload_to_json (p\<lparr>wp_rendered_payload := r\<rparr>)))"
  by (auto simp: to_ticket_payload_def insert_rendered)

lemma encoded_parses:
  assumes "payload_typed p" "wp_source_file p \<noteq> Some JNull" "validate_artifact_access p"
    and r: "render_operation (wp_operation p) (wp_rendered_payload p) = Some r"
  defines "q \<equiv> p\<lparr>wp_rendered_payload := r\<rparr>"
  shows "parse_ticket (WORKFLOW_OPERATION_NAMESPACE @ operation_kind_as_str (wp_operation p)) (JObject (payload_to_json q)) = Some q"
proof -
  have "payload_from_json (JObject (payload_to_json q)) = Some q"
    unfolding q_def using assms(1,2) by (intro payload_roundtrip) (simp_all add: payload_typed_def)
  moreover have "ticket_operation (WORKFLOW_OPERATION_NAMESPACE @ operation_kind_as_str (wp_operation p)) = Some (wp_operation p)"
    by (simp add: ticket_operation_iff)
  moreover have "wp_operation q = wp_operation p" "wp_rendered_payload q = r" by (simp_all add: q_def)
  ultimately show ?thesis
    using assms(3) validate_rendered [OF r] render_operation_Some(1) [OF r]
    by (simp add: parse_ticket_def operation_kind.parse_as_str q_def)
qed

text \<open>The canonical declarations are well formed, so their constructor never refuses one.\<close>

definition source_ids_nonzero :: "ticket_storage_source \<Rightarrow> bool" where
  "source_ids_nonzero source \<longleftrightarrow> source_storage_root_id source \<noteq> 0 \<and>
     (\<forall>root location. source = SourceLocation root location \<longrightarrow> location \<noteq> 0)"

lemma entries_for_byte_touching: "is_byte_touching op \<Longrightarrow> \<exists>es. entries_for op source = Some es"
  by (cases op) (simp_all add: entries_for_def Let_def)

lemma entries_for_valid:
  assumes "entries_for op source = Some es" "source_ids_nonzero source"
  shows "validate_declaration es"
  using assms
  by (cases source; cases op)
    (auto simp: entries_for_def Let_def source_location_def access_target_def access_entry_def validate_declaration_def
      validate_rights_def source_ids_nonzero_def less_artifact_access_right_def less_eq_artifact_access_target_def)

lemma declaration_for_eq:
  assumes "is_byte_touching op" "source_ids_nonzero source"
  shows "\<exists>es. entries_for op source = Some es \<and> declaration_for op (Some source) = Inr (Some es)"
  using entries_for_byte_touching [OF assms(1), of source] entries_for_valid [OF _ assms(2)] assms(1)
  by (auto simp: declaration_for_def artifact_access_declaration_new_def)

lemma rendered_source_nonzero: "rendered_source p = Some source \<Longrightarrow> source_ids_nonzero source"
  by (auto simp: rendered_source_def source_ids_nonzero_def split: option.splits if_splits)

lemma valid_access_declared:
  assumes "validate_artifact_access p" "is_byte_touching (wp_operation p)"
  obtains source where "rendered_source p = Some source"
    "entries_for (wp_operation p) source = wp_declared_artifact_access p" "wp_declared_artifact_access p \<noteq> None"
proof -
  obtain d source expected where d: "wp_declared_artifact_access p = Some d" and source: "rendered_source p = Some source"
    and e: "declaration_for (wp_operation p) (Some source) = Inr (Some d)"
    using assms by (auto simp: validate_artifact_access_def split: option.splits sum.splits)
  from declaration_for_eq [OF assms(2) rendered_source_nonzero [OF source]] e
  show thesis by (intro that [OF source]) (auto simp: d)
qed

definition claims_within :: "operation_kind \<Rightarrow> ticket_storage_source \<Rightarrow> artifact_access_entry \<Rightarrow> bool" where
  "claims_within op source e \<longleftrightarrow>
     (ae_target e = StorageRoot (source_storage_root_id source) \<or>
      (\<exists>root location. source = SourceLocation root location \<and> ae_target e = FileLocation root location)) \<and>
     (RightWrite \<in> set (ae_rights e) \<longrightarrow>
        op \<in> {Remux, TranscodeVideo, TranscodeAudio, ExtractAudio, EditTracks, BackUpFile, CommitArtifact}) \<and>
     (RightDelete \<in> set (ae_rights e) \<longrightarrow> op = DeleteArtifact)"

section \<open>Properties\<close>

text \<open>
  C28. A payload that encodes decodes again under the ticket kind of its operation, to itself with
  the operation written into the rendered payload, and the decoded payload encodes to the same
  JSON. The one value that does not survive is a source file of JSON null, which reads as absent.
\<close>

theorem ticket_payload_roundtrip:
  assumes "payload_typed p" "wp_source_file p \<noteq> Some JNull" "to_ticket_payload p = Some v"
  shows "\<exists>r. render_operation (wp_operation p) (wp_rendered_payload p) = Some r \<and>
    parse_ticket (WORKFLOW_OPERATION_NAMESPACE @ operation_kind_as_str (wp_operation p)) v =
      Some (p\<lparr>wp_rendered_payload := r\<rparr>) \<and>
    to_ticket_payload (p\<lparr>wp_rendered_payload := r\<rparr>) = Some v"
proof -
  obtain r where valid: "validate_artifact_access p" and r: "render_operation (wp_operation p) (wp_rendered_payload p) = Some r"
    and v: "v = JObject (payload_to_json (p\<lparr>wp_rendered_payload := r\<rparr>))"
    using assms(3) unfolding to_ticket_payload_Some by blast
  have "to_ticket_payload (p\<lparr>wp_rendered_payload := r\<rparr>) = Some v"
    unfolding to_ticket_payload_Some v using validate_rendered [OF r] valid render_operation_Some(3) [OF r] by simp
  then show ?thesis using encoded_parses [OF assms(1,2) valid r] r v by blast
qed

text \<open>
  C27. A ticket that decodes is of a known namespaced kind and claims no access its operation does
  not have: an operation that touches no bytes declares nothing; any other declares access to the
  storage root, and at most the location, its rendered payload names, may write only if it produces
  output, and may delete only if it deletes.
\<close>

theorem parsed_ticket_claims_canonical_access:
  assumes "parse_ticket kind v = Some p"
  shows "kind = WORKFLOW_OPERATION_NAMESPACE @ operation_kind_as_str (wp_operation p) \<and>
    (if is_byte_touching (wp_operation p) then
       \<exists>source d. rendered_source p = Some source \<and> wp_declared_artifact_access p = Some d \<and> validate_declaration d \<and>
         (\<forall>e \<in> set d. claims_within (wp_operation p) source e)
     else wp_declared_artifact_access p = None)"
proof -
  from assms have kind: "ticket_operation kind = Some (wp_operation p)" and valid: "validate_artifact_access p"
    by (auto simp: parse_ticket_def bind_eq_Some_conv split: if_splits)
  have "\<exists>source d. rendered_source p = Some source \<and> wp_declared_artifact_access p = Some d \<and> validate_declaration d \<and>
      (\<forall>e \<in> set d. claims_within (wp_operation p) source e)"
    if touches: "is_byte_touching (wp_operation p)"
  proof -
    obtain source where source: "rendered_source p = Some source"
      "entries_for (wp_operation p) source = wp_declared_artifact_access p" "wp_declared_artifact_access p \<noteq> None"
      by (rule valid_access_declared [OF valid touches])
    then obtain d where d: "wp_declared_artifact_access p = Some d" "entries_for (wp_operation p) source = Some d" by auto
    have "validate_declaration d" by (rule entries_for_valid [OF d(2) rendered_source_nonzero [OF source(1)]])
    then show ?thesis using source(1) d
      by (cases source)
        (auto simp: entries_for_def Let_def source_location_def access_target_def access_entry_def claims_within_def
          split: if_splits)
  qed
  moreover have "wp_declared_artifact_access p = None" if "\<not> is_byte_touching (wp_operation p)"
    using valid that by (simp add: validate_artifact_access_def)
  ultimately show ?thesis using kind by (simp add: ticket_operation_iff)
qed

text \<open>
  C29. The canonical declaration of a byte-touching operation exists for every storage source with
  non-zero ids and satisfies the form every declaration must have, so its constructor never fails.
\<close>

theorem canonical_declaration_well_formed:
  assumes "is_byte_touching op" "source_ids_nonzero source"
  shows "\<exists>d. declaration_for op (Some source) = Inr (Some d) \<and> validate_declaration d"
  using declaration_for_eq [OF assms] entries_for_valid [OF _ assms(2)] by blast

section \<open>Witnesses\<close>

definition example_payload :: workflow_ticket_payload where
  "example_payload = \<lparr> wp_workflow_id = ''w'', wp_plan_id = ''p'', wp_node_id = ''n'', wp_branch_id = ''b'',
     wp_operation = Remux,
     wp_rendered_payload = JObject [(''source_storage_root_id'', JInt 3), (''source_location_id'', JInt 7)],
     wp_timing = \<lparr> et_duration_ms = 25, et_progress_interval_ms = 10 \<rparr>, wp_source_file = None,
     wp_declared_artifact_access = Some [\<lparr> ae_target = StorageRoot 3, ae_rights = [RightWrite] \<rparr>,
       \<lparr> ae_target = FileLocation 3 7, ae_rights = [RightRead] \<rparr>] \<rparr>"

lemma example_payload_typed: "payload_typed example_payload" "wp_source_file example_payload \<noteq> Some JNull"
  by (simp_all add: payload_typed_def example_payload_def u64_def validate_declaration_def validate_rights_def
    less_eq_artifact_access_target_def)

lemma example_payload_encodes: "\<exists>v. to_ticket_payload example_payload = Some v"
proof -
  have "rendered_source example_payload = Some (SourceLocation 3 7)"
    by (simp add: rendered_source_def rendered_source_id_def json_get_def example_payload_def)
  moreover have "declaration_for Remux (Some (SourceLocation 3 7)) = Inr (wp_declared_artifact_access example_payload)"
    by (simp add: declaration_for_def entries_for_def source_location_def access_entry_def artifact_access_declaration_new_def
      validate_declaration_def validate_rights_def less_eq_artifact_access_target_def example_payload_def)
  ultimately have "validate_artifact_access example_payload"
    by (simp add: validate_artifact_access_def example_payload_def)
  then show ?thesis by (simp add: to_ticket_payload_def render_operation_def example_payload_def)
qed

lemma example_payload_parses:
  "\<exists>v p. parse_ticket (WORKFLOW_OPERATION_NAMESPACE @ ''remux'') v = Some p \<and> wp_operation p = Remux"
proof -
  obtain r where "validate_artifact_access example_payload"
    "render_operation (wp_operation example_payload) (wp_rendered_payload example_payload) = Some r"
    using example_payload_encodes unfolding to_ticket_payload_Some by blast
  note parsed = encoded_parses [OF example_payload_typed this]
  have "wp_operation example_payload = Remux" by (simp add: example_payload_def)
  then show ?thesis using parsed by (intro exI [of _ "JObject (payload_to_json (example_payload\<lparr>wp_rendered_payload := r\<rparr>))"]
      exI [of _ "example_payload\<lparr>wp_rendered_payload := r\<rparr>"]) simp
qed

theorem ticket_payload_roundtrip_witness:
  "\<exists>v p. to_ticket_payload example_payload = Some v \<and>
     parse_ticket (WORKFLOW_OPERATION_NAMESPACE @ ''remux'') v = Some p \<and> to_ticket_payload p = Some v"
proof -
  obtain v where v: "to_ticket_payload example_payload = Some v" using example_payload_encodes by blast
  have "operation_kind_as_str (wp_operation example_payload) = ''remux''" by (simp add: example_payload_def)
  then show ?thesis using ticket_payload_roundtrip [OF example_payload_typed v] v by auto
qed

theorem parsed_ticket_claims_canonical_access_witness:
  "\<exists>v p d. parse_ticket (WORKFLOW_OPERATION_NAMESPACE @ ''remux'') v = Some p \<and>
     wp_declared_artifact_access p = Some d \<and> (\<forall>e \<in> set d. RightDelete \<notin> set (ae_rights e))"
proof -
  obtain v p where p: "parse_ticket (WORKFLOW_OPERATION_NAMESPACE @ ''remux'') v = Some p" "wp_operation p = Remux"
    using example_payload_parses by blast
  then have "is_byte_touching (wp_operation p)" by simp
  with parsed_ticket_claims_canonical_access [OF p(1)] obtain source d where d: "wp_declared_artifact_access p = Some d"
    "\<forall>e \<in> set d. claims_within (wp_operation p) source e"
    by (simp only: if_True) blast
  have "\<forall>e \<in> set d. RightDelete \<notin> set (ae_rights e)" using d(2) unfolding p(2) claims_within_def by blast
  then show ?thesis using p(1) d(1) by blast
qed

theorem canonical_declaration_well_formed_witness:
  "\<exists>d. declaration_for Remux (Some (SourceLocation 3 7)) = Inr (Some d) \<and> validate_declaration d"
  by (rule canonical_declaration_well_formed) (simp_all add: source_ids_nonzero_def)

end
