(* ===== verification/Control_Plane.thy ===== *)
theory Control_Plane
  imports Scan_Completion Ticket_Payload
begin

text \<open>
  The control plane's execution use cases (\<^verbatim>\<open>voom-control-plane/src/cases/execution\<close>:
  \<^verbatim>\<open>jobs.rs\<close>, \<^verbatim>\<open>tickets.rs\<close>, \<^verbatim>\<open>leases.rs\<close>), the operator's issue transitions
  (\<^verbatim>\<open>cases/policy/issues.rs\<close>) and the coupling of failed routing tickets to scan sessions
  (\<^verbatim>\<open>scan/recovery.rs\<close>). Each handler is one transaction over the repositories, together with
  the events it appends. The clock and the random draw of a call are its arguments.
\<close>

section \<open>Shared parts\<close>

text \<open>
  Text is a byte string; the white space \<^verbatim>\<open>trim\<close> removes is that of Unicode, in UTF-8.
  \<open>skip_whitespace_char\<close> drops one such character from the front, if there is one.
\<close>

definition skip_whitespace_char :: "nat list \<Rightarrow> nat list option" where
  "skip_whitespace_char bs = (case bs of
       [] \<Rightarrow> None
     | a # r \<Rightarrow>
         if 9 \<le> a \<and> a \<le> 13 \<or> a = 32 then Some r
         else (case r of
             [] \<Rightarrow> None
           | b # r2 \<Rightarrow>
               if a = 194 \<and> (b = 133 \<or> b = 160) then Some r2
               else (case r2 of
                   [] \<Rightarrow> None
                 | c # r3 \<Rightarrow>
                     if a = 225 \<and> b = 154 \<and> c = 128 \<or>
                        a = 226 \<and> b = 128 \<and> (128 \<le> c \<and> c \<le> 138 \<or> c = 168 \<or> c = 169 \<or> c = 175) \<or>
                        a = 226 \<and> b = 129 \<and> c = 159 \<or> a = 227 \<and> b = 128 \<and> c = 128
                     then Some r3 else None)))"

lemma skip_whitespace_shorter: "skip_whitespace_char bs = Some r \<Longrightarrow> length r < length bs"
  by (auto simp: skip_whitespace_char_def split: list.splits if_splits)

function all_whitespace :: "nat list \<Rightarrow> bool" where
  "all_whitespace bs \<longleftrightarrow> (bs = [] \<or> (case skip_whitespace_char bs of None \<Rightarrow> False | Some r \<Rightarrow> all_whitespace r))"
  by pat_completeness auto
termination by (relation "measure length") (auto dest: skip_whitespace_shorter)

declare all_whitespace.simps [simp del]

definition require_audit_field :: "string \<Rightarrow> unit res" where
  "require_audit_field v = (if all_whitespace (map of_char v) then Inl Config else Inr ())"

definition append_event :: "subject_type \<Rightarrow> nat option \<Rightarrow> instant \<Rightarrow> event \<Rightarrow> (db, unit) tx" where
  "append_event subject subject_id occurred_at payload =
     bind_i64_option subject_id (modify_tx (\<lambda>db. db\<lparr>events := events db @
       [\<lparr> ev_occurred_at = occurred_at, ev_subject_type = subject, ev_subject_id = subject_id,
          ev_payload = payload \<rparr>]\<rparr>))"

text \<open>The derived \<^verbatim>\<open>Debug\<close> rendering of a failure class.\<close>

primrec failure_class_debug :: "failure_class \<Rightarrow> string" where
  "failure_class_debug failure_class.WorkerTimeout = ''WorkerTimeout''"
| "failure_class_debug failure_class.WorkerCrash = ''WorkerCrash''"
| "failure_class_debug failure_class.NoEligibleWorker = ''NoEligibleWorker''"
| "failure_class_debug failure_class.ArtifactUnavailable = ''ArtifactUnavailable''"
| "failure_class_debug failure_class.ArtifactChecksumMismatch = ''ArtifactChecksumMismatch''"
| "failure_class_debug failure_class.ExternalSystemUnavailable = ''ExternalSystemUnavailable''"
| "failure_class_debug failure_class.ExternalSystemRateLimited = ''ExternalSystemRateLimited''"
| "failure_class_debug failure_class.VerificationFailure = ''VerificationFailure''"
| "failure_class_debug failure_class.BackupFailure = ''BackupFailure''"
| "failure_class_debug failure_class.CommitFailure = ''CommitFailure''"
| "failure_class_debug failure_class.PolicyParseError = ''PolicyParseError''"
| "failure_class_debug failure_class.PolicyValidationError = ''PolicyValidationError''"
| "failure_class_debug failure_class.MissingCapability = ''MissingCapability''"
| "failure_class_debug failure_class.MalformedWorkerResult = ''MalformedWorkerResult''"
| "failure_class_debug failure_class.UserCancellation = ''UserCancellation''"
| "failure_class_debug failure_class.MalformedMedia = ''MalformedMedia''"
| "failure_class_debug failure_class.StaleIdentityEvidence = ''StaleIdentityEvidence''"
| "failure_class_debug failure_class.ClosureResolutionIncomplete = ''ClosureResolutionIncomplete''"
| "failure_class_debug failure_class.BlockedByActiveUseLease = ''BlockedByActiveUseLease''"
| "failure_class_debug failure_class.ApprovalRequired = ''ApprovalRequired''"
| "failure_class_debug failure_class.PriorityPolicyConflict = ''PriorityPolicyConflict''"
| "failure_class_debug failure_class.ProgressTimeout = ''ProgressTimeout''"
| "failure_class_debug failure_class.AmbiguousWorkerSelection = ''AmbiguousWorkerSelection''"

definition open_terminal_failure_issue_in_tx ::
  "nat \<Rightarrow> nat option \<Rightarrow> failure_class \<Rightarrow> string \<Rightarrow> instant \<Rightarrow> (db, nat) tx" where
  "open_terminal_failure_issue_in_tx ticket_id lease_id failure reason now =
     open_terminal_failure_in_tx
       \<lparr> td_draft_ticket_id = ticket_id, td_lease_id = lease_id,
         td_severity = class_issue_severity failure, td_priority = class_issue_priority failure,
         td_priority_reason = ''terminal failure classified '' @ failure_class_debug failure,
         td_title = ''Terminal failure on ticket '' @ show_nat ticket_id, td_body = reason \<rparr> now"

section \<open>Jobs\<close>

definition open_job_in_tx :: "new_job \<Rightarrow> (db, job) tx" where
  "open_job_in_tx input =
     bind_tx (job_create_in_tx input) (\<lambda>job.
     bind_tx (append_event JobSubject (Some (j_id job)) (nj_created_at input)
       (JobOpenedEvent (j_id job) (nj_kind input) (nj_priority input))) (\<lambda>_.
     return_tx job))"

definition open_job :: "new_job \<Rightarrow> (db, job) tx" where
  "open_job input = transact (open_job_in_tx input)"

definition succeed_job :: "nat \<Rightarrow> instant \<Rightarrow> (db, job) tx" where
  "succeed_job i now = transact (
     bind_tx (job_succeed_in_tx i now) (\<lambda>job.
     bind_tx (append_event JobSubject (Some i) now (JobSucceededEvent i)) (\<lambda>_.
     return_tx job)))"

definition fail_job :: "nat \<Rightarrow> string \<Rightarrow> instant \<Rightarrow> (db, job) tx" where
  "fail_job i reason now = bind_tx (lift_res (require_audit_field reason)) (\<lambda>_. transact (
     bind_tx (job_fail_in_tx i now) (\<lambda>job.
     bind_tx (append_event JobSubject (Some i) now (JobFailedEvent i reason)) (\<lambda>_.
     return_tx job))))"

definition cancel_job :: "nat \<Rightarrow> string \<Rightarrow> instant \<Rightarrow> (db, job) tx" where
  "cancel_job i reason now = bind_tx (lift_res (require_audit_field reason)) (\<lambda>_. transact (
     bind_tx (job_cancel_in_tx i now) (\<lambda>job.
     bind_tx (append_event JobSubject (Some i) now (JobCancelledEvent i reason)) (\<lambda>_.
     return_tx job))))"

section \<open>Tickets\<close>

definition create_ticket_in_tx :: "new_ticket \<Rightarrow> (db, ticket) tx" where
  "create_ticket_in_tx input =
     bind_tx (ticket_create_in_tx input) (\<lambda>ticket.
     bind_tx (append_event TicketSubject (Some (t_id ticket)) (nt_created_at input)
       (TicketCreatedEvent (t_id ticket) (nt_job_id input) (nt_kind input) (nt_priority input)
         (nt_max_attempts input))) (\<lambda>_.
     return_tx ticket))"

definition create_ticket :: "new_ticket \<Rightarrow> (db, ticket) tx" where
  "create_ticket input = transact (create_ticket_in_tx input)"

definition promote_in_tx :: "nat \<Rightarrow> instant \<Rightarrow> (db, ticket list) tx" where
  "promote_in_tx ticket_id now =
     bind_tx (mark_ready_if_unblocked_in_tx ticket_id now) (\<lambda>promoted.
     bind_tx (for_tx (\<lambda>t. append_event TicketSubject (Some (t_id t)) now (TicketReadyEvent (t_id t))) promoted) (\<lambda>_.
     return_tx promoted))"

definition promote :: "nat \<Rightarrow> instant \<Rightarrow> (db, ticket list) tx" where
  "promote ticket_id now = transact (promote_in_tx ticket_id now)"

record pre_lease_failure_outcome =
  po_ticket :: ticket
  po_terminal :: bool

definition pre_lease_failure_reason :: "failure_class \<Rightarrow> string res" where
  "pre_lease_failure_reason failure =
     (if failure = failure_class.NoEligibleWorker then Inr ''no eligible worker before lease acquisition''
      else if failure = failure_class.AmbiguousWorkerSelection then Inr ''ambiguous worker selection before lease acquisition''
      else Inl Config)"

definition require_no_held_lease :: "nat \<Rightarrow> (db, unit) tx" where
  "require_no_held_lease ticket_id =
     bind_tx (has_held_for_ticket_in_tx ticket_id) (\<lambda>held. if held then throw_tx Conflict else return_tx ())"

definition transition_pre_lease_failure_ticket ::
  "ticket \<Rightarrow> nat \<Rightarrow> bool \<Rightarrow> instant \<Rightarrow> nat \<Rightarrow> (db, ticket) tx" where
  "transition_pre_lease_failure_ticket ticket next_attempt terminal now draw =
     transition_ready_before_lease_failure_in_tx (t_id ticket) (t_attempt ticket) next_attempt
       (if terminal then Terminal else RetryAt (now + default_backoff next_attempt draw)) now"

definition emit_pre_lease_failure_event ::
  "ticket \<Rightarrow> bool \<Rightarrow> string \<Rightarrow> failure_class \<Rightarrow> instant \<Rightarrow> (db, unit) tx" where
  "emit_pre_lease_failure_event ticket terminal reason failure now =
     (if terminal then
        bind_tx (open_terminal_failure_issue_in_tx (t_id ticket) None failure reason now) (\<lambda>issue_id.
          append_event TicketSubject (Some (t_id ticket)) now
            (TicketFailedTerminalEvent (t_id ticket) (t_attempt ticket) (t_max_attempts ticket) reason failure
              (Some issue_id)))
      else append_event TicketSubject (Some (t_id ticket)) now
        (TicketFailedRetriableEvent (t_id ticket) (t_attempt ticket) (t_max_attempts ticket) reason failure
          (t_next_eligible_at ticket)))"

definition record_pre_lease_ticket_failure ::
  "nat \<Rightarrow> failure_class \<Rightarrow> instant \<Rightarrow> nat \<Rightarrow> (db, pre_lease_failure_outcome) tx" where
  "record_pre_lease_ticket_failure ticket_id failure now draw =
     bind_tx (lift_res (pre_lease_failure_reason failure)) (\<lambda>reason. transact (
     bind_tx (ticket_get_in_tx ticket_id) (\<lambda>found. case found of None \<Rightarrow> throw_tx NotFound | Some ticket \<Rightarrow>
     bind_tx (require_no_held_lease ticket_id) (\<lambda>_.
     if t_state ticket \<noteq> Ready then throw_tx Conflict
     else if now < t_next_eligible_at ticket then throw_tx Conflict
     else if 2 ^ 32 \<le> t_attempt ticket + 1 then throw_tx Internal
     else
       let next_attempt = t_attempt ticket + 1;
           terminal = (failure = failure_class.AmbiguousWorkerSelection \<or> t_max_attempts ticket \<le> next_attempt)
       in bind_tx (transition_pre_lease_failure_ticket ticket next_attempt terminal now draw) (\<lambda>ticket.
          bind_tx (emit_pre_lease_failure_event ticket terminal reason failure now) (\<lambda>_.
          return_tx \<lparr> po_ticket = ticket, po_terminal = terminal \<rparr>))))))"

section \<open>Leases\<close>

definition try_acquire_lease_in_tx :: "new_lease \<Rightarrow> (db, lease_acquire_outcome) tx" where
  "try_acquire_lease_in_tx input =
     bind_tx (try_acquire_in_tx input) (\<lambda>outcome. case outcome of
       Acquired lease \<Rightarrow>
         bind_tx (append_event LeaseSubject (Some (l_id lease)) (nle_now input)
           (LeaseAcquiredEvent (l_id lease) (l_ticket_id lease) (l_worker_id lease) (l_ttl_seconds lease)
             (l_expires_at lease))) (\<lambda>_.
         bind_tx (ticket_get_in_tx (l_ticket_id lease)) (\<lambda>found. case found of None \<Rightarrow> throw_tx Internal
         | Some ticket \<Rightarrow>
             bind_tx (append_event TicketSubject (Some (t_id ticket)) (nle_now input)
               (TicketLeasedEvent (t_id ticket) (l_id lease) (l_worker_id lease) (t_attempt ticket))) (\<lambda>_.
             return_tx outcome)))
     | _ \<Rightarrow> return_tx outcome)"

definition try_acquire_lease :: "new_lease \<Rightarrow> (db, lease_acquire_outcome) tx" where
  "try_acquire_lease input = transact (try_acquire_lease_in_tx input)"

definition acquire_lease_in_tx :: "new_lease \<Rightarrow> (db, lease) tx" where
  "acquire_lease_in_tx input =
     bind_tx (try_acquire_lease_in_tx input) (\<lambda>outcome. lift_res (into_lease_result outcome))"

definition acquire_lease :: "new_lease \<Rightarrow> (db, lease) tx" where
  "acquire_lease input = transact (acquire_lease_in_tx input)"

text \<open>The claims of audio operations that live as long as their lease is heartbeated.\<close>

definition claimed_by :: "nat \<Rightarrow> audio_operation \<Rightarrow> bool" where
  "claimed_by lease_id op \<longleftrightarrow>
     ao_claim_lease_id op = Some lease_id \<and> ao_claim_token op \<noteq> None \<and> \<not> ao_committed op"

definition claim_unexpired :: "instant \<Rightarrow> audio_operation \<Rightarrow> bool" where
  "claim_unexpired now op \<longleftrightarrow> (case ao_claim_expires_at op of None \<Rightarrow> False | Some e \<Rightarrow> now < e)"

definition renewed_claims :: "nat \<Rightarrow> instant \<Rightarrow> instant \<Rightarrow> audio_operation list \<Rightarrow> audio_operation list" where
  "renewed_claims lease_id expires_at now ops =
     update_where (\<lambda>op. claimed_by lease_id op \<and> claim_unexpired now op)
       (\<lambda>op. op\<lparr>ao_claim_expires_at := Some expires_at\<rparr>) ops"

definition claims_renewed :: "nat \<Rightarrow> instant \<Rightarrow> audio_operation list \<Rightarrow> unit res" where
  "claims_renewed lease_id now ops =
     (if rows_matching (claimed_by lease_id) ops =
         rows_matching (\<lambda>op. claimed_by lease_id op \<and> claim_unexpired now op) ops
      then Inr () else Inl Conflict)"

definition renew_extract_claims_for_lease_in_tx :: "nat \<Rightarrow> instant \<Rightarrow> instant \<Rightarrow> (db, unit) tx" where
  "renew_extract_claims_for_lease_in_tx lease_id expires_at now = bind_i64 lease_id (\<lambda>db.
     (claims_renewed lease_id now (audio_extract_operations db),
      db\<lparr>audio_extract_operations := renewed_claims lease_id expires_at now (audio_extract_operations db)\<rparr>))"

definition renew_synthesis_claims_for_lease_in_tx :: "nat \<Rightarrow> instant \<Rightarrow> instant \<Rightarrow> (db, unit) tx" where
  "renew_synthesis_claims_for_lease_in_tx lease_id expires_at now = bind_i64 lease_id (\<lambda>db.
     (claims_renewed lease_id now (audio_synthesis_operations db),
      db\<lparr>audio_synthesis_operations := renewed_claims lease_id expires_at now (audio_synthesis_operations db)\<rparr>))"

definition heartbeat_lease_in_tx :: "nat \<Rightarrow> int \<Rightarrow> instant \<Rightarrow> (db, lease) tx" where
  "heartbeat_lease_in_tx lease_id ttl now =
     bind_tx (heartbeat_in_tx lease_id ttl now) (\<lambda>lease.
     bind_tx (renew_extract_claims_for_lease_in_tx lease_id (l_expires_at lease) now) (\<lambda>_.
     bind_tx (renew_synthesis_claims_for_lease_in_tx lease_id (l_expires_at lease) now) (\<lambda>_.
     return_tx lease)))"

definition heartbeat_lease :: "nat \<Rightarrow> int \<Rightarrow> instant \<Rightarrow> (db, lease) tx" where
  "heartbeat_lease lease_id ttl now = transact (heartbeat_lease_in_tx lease_id ttl now)"

definition released_event :: "lease \<Rightarrow> event" where
  "released_event lease = LeaseReleasedEvent (l_id lease) (l_ticket_id lease)
     (case l_release_reason lease of None \<Rightarrow> '''' | Some r \<Rightarrow> release_reason_as_str r)"

definition release_lease_in_tx :: "nat \<Rightarrow> json \<Rightarrow> instant \<Rightarrow> (db, lease) tx" where
  "release_lease_in_tx lease_id result now =
     bind_tx (release_in_tx lease_id result now) (\<lambda>lease.
     bind_tx (append_event LeaseSubject (Some (l_id lease)) now (released_event lease)) (\<lambda>_.
     bind_tx (append_event TicketSubject (Some (l_ticket_id lease)) now
       (TicketSucceededEvent (l_ticket_id lease) (l_id lease))) (\<lambda>_.
     bind_tx (list_dependents_in_tx (l_ticket_id lease)) (\<lambda>dependents.
     bind_tx (for_tx (\<lambda>dep. promote_in_tx (t_id dep) now) dependents) (\<lambda>_.
     return_tx lease)))))"

definition release_lease :: "nat \<Rightarrow> json \<Rightarrow> instant \<Rightarrow> (db, lease) tx" where
  "release_lease lease_id result now = transact (release_lease_in_tx lease_id result now)"

definition fail_lease_in_tx :: "nat \<Rightarrow> string \<Rightarrow> failure_class \<Rightarrow> instant \<Rightarrow> nat \<Rightarrow> (db, lease) tx" where
  "fail_lease_in_tx lease_id reason failure now draw =
     bind_tx (fail_in_tx lease_id failure now draw) (\<lambda>lease.
     bind_tx (append_event LeaseSubject (Some (l_id lease)) now (released_event lease)) (\<lambda>_.
     bind_tx (ticket_get_in_tx (l_ticket_id lease)) (\<lambda>found. case found of None \<Rightarrow> throw_tx Internal
     | Some ticket \<Rightarrow>
         bind_tx
           (if t_state ticket = Ready then
              append_event TicketSubject (Some (t_id ticket)) now
                (TicketFailedRetriableEvent (t_id ticket) (t_attempt ticket) (t_max_attempts ticket) reason failure
                  (t_next_eligible_at ticket))
            else if t_state ticket = Failed then
              bind_tx (open_terminal_failure_issue_in_tx (t_id ticket) (Some (l_id lease)) failure reason now) (\<lambda>issue_id.
                append_event TicketSubject (Some (t_id ticket)) now
                  (TicketFailedTerminalEvent (t_id ticket) (t_attempt ticket) (t_max_attempts ticket) reason failure
                    (Some issue_id)))
            else throw_tx Internal) (\<lambda>_.
         return_tx lease))))"

definition fail_lease :: "nat \<Rightarrow> string \<Rightarrow> failure_class \<Rightarrow> instant \<Rightarrow> nat \<Rightarrow> (db, lease) tx" where
  "fail_lease lease_id reason failure now draw = transact (fail_lease_in_tx lease_id reason failure now draw)"

section \<open>Failed routing tickets and their scan sessions\<close>

definition parse_u64 :: "string \<Rightarrow> nat option" where
  "parse_u64 s =
     (let digits = (case s of c # r \<Rightarrow> if c = CHR ''+'' then r else s | [] \<Rightarrow> []) in
      if digits \<noteq> [] \<and> list_all (\<lambda>c. 48 \<le> (of_char c :: nat) \<and> (of_char c :: nat) \<le> 57) digits \<and>
         read_nat digits < 2 ^ 64
      then Some (read_nat digits) else None)"

definition canonical_text_id :: "string option \<Rightarrow> nat res" where
  "canonical_text_id value = (case value of None \<Rightarrow> Inl Database
     | Some v \<Rightarrow> (case parse_u64 v of None \<Rightarrow> Inl Database
         | Some i \<Rightarrow> if 0 < i \<and> i < 2 ^ 63 \<and> show_nat i = v then Inr i else Inl Database))"

definition append_lifecycle_event :: "scan_session \<Rightarrow> instant \<Rightarrow> (db, unit) tx" where
  "append_lifecycle_event session now =
     (let emit = (\<lambda>event. append_event ScanSessionSubject (Some (ss_id session)) now
            (event (ss_id session) (ss_storage_root_id session) (ss_status session)))
      in case ss_status session of
        ScanRequested \<Rightarrow> emit ScanSessionRequestedEvent
      | ScanRunning \<Rightarrow> emit ScanSessionStartedEvent
      | ScanFailed \<Rightarrow> emit ScanSessionFailedEvent
      | ScanCancelled \<Rightarrow> emit ScanSessionCancelledEvent
      | ScanStale \<Rightarrow> emit ScanSessionStaleEvent
      | ScanSucceeded \<Rightarrow> throw_tx Internal)"

definition routes_scan_run :: "ticket \<Rightarrow> bool" where
  "routes_scan_run ticket \<longleftrightarrow> t_state ticket = Failed \<and>
     t_kind ticket = ''synthetic.workflow.operation.scan_library'' \<and>
     json_index (t_payload ticket) ''workflow_id'' = JString ''scan-run''"

text \<open>The session, owner and root a routing ticket names, checked against each other.\<close>

definition scan_routing :: "workflow_ticket_payload \<Rightarrow> (nat \<times> nat \<times> nat) res" where
  "scan_routing payload =
     (case canonical_text_id (as_str_json (json_index (wp_rendered_payload payload) ''scan_session_id'')) of
        Inl e \<Rightarrow> Inl e
      | Inr session_id \<Rightarrow>
          (case canonical_text_id (Some (wp_node_id payload)) of Inl e \<Rightarrow> Inl e
           | Inr owner \<Rightarrow>
               (case as_u64_json (json_index (wp_rendered_payload payload) ''source_storage_root_id'') of
                  None \<Rightarrow> Inl Database
                | Some root \<Rightarrow>
                    if \<not> (0 < root \<and> root < 2 ^ 63) then Inl Database
                    else if wp_operation payload \<noteq> ScanLibrary \<or> wp_plan_id payload \<noteq> show_nat session_id \<or>
                      wp_branch_id payload \<noteq> ''scan-run-'' @ show_nat session_id then Inl Database
                    else Inr (session_id, owner, root))))"

definition fail_scan_for_failed_ticket_in_tx :: "ticket \<Rightarrow> instant \<Rightarrow> (db, unit) tx" where
  "fail_scan_for_failed_ticket_in_tx ticket now =
     (if \<not> routes_scan_run ticket then return_tx ()
      else case parse_ticket (t_kind ticket) (t_payload ticket) of None \<Rightarrow> throw_tx Database
      | Some payload \<Rightarrow>
          bind_tx (lift_res (scan_routing payload)) (\<lambda>(session_id, owner, root).
          bind_tx (scan_get_in_tx session_id) (\<lambda>found. case found of None \<Rightarrow> throw_tx Database
          | Some session \<Rightarrow>
              if ss_storage_root_id session \<noteq> root \<or> ss_owner_node_id session \<noteq> owner then throw_tx Database
              else if ss_status session \<in> {ScanRequested, ScanRunning} then
                bind_tx (lift_res (scan_terminal_reason_new (''routing ticket '' @ show_nat (t_id ticket) @ '' failed''))) (\<lambda>reason.
                bind_tx (terminalize_in_tx session_id ScanFailed reason now) (\<lambda>failed.
                append_lifecycle_event failed now))
              else return_tx ())))"

text \<open>The failed routing tickets whose session is not known to have ended.\<close>

definition scan_run_settled :: "db \<Rightarrow> ticket \<Rightarrow> bool" where
  "scan_run_settled db ticket \<longleftrightarrow>
     (let p = t_payload ticket in
      \<exists>s \<in> set (scan_sessions db). 0 < ss_id s \<and> 0 < ss_storage_root_id s \<and> 0 < ss_owner_node_id s \<and>
        json_text p [''rendered_payload'', ''scan_session_id''] = Some (show_nat (ss_id s)) \<and>
        json_text p [''plan_id''] = Some (show_nat (ss_id s)) \<and>
        json_text p [''branch_id''] = Some (''scan-run-'' @ show_nat (ss_id s)) \<and>
        json_text p [''node_id''] = Some (show_nat (ss_owner_node_id s)) \<and>
        json_extract p [''rendered_payload'', ''source_storage_root_id''] = Some (JInt (int (ss_storage_root_id s))) \<and>
        ss_status s \<in> {ScanSucceeded, ScanFailed, ScanCancelled, ScanStale})"

definition failed_scan_run_candidates_in_tx :: "(db, ticket list) tx" where
  "failed_scan_run_candidates_in_tx = read_tx (\<lambda>db.
     take LEASE_BATCH_LIMIT (sort_key t_id (filter (\<lambda>t. t_state t = Failed \<and>
       t_kind t = ''synthetic.workflow.operation.scan_library'' \<and>
       json_text (t_payload t) [''workflow_id''] = Some ''scan-run'' \<and> \<not> scan_run_settled db t) (tickets db))))"

definition recover_failed_scan_runs :: "instant \<Rightarrow> (db, unit) tx" where
  "recover_failed_scan_runs now = transact (
     bind_tx failed_scan_run_candidates_in_tx (\<lambda>candidates.
     bind_tx (for_tx (\<lambda>t. fail_scan_for_failed_ticket_in_tx t now) candidates) (\<lambda>_.
     return_tx ())))"

section \<open>Expiry and force release\<close>

definition emit_expire_pair :: "nat \<Rightarrow> nat \<Rightarrow> expire_report \<Rightarrow> instant \<Rightarrow> (db, unit) tx" where
  "emit_expire_pair lease_id ticket_id report now =
     bind_tx (append_event LeaseSubject (Some lease_id) now (LeaseExpiredEvent lease_id ticket_id)) (\<lambda>_.
     if ticket_id \<in> set (er_requeued_tickets report) then
       append_event TicketSubject (Some ticket_id) now (TicketRequeuedAfterLeaseExpiryEvent ticket_id lease_id)
     else case find (\<lambda>f. fe_ticket_id f = ticket_id) (er_failed_expiries report) of None \<Rightarrow> throw_tx Internal
     | Some failed \<Rightarrow>
         bind_tx (open_terminal_failure_issue_in_tx ticket_id (Some lease_id) failure_class.WorkerCrash
           ''lease expired with no retries remaining'' now) (\<lambda>issue_id.
         append_event TicketSubject (Some ticket_id) now
           (TicketFailedTerminalEvent ticket_id (fe_attempt failed) (fe_max_attempts failed)
             ''lease expired with no retries remaining'' failure_class.WorkerCrash (Some issue_id))))"

definition settle_expired_pair :: "expire_report \<Rightarrow> instant \<Rightarrow> nat \<times> nat \<Rightarrow> (db, unit) tx" where
  "settle_expired_pair report now = (\<lambda>(lease_id, ticket_id).
     bind_tx (emit_expire_pair lease_id ticket_id report now) (\<lambda>_.
     if ticket_id \<in> set (er_requeued_tickets report) then return_tx ()
     else bind_tx (ticket_get_in_tx ticket_id) (\<lambda>found. case found of None \<Rightarrow> throw_tx Database
     | Some ticket \<Rightarrow> fail_scan_for_failed_ticket_in_tx ticket now)))"

definition expire_due :: "instant \<Rightarrow> (db, expire_report) tx" where
  "expire_due now = transact (
     bind_tx (expire_due_in_tx now) (\<lambda>report.
     bind_tx (for_tx (settle_expired_pair report now) (er_pairs report)) (\<lambda>_.
     return_tx report)))"

definition force_release_lease ::
  "nat \<Rightarrow> string \<Rightarrow> string \<Rightarrow> bool \<Rightarrow> instant \<Rightarrow> (db, force_release_outcome) tx" where
  "force_release_lease lease_id actor reason also_requeue now =
     bind_tx (lift_res (require_audit_field actor)) (\<lambda>_.
     bind_tx (lift_res (require_audit_field reason)) (\<lambda>_. transact (
     bind_tx (force_release_in_tx lease_id also_requeue now) (\<lambda>outcome.
       let lease = fr_lease outcome in
       bind_tx (append_event LeaseSubject (Some (l_id lease)) now
         (LeaseForceReleasedEvent (l_id lease) (l_ticket_id lease) actor reason also_requeue)) (\<lambda>_.
       bind_tx
         (if fr_ticket_requeued outcome then
            append_event TicketSubject (Some (l_ticket_id lease)) now
              (TicketRequeuedAfterForceReleaseEvent (l_ticket_id lease) (l_id lease) actor reason)
          else
            bind_tx (open_terminal_failure_issue_in_tx (l_ticket_id lease) (Some (l_id lease))
              failure_class.UserCancellation ''force-released without requeue'' now) (\<lambda>issue_id.
            append_event TicketSubject (Some (l_ticket_id lease)) now
              (TicketFailedTerminalEvent (l_ticket_id lease) (fr_attempt outcome) (fr_max_attempts outcome)
                ''force-released without requeue'' failure_class.UserCancellation (Some issue_id)))) (\<lambda>_.
       return_tx outcome))))))"

section \<open>Operator transitions of issues\<close>

definition emit_issue_event :: "issue \<Rightarrow> bool \<Rightarrow> instant \<Rightarrow> (db, unit) tx" where
  "emit_issue_event record is_resolution now =
     (let payload = \<lparr> ip_issue_id = is_id record, ip_kind = issue_kind_as_str (is_kind record),
            ip_status = issue_status_as_str (is_status record), ip_dedupe_key = is_dedupe_key record,
            ip_policy_version_id = None, ip_report_id = None \<rparr>
      in append_event SystemSubject (Some (is_id record)) now
        (if is_resolution then IssueResolvedEvent payload else IssueUpdatedEvent payload))"

definition with_issue_event :: "bool \<Rightarrow> instant \<Rightarrow> (db, issue option) tx \<Rightarrow> (db, issue option) tx" where
  "with_issue_event is_resolution now write = transact (
     bind_tx write (\<lambda>record. bind_tx
       (case record of None \<Rightarrow> return_tx () | Some r \<Rightarrow> emit_issue_event r is_resolution now) (\<lambda>_.
     return_tx record)))"

definition update_issue_priority ::
  "nat \<Rightarrow> issue_priority \<Rightarrow> string option \<Rightarrow> instant \<Rightarrow> (db, issue option) tx" where
  "update_issue_priority i priority reason now =
     with_issue_event False now (update_priority_in_tx i priority reason now)"

definition resolve_issue :: "nat \<Rightarrow> instant \<Rightarrow> (db, issue option) tx" where
  "resolve_issue i now = with_issue_event True now (issue_resolve_in_tx i now)"

definition suppress_issue :: "nat \<Rightarrow> nat \<Rightarrow> instant \<Rightarrow> (db, issue option) tx" where
  "suppress_issue i days now =
     with_issue_event False now (issue_suppress_in_tx i (now + int days * 86400 * NANOS_PER_SECOND) now)"

definition accept_issue :: "nat \<Rightarrow> instant \<Rightarrow> (db, issue option) tx" where
  "accept_issue i now = with_issue_event False now (issue_accept_in_tx i now)"

end
