(* ===== verification/Execution.thy ===== *)
theory Execution
  imports Control_Plane
begin

text \<open>
  What the control plane's handlers keep when they run one after the other: the store stays a
  run of the abstract execution core (\<open>Exec_Spec\<close>), the event log determines the state of
  every job, ticket and lease, every terminal failure is filed as an issue, and a handler that fails
  leaves no trace.
\<close>

section \<open>What an event says about a state\<close>

fun ticket_fact :: "event \<Rightarrow> (nat \<times> ticket_state) option" where
  "ticket_fact (TicketCreatedEvent t _ _ _ _) = Some (t, Pending)"
| "ticket_fact (TicketReadyEvent t) = Some (t, Ready)"
| "ticket_fact (TicketLeasedEvent t _ _ _) = Some (t, Leased)"
| "ticket_fact (TicketSucceededEvent t _) = Some (t, Succeeded)"
| "ticket_fact (TicketFailedRetriableEvent t _ _ _ _ _) = Some (t, Ready)"
| "ticket_fact (TicketFailedTerminalEvent t _ _ _ _ _) = Some (t, Failed)"
| "ticket_fact (TicketRequeuedAfterLeaseExpiryEvent t _) = Some (t, Ready)"
| "ticket_fact (TicketRequeuedAfterForceReleaseEvent t _ _ _) = Some (t, Ready)"
| "ticket_fact _ = None"

fun lease_fact :: "event \<Rightarrow> (nat \<times> lease_state) option" where
  "lease_fact (LeaseAcquiredEvent l _ _ _ _) = Some (l, Held)"
| "lease_fact (LeaseReleasedEvent l _ _) = Some (l, Released)"
| "lease_fact (LeaseExpiredEvent l _) = Some (l, Expired)"
| "lease_fact (LeaseForceReleasedEvent l _ _ _ _) = Some (l, ForceReleased)"
| "lease_fact _ = None"

fun job_fact :: "event \<Rightarrow> (nat \<times> job_state) option" where
  "job_fact (JobOpenedEvent j _ _) = Some (j, JobOpen)"
| "job_fact (JobSucceededEvent j) = Some (j, JobSucceeded)"
| "job_fact (JobFailedEvent j _) = Some (j, JobFailed)"
| "job_fact (JobCancelledEvent j _) = Some (j, JobCancelled)"
| "job_fact _ = None"

definition learn :: "(event \<Rightarrow> (nat \<times> 'a) option) \<Rightarrow> event_envelope \<Rightarrow> (nat \<rightharpoonup> 'a) \<Rightarrow> nat \<rightharpoonup> 'a" where
  "learn says e m = (case says (ev_payload e) of None \<Rightarrow> m | Some (i, st) \<Rightarrow> m(i \<mapsto> st))"

definition replay :: "(event \<Rightarrow> (nat \<times> 'a) option) \<Rightarrow> event_envelope list \<Rightarrow> nat \<rightharpoonup> 'a" where
  "replay says es = fold (learn says) es Map.empty"

lemma replay_Nil [simp]: "replay says [] = Map.empty"
  by (simp add: replay_def)

lemma replay_snoc [simp]:
  "replay says (es @ [e]) = (case says (ev_payload e) of None \<Rightarrow> replay says es | Some (i, st) \<Rightarrow> (replay says es)(i \<mapsto> st))"
  by (simp add: replay_def learn_def split: option.split)

lemma replay_silent:
  assumes "\<forall>e \<in> set es'. says (ev_payload e) = None"
  shows "replay says (es @ es') = replay says es"
proof -
  have "fold (learn says) es' m = m" for m
    using assms by (induction es' arbitrary: m) (simp_all add: learn_def)
  then show ?thesis by (simp add: replay_def)
qed

definition ticket_states :: "db \<Rightarrow> nat \<rightharpoonup> ticket_state" where
  "ticket_states db = table_map t_id t_state (tickets db)"

definition lease_states :: "db \<Rightarrow> nat \<rightharpoonup> lease_state" where
  "lease_states db = table_map l_id l_state (leases db)"

definition job_states :: "db \<Rightarrow> nat \<rightharpoonup> job_state" where
  "job_states db = table_map j_id j_state (jobs db)"

lemmas states_defs = ticket_states_def lease_states_def job_states_def

definition log_matches :: "db \<Rightarrow> bool" where
  "log_matches db \<longleftrightarrow> replay ticket_fact (events db) = ticket_states db \<and>
     replay lease_fact (events db) = lease_states db \<and> replay job_fact (events db) = job_states db"

text \<open>Every terminal failure in the log names the issue it was filed under.\<close>

definition filed_under :: "db \<Rightarrow> nat \<Rightarrow> nat option \<Rightarrow> bool" where
  "filed_under db ticket_id issue_id \<longleftrightarrow> (\<exists>i \<in> set (issues db). issue_id = Some (is_id i) \<and>
     is_kind i = TerminalFailure \<and> is_dedupe_key i = Some (terminal_failure_dedupe_key ticket_id))"

fun terminal_fact :: "event \<Rightarrow> (nat \<times> nat option) option" where
  "terminal_fact (TicketFailedTerminalEvent t _ _ _ _ issue_id) = Some (t, issue_id)"
| "terminal_fact _ = None"

definition failures_filed :: "db \<Rightarrow> bool" where
  "failures_filed db \<longleftrightarrow> (\<forall>e \<in> set (events db). \<forall>t issue_id.
     terminal_fact (ev_payload e) = Some (t, issue_id) \<longrightarrow> filed_under db t issue_id)"

section \<open>Steps of the store\<close>

definition store_inv :: "db \<Rightarrow> bool" where
  "store_inv db \<longleftrightarrow> good_db db \<and> issue_inv db \<and> scan_inv db \<and> failures_filed db"

definition evolves :: "db \<Rightarrow> db \<Rightarrow> bool" where
  "evolves db db' \<longleftrightarrow> (store_inv db \<longrightarrow> store_inv db' \<and> act\<^sup>*\<^sup>* (abs_exec db) (abs_exec db') \<and>
     prefix (events db) (events db') \<and>
     (\<forall>i \<in> set (issues db). \<exists>j \<in> set (issues db'). same_issue i j) \<and>
     (\<forall>s \<in> set (scan_sessions db). \<exists>t \<in> set (scan_sessions db'). scan_later s t))"

definition audited :: "db \<Rightarrow> db \<Rightarrow> bool" where
  "audited db db' \<longleftrightarrow> evolves db db' \<and> (store_inv db \<and> log_matches db \<longrightarrow> log_matches db')"

lemma evolves_refl [simp]: "evolves db db"
  using same_issue_refl scan_later_refl unfolding evolves_def by blast

lemma evolves_trans:
  assumes "evolves a b" and "evolves b c"
  shows "evolves a c"
  unfolding evolves_def
proof (intro impI conjI ballI)
  assume a: "store_inv a"
  then have b: "store_inv b" using assms(1) by (simp add: evolves_def)
  show "store_inv c" using assms(2) b by (simp add: evolves_def)
  show "act\<^sup>*\<^sup>* (abs_exec a) (abs_exec c)" using assms a b by (auto simp: evolves_def)
  show "prefix (events a) (events c)" using assms a b by (auto simp: evolves_def)
  show "\<exists>k \<in> set (issues c). same_issue i k" if "i \<in> set (issues a)" for i
    using assms a b that same_issue_trans unfolding evolves_def by meson
  show "\<exists>t \<in> set (scan_sessions c). scan_later s t" if "s \<in> set (scan_sessions a)" for s
    using assms a b that scan_later_trans unfolding evolves_def by meson
qed

lemma evolves_inv: "evolves db db' \<Longrightarrow> store_inv db \<Longrightarrow> store_inv db'"
  by (simp add: evolves_def)

lemma audited_refl [simp]: "audited db db"
  by (simp add: audited_def)

lemma audited_trans: "audited a b \<Longrightarrow> audited b c \<Longrightarrow> audited a c"
  using evolves_trans evolves_inv unfolding audited_def by blast

lemma store_inv_good: "store_inv db \<Longrightarrow> good_db db" "store_inv db \<Longrightarrow> wf_db db"
  by (auto simp: store_inv_def good_db_def)

text \<open>Tables an operation on jobs, tickets, dependencies and leases leaves alone.\<close>

definition same_scans :: "db \<Rightarrow> db \<Rightarrow> bool" where
  "same_scans db db' \<longleftrightarrow> scan_sessions db' = scan_sessions db \<and>
     scan_observation_batches db' = scan_observation_batches db \<and> scan_observations db' = scan_observations db \<and>
     file_locations db' = file_locations db \<and> node_incarnations db' = node_incarnations db"

definition same_issues :: "db \<Rightarrow> db \<Rightarrow> bool" where
  "same_issues db db' \<longleftrightarrow> issues db' = issues db \<and> issue_links db' = issue_links db"

lemma scan_inv_same:
  assumes "same_scans db db'"
  shows "scan_inv db' \<longleftrightarrow> scan_inv db"
proof -
  note eqs = assms [unfolded same_scans_def]
  have "session_ledger db' i = session_ledger db i" "session_rows db' i = session_rows db i" for i
    using eqs by (simp_all add: session_ledger_def session_rows_def)
  then have "ledger_ok db' s \<longleftrightarrow> ledger_ok db s" for s
    by (simp add: ledger_ok_def session_locators_def)
  moreover have "owner_incarnation_valid db' s \<longleftrightarrow> owner_incarnation_valid db s" for s
    using eqs by (simp add: owner_incarnation_valid_def incarnation_by_id_def split: option.split)
  moreover have "attributed_location_count db' s = attributed_location_count db s" for s
    using eqs by (simp add: attributed_location_count_def)
  ultimately show ?thesis using eqs by (simp add: scan_inv_def retirements_ok_def)
qed

lemma issue_inv_same: "same_issues db db' \<Longrightarrow> issue_inv db' \<longleftrightarrow> issue_inv db"
  by (simp add: issue_inv_def same_issues_def)

lemma evolves_core:
  assumes "store_inv db \<Longrightarrow> refines db db'"
    and "store_inv db \<Longrightarrow> same_scans db db' \<and> same_issues db db' \<and> events db' = events db"
  shows "evolves db db'"
  unfolding evolves_def
proof
  assume inv: "store_inv db"
  note eqs = assms(2) [OF inv] and ref = assms(1) [OF inv]
  have "store_inv db'" unfolding store_inv_def
  proof (intro conjI)
    show "good_db db'" using refines_good [OF ref] inv by (simp add: store_inv_def)
    show "issue_inv db'" using eqs inv issue_inv_same unfolding store_inv_def by blast
    show "scan_inv db'" using eqs inv scan_inv_same unfolding store_inv_def by blast
    show "failures_filed db'"
      using eqs inv by (simp add: store_inv_def failures_filed_def filed_under_def same_issues_def)
  qed
  moreover have "act\<^sup>*\<^sup>* (abs_exec db) (abs_exec db')" using ref inv by (simp add: refines_def store_inv_def)
  ultimately show "store_inv db' \<and> act\<^sup>*\<^sup>* (abs_exec db) (abs_exec db') \<and> prefix (events db) (events db') \<and>
     (\<forall>i \<in> set (issues db). \<exists>j \<in> set (issues db'). same_issue i j) \<and>
     (\<forall>s \<in> set (scan_sessions db). \<exists>t \<in> set (scan_sessions db'). scan_later s t)"
    using eqs by (auto simp: same_issues_def same_scans_def intro: same_issue_refl scan_later_refl)
qed

text \<open>Appending an event; a terminal failure may be logged only once its issue exists.\<close>

definition logged :: "db \<Rightarrow> instant \<Rightarrow> subject_type \<Rightarrow> nat \<Rightarrow> event \<Rightarrow> db" where
  "logged db now subject i payload = db\<lparr>events := events db @
     [\<lparr> ev_occurred_at = now, ev_subject_type = subject, ev_subject_id = Some i, ev_payload = payload \<rparr>]\<rparr>"

lemma append_event_Inr:
  "append_event subject (Some i) now payload db = (Inr u, db') \<longleftrightarrow>
     i < 2 ^ 63 \<and> db' = logged db now subject i payload"
  by (simp add: append_event_def bind_i64_option_def bind_i64_Inr logged_def)

lemma logged_fields [simp]:
  "tickets (logged db now subject i p) = tickets db" "leases (logged db now subject i p) = leases db"
  "jobs (logged db now subject i p) = jobs db" "issues (logged db now subject i p) = issues db"
  "scan_sessions (logged db now subject i p) = scan_sessions db"
  "ticket_dependencies (logged db now subject i p) = ticket_dependencies db"
  "ticket_states (logged db now subject i p) = ticket_states db"
  "lease_states (logged db now subject i p) = lease_states db"
  "job_states (logged db now subject i p) = job_states db"
  "ticket_by_id (logged db now subject i p) = ticket_by_id db"
  by (simp_all add: logged_def states_defs ticket_by_id_def fun_eq_iff)

lemma replay_logged [simp]:
  "replay says (events (logged db now subject i p)) =
     (case says p of None \<Rightarrow> replay says (events db) | Some (j, st) \<Rightarrow> (replay says (events db))(j \<mapsto> st))"
  by (simp add: logged_def)

lemma evolves_logged:
  assumes "\<And>t issue_id. terminal_fact p = Some (t, issue_id) \<Longrightarrow> filed_under db t issue_id"
  shows "evolves db (logged db now subject i p)"
  unfolding evolves_def
proof (intro impI conjI)
  let ?db = "logged db now subject i p"
  assume inv: "store_inv db"
  have "same_scans db ?db" "same_issues db ?db" by (simp_all add: same_scans_def same_issues_def logged_def)
  then have "issue_inv ?db" "scan_inv ?db" using inv issue_inv_same scan_inv_same unfolding store_inv_def by blast+
  moreover have "abs_exec ?db = abs_exec db" by (simp add: logged_def)
  moreover have "wf_db ?db" using store_inv_good(2) [OF inv] by (simp add: wf_db_def logged_def)
  moreover have "failures_filed ?db"
    using inv assms by (auto simp: store_inv_def failures_filed_def filed_under_def logged_def)
  ultimately show "store_inv ?db" "act\<^sup>*\<^sup>* (abs_exec db) (abs_exec ?db)"
    using inv by (simp_all add: store_inv_def good_db_def)
  show "prefix (events db) (events ?db)" by (simp add: logged_def)
qed (auto intro: same_issue_refl scan_later_refl)

text \<open>Writing issues, and writing scan sessions.\<close>

lemma issue_step_fields:
  assumes "issue_step db db'"
  shows "tickets db' = tickets db" "leases db' = leases db" "jobs db' = jobs db" "events db' = events db"
    "ticket_states db' = ticket_states db" "lease_states db' = lease_states db" "job_states db' = job_states db"
    "ticket_by_id db' = ticket_by_id db" "same_scans db db'"
  using assms by (auto simp: issue_step_def states_defs same_scans_def ticket_by_id_def fun_eq_iff)

lemma filed_under_same:
  assumes "filed_under db t i" and "\<And>r. r \<in> set (issues db) \<Longrightarrow> \<exists>s \<in> set (issues db'). same_issue r s"
  shows "filed_under db' t i"
proof -
  from assms(1) obtain r where r: "r \<in> set (issues db)" "i = Some (is_id r)" "is_kind r = TerminalFailure"
      "is_dedupe_key r = Some (terminal_failure_dedupe_key t)" by (auto simp: filed_under_def)
  obtain s where "s \<in> set (issues db')" "same_issue r s" using assms(2) [OF r(1)] by blast
  then show ?thesis using r unfolding filed_under_def by (intro bexI [of _ s]) (auto simp: same_issue_def)
qed

lemma evolves_issue:
  assumes step: "issue_step db db'"
  shows "evolves db db'"
  unfolding evolves_def
proof (intro impI conjI)
  assume inv: "store_inv db"
  note fields = issue_step_fields [OF step]
  have keep: "\<exists>j \<in> set (issues db'). same_issue i j" if "i \<in> set (issues db)" for i
    using step that by (simp add: issue_step_def)
  have ref: "refines db db'" by (rule issue_step_refines [OF step])
  have "issue_inv db'" using step inv by (simp add: issue_step_def store_inv_def)
  moreover have "failures_filed db'" using inv fields(4) filed_under_same [OF _ keep]
    unfolding store_inv_def failures_filed_def by auto
  moreover have "scan_inv db'" using inv scan_inv_same [OF fields(9)] by (simp add: store_inv_def)
  ultimately show "store_inv db'" using refines_good [OF ref] inv by (simp add: store_inv_def)
  show "act\<^sup>*\<^sup>* (abs_exec db) (abs_exec db')" using ref inv by (simp add: refines_def store_inv_def)
  show "prefix (events db) (events db')" using fields(4) by simp
  show "\<forall>i \<in> set (issues db). \<exists>j \<in> set (issues db'). same_issue i j" using keep by blast
  show "\<forall>s \<in> set (scan_sessions db). \<exists>t \<in> set (scan_sessions db'). scan_later s t"
    using fields(9) by (auto simp: same_scans_def intro: scan_later_refl)
qed

lemma evolves_scans:
  assumes step: "scan_step db db'" and eqs: "db' = db\<lparr>scan_sessions := ss\<rparr>"
  shows "evolves db db'"
  unfolding evolves_def
proof (intro impI conjI)
  assume inv: "store_inv db"
  have "same_issues db db'" using eqs by (simp add: same_issues_def)
  then have "issue_inv db'" using inv issue_inv_same unfolding store_inv_def by blast
  moreover have "failures_filed db'"
    using inv eqs by (simp add: store_inv_def failures_filed_def filed_under_def)
  moreover have abs: "abs_exec db' = abs_exec db" using eqs by (simp add: abs_exec_def)
  moreover have "wf_db db'" using store_inv_good(2) [OF inv] eqs by (simp add: wf_db_def)
  ultimately show "store_inv db'" using step inv by (simp add: store_inv_def good_db_def scan_step_def)
  show "act\<^sup>*\<^sup>* (abs_exec db) (abs_exec db')" using abs by simp
  show "\<forall>s \<in> set (scan_sessions db). \<exists>t \<in> set (scan_sessions db'). scan_later s t"
    using step inv by (simp add: scan_step_def store_inv_def)
qed (use eqs in \<open>auto intro: same_issue_refl\<close>)

text \<open>The issue a handler opens for a terminal failure, followed by the event that names it.\<close>

lemma open_failure_filed:
  assumes "open_terminal_failure_issue_in_tx t l failure reason now db = (Inr i, db')"
  shows "issue_step db db'" "filed_under db' t (Some i)"
  using open_failure_step [OF assms [unfolded open_terminal_failure_issue_in_tx_def]]
    open_failure_row [OF assms [unfolded open_terminal_failure_issue_in_tx_def]]
  by (auto simp: filed_under_def)

definition ticket_noted :: "nat \<Rightarrow> ticket_state \<Rightarrow> db \<Rightarrow> db \<Rightarrow> bool" where
  "ticket_noted t st db db' \<longleftrightarrow> evolves db db' \<and> tickets db' = tickets db \<and> leases db' = leases db \<and> jobs db' = jobs db \<and>
     replay ticket_fact (events db') = (replay ticket_fact (events db))(t \<mapsto> st) \<and>
     replay lease_fact (events db') = replay lease_fact (events db) \<and>
     replay job_fact (events db') = replay job_fact (events db)"

lemma evolves_plain: "terminal_fact p = None \<Longrightarrow> evolves db (logged db now subject i p)"
  by (rule evolves_logged) simp

lemma ticket_logged_noted:
  assumes "ticket_fact p = Some (t, st)" "lease_fact p = None" "job_fact p = None" "terminal_fact p = None"
  shows "ticket_noted t st db (logged db now subject i p)"
  using assms by (simp add: ticket_noted_def evolves_plain)

lemma terminal_failure_noted:
  assumes run: "open_terminal_failure_issue_in_tx t l failure reason now db = (Inr i, db1)"
    and log: "db2 = logged db1 now subject k (TicketFailedTerminalEvent t attempt max_attempts reason failure (Some i))"
  shows "ticket_noted t Failed db db2"
proof -
  note filed = open_failure_filed [OF run]
  have "evolves db1 db2" unfolding log by (rule evolves_logged) (use filed(2) in simp)
  then have "evolves db db2" using evolves_trans evolves_issue [OF filed(1)] by blast
  then show ?thesis using issue_step_fields [OF filed(1)] log by (simp add: ticket_noted_def)
qed

section \<open>Every handler keeps the store and its log in step\<close>

lemma audited_core:
  assumes "store_inv db \<Longrightarrow> refines db db1"
    and "store_inv db \<Longrightarrow> same_scans db db1 \<and> same_issues db db1 \<and> events db1 = events db"
    and "evolves db1 db'"
    and "store_inv db \<Longrightarrow> log_matches db \<Longrightarrow> log_matches db'"
  shows "audited db db'"
  using evolves_trans [OF evolves_core [OF assms(1,2)] assms(3)] assms(4) by (simp add: audited_def)

lemma logged_twice:
  "terminal_fact p = None \<Longrightarrow> terminal_fact q = None \<Longrightarrow>
     evolves db (logged (logged db now subject i p) now' subject' j q)"
  by (meson evolves_plain evolves_trans)

subsection \<open>Jobs\<close>

lemma open_job_audited:
  assumes "open_job_in_tx input db = (Inr job, db')"
  shows "audited db db'"
proof -
  from assms obtain db1 where run: "job_create_in_tx input db = (Inr job, db1)"
    and db': "db' = logged db1 (nj_created_at input) JobSubject (j_id job)
      (JobOpenedEvent (j_id job) (nj_kind input) (nj_priority input))"
    by (auto simp: open_job_in_tx_def bind_tx_Inr append_event_Inr)
  have db1: "db1 = db\<lparr>jobs := jobs db @ [job]\<rparr>" "j_id job = next_rowid j_id (jobs db)" "j_state job = JobOpen"
    using run by (auto simp: job_create_in_tx_def Let_def)
  show ?thesis
  proof (rule audited_core [of _ db1])
    show "refines db db1" by (rule job_create_refines [OF run])
    show "evolves db1 db'" unfolding db' by (rule evolves_plain) simp
    show "log_matches db'" if "log_matches db"
      using that db1 table_map_next_rowid [OF db1(2), of j_state]
      by (simp add: log_matches_def db' states_defs)
  qed (simp add: db1 same_scans_def same_issues_def)
qed

lemma close_job_audited:
  assumes run: "transition_open_to i st now db = (Inr job, db1)"
    and db': "db' = logged db1 now JobSubject i p"
    and p: "job_fact p = Some (i, st)" "ticket_fact p = None" "lease_fact p = None" "terminal_fact p = None"
  shows "audited db db'"
proof (rule audited_core [of _ db1])
  show "refines db db1" by (rule transition_open_to_refines [OF run])
  show "evolves db1 db'" unfolding db' by (rule evolves_plain) (rule p)
  assume inv: "store_inv db"
  have wf: "wf_table j_id (jobs db)" using store_inv_good(2) [OF inv] by (simp add: wf_db_def)
  from run obtain j where j: "j \<in> set (jobs db)" "j_id j = i" "j_state j = JobOpen"
    and db1: "db1 = db\<lparr>jobs := update_where (\<lambda>j. j_id j = i \<and> j_state j = JobOpen)
      (\<lambda>j. j\<lparr>j_state := st, j_updated_at := now, j_epoch := j_epoch j + 1\<rparr>) (jobs db)\<rparr>"
    by (auto simp: transition_open_to_Inr [OF wf])
  show "same_scans db db1 \<and> same_issues db db1 \<and> events db1 = events db"
    by (simp add: db1 same_scans_def same_issues_def)
  show "log_matches db'" if "log_matches db"
    using that p j(3) table_map_update [OF wf j(1,2), of "\<lambda>j. j_state j = JobOpen" "\<lambda>j. j\<lparr>j_state := st, j_updated_at := now, j_epoch := j_epoch j + 1\<rparr>" j_state]
    by (simp add: log_matches_def db' db1 states_defs)
qed

subsection \<open>Tickets\<close>

lemma create_ticket_audited:
  assumes "create_ticket_in_tx input db = (Inr t, db')"
  shows "audited db db'"
proof -
  from assms obtain db1 where run: "ticket_create_in_tx input db = (Inr t, db1)"
    and db': "db' = logged db1 (nt_created_at input) TicketSubject (t_id t)
      (TicketCreatedEvent (t_id t) (nt_job_id input) (nt_kind input) (nt_priority input) (nt_max_attempts input))"
    by (auto simp: create_ticket_in_tx_def bind_tx_Inr append_event_Inr)
  show ?thesis
  proof (rule audited_core [of _ db1])
    show "refines db db1" by (rule ticket_create_refines [OF run])
    show "evolves db1 db'" unfolding db' by (rule evolves_plain) simp
    assume inv: "store_inv db"
    note shape = ticket_create_Inr [OF run wf_db_tables(2) [OF store_inv_good(2) [OF inv]]]
    then have id: "t_id t = next_rowid t_id (tickets db)" and db1: "db1 = db\<lparr>tickets := tickets db @ [t]\<rparr>"
      and st: "t_state t = Pending" by auto
    show "same_scans db db1 \<and> same_issues db db1 \<and> events db1 = events db"
      by (simp add: db1 same_scans_def same_issues_def)
    show "log_matches db'" if "log_matches db"
      using that st table_map_next_rowid [OF id, of t_state] by (simp add: log_matches_def db' db1 states_defs)
  qed
qed

lemma ticket_update_states:
  assumes "wf_db db" and "t \<in> set (tickets db)" "t_id t = i" "q t" and "\<And>t. t_id (f t) = t_id t"
  shows "table_map t_id t_state (update_where (\<lambda>t. t_id t = i \<and> q t) f (tickets db)) =
    (ticket_states db)(i \<mapsto> t_state (f t))"
  using table_map_update [OF wf_db_tables(2) [OF assms(1)], of t i q f t_state] assms(2-5)
  by (simp add: ticket_states_def)

lemma promote_audited:
  assumes "promote_in_tx i now db = (Inr ts, db')"
  shows "audited db db'"
proof (cases "store_inv db")
  case inv: True
  note wf = store_inv_good(2) [OF inv]
  from assms obtain db1 us where run: "mark_ready_if_unblocked_in_tx i now db = (Inr ts, db1)"
    and loop: "for_tx (\<lambda>t. append_event TicketSubject (Some (t_id t)) now (TicketReadyEvent (t_id t))) ts db1 = (Inr us, db')"
    by (auto simp: promote_in_tx_def bind_tx_Inr)
  from mark_ready_Inr [OF run wf] show ?thesis
  proof
    assume "ts = [] \<and> db1 = db"
    then show ?thesis using loop by simp
  next
    let ?f = "\<lambda>t. t\<lparr>t_state := Ready, t_state_changed_at := now, t_epoch := t_epoch t + 1\<rparr>"
    assume "\<exists>r \<in> set (tickets db). t_id r = i \<and> t_state r = Pending \<and> unsucceeded_dependencies db i = 0 \<and>
      ts = [?f r] \<and> db1 = db\<lparr>tickets := update_where (\<lambda>t. t_id t = i \<and> t_state t = Pending) ?f (tickets db)\<rparr>"
    then obtain r where r: "r \<in> set (tickets db)" "t_id r = i" "t_state r = Pending" and ts: "ts = [?f r]"
      and db1: "db1 = db\<lparr>tickets := update_where (\<lambda>t. t_id t = i \<and> t_state t = Pending) ?f (tickets db)\<rparr>" by blast
    have db': "db' = logged db1 now TicketSubject i (TicketReadyEvent i)"
      using loop r by (auto simp: ts bind_tx_Inr append_event_Inr)
    show ?thesis
    proof (rule audited_core [of _ db1])
      show "refines db db1" by (rule mark_ready_refines [OF run])
      show "evolves db1 db'" unfolding db' by (rule evolves_plain) simp
      show "log_matches db'" if "log_matches db"
        using that ticket_update_states [OF wf r(1,2), of "\<lambda>t. t_state t = Pending" ?f] r(3)
        by (simp add: log_matches_def db' db1 states_defs)
    qed (simp add: db1 same_scans_def same_issues_def)
  qed
qed (simp add: audited_def evolves_def)

definition pre_lease_row :: "pre_lease_failure_transition \<Rightarrow> nat \<Rightarrow> instant \<Rightarrow> ticket \<Rightarrow> ticket" where
  "pre_lease_row transition next_attempt now t = t\<lparr>
     t_state := (case transition of Terminal \<Rightarrow> Failed | RetryAt _ \<Rightarrow> Ready), t_state_changed_at := now,
     t_attempt := next_attempt,
     t_next_eligible_at := (case transition of Terminal \<Rightarrow> t_next_eligible_at t | RetryAt at \<Rightarrow> at),
     t_epoch := t_epoch t + 1\<rparr>"

lemma pre_lease_row_fields [simp]:
  "t_id (pre_lease_row tr n now t) = t_id t" "t_attempt (pre_lease_row tr n now t) = n"
  "t_max_attempts (pre_lease_row tr n now t) = t_max_attempts t" "t_result (pre_lease_row tr n now t) = t_result t"
  "t_state (pre_lease_row tr n now t) = (case tr of Terminal \<Rightarrow> Failed | RetryAt _ \<Rightarrow> Ready)"
  by (simp_all add: pre_lease_row_def)

abbreviation awaiting :: "nat \<Rightarrow> nat \<Rightarrow> instant \<Rightarrow> ticket \<Rightarrow> bool" where
  "awaiting i attempt now t \<equiv> t_id t = i \<and> t_state t = Ready \<and> t_attempt t = attempt \<and> t_next_eligible_at t \<le> now"

lemma pre_lease_transition_Inr:
  assumes "transition_ready_before_lease_failure_in_tx i attempt n tr now db = (Inr t', db')"
  obtains t where "t \<in> set (tickets db)" "awaiting i attempt now t" "t' = pre_lease_row tr n now t"
    "db' = db\<lparr>tickets := update_where (awaiting i attempt now) (pre_lease_row tr n now) (tickets db)\<rparr>"
proof -
  have row: "t\<lparr>t_state := (case tr of Terminal \<Rightarrow> Failed | RetryAt _ \<Rightarrow> Ready), t_state_changed_at := now,
      t_attempt := n, t_next_eligible_at := (case (case tr of Terminal \<Rightarrow> None | RetryAt at \<Rightarrow> Some at) of
        None \<Rightarrow> t_next_eligible_at t | Some at \<Rightarrow> at), t_epoch := t_epoch t + 1\<rparr> = pre_lease_row tr n now t" for t
    by (simp add: pre_lease_row_def split: pre_lease_failure_transition.split)
  show thesis using assms that unfolding transition_ready_before_lease_failure_in_tx_def Let_def row
    by (auto simp: bind_i64_Inr dest!: find_Some_in split: option.splits)
qed

lemma pre_lease_refines:
  assumes run: "transition_ready_before_lease_failure_in_tx i attempt (attempt + 1) tr now db = (Inr t', db')"
    and retry: "tr \<noteq> Terminal \<Longrightarrow> attempt + 1 < t_max_attempts t'"
  shows "refines db db'"
proof (rule refines_act)
  assume good: "good_db db"
  then have wf: "wf_db db" by blast
  from run obtain t where t: "t \<in> set (tickets db)" "awaiting i attempt now t"
    and t': "t' = pre_lease_row tr (attempt + 1) now t"
    and db': "db' = db\<lparr>tickets := update_where (awaiting i attempt now) (pre_lease_row tr (attempt + 1) now) (tickets db)\<rparr>"
    by (rule pre_lease_transition_Inr)
  show "wf_db db'" unfolding db'
    by (rule wf_db_tickets [OF wf]) (use wf in \<open>auto simp: wf_db_def split: pre_lease_failure_transition.split\<close>)
  have row: "x_tickets (abs_exec db) i = Some (abs_ticket t)"
    using t ticket_by_id_Some [OF wf, of i t] by (simp add: x_tickets_abs [OF wf])
  have "inv_attempts (abs_exec db)" using good by (simp add: good_db_def exec_inv_def)
  then have "at_state (abs_ticket t) \<in> {Pending, Ready} \<longrightarrow> at_attempt (abs_ticket t) < at_max (abs_ticket t)"
    using row unfolding inv_attempts_def by blast
  then have "t_attempt t < t_max_attempts t" using t by (simp add: abs_ticket_def)
  moreover have "abs_exec db' = (abs_exec db)\<lparr>x_tickets := (x_tickets (abs_exec db))(i \<mapsto>
      (abs_ticket t)\<lparr>at_state := t_state t', at_attempt := Suc (at_attempt (abs_ticket t))\<rparr>)\<rparr>"
    using abs_exec_ticket_update [OF wf t(1), of "\<lambda>t. t_state t = Ready \<and> t_attempt t = attempt \<and> t_next_eligible_at t \<le> now"
        "pre_lease_row tr (attempt + 1) now"] t t'
    by (simp add: db' abs_ticket_def)
  moreover have "t_state t' = Failed \<or> t_state t' = Ready \<and> Suc (t_attempt t) < t_max_attempts t"
    using retry t t' by (cases tr) simp_all
  ultimately show "act (abs_exec db) (abs_exec db')"
    using act_prelease [OF row, of "t_state t'"] t by (simp add: abs_ticket_def)
qed

lemma pre_lease_emitted:
  assumes "emit_pre_lease_failure_event t terminal reason failure now db = (Inr u, db')"
  shows "ticket_noted (t_id t) (if terminal then Failed else Ready) db db'"
proof (cases terminal)
  case True
  with assms obtain k db1 where
      "open_terminal_failure_issue_in_tx (t_id t) None failure reason now db = (Inr k, db1)"
      "db' = logged db1 now TicketSubject (t_id t)
        (TicketFailedTerminalEvent (t_id t) (t_attempt t) (t_max_attempts t) reason failure (Some k))"
    by (auto simp: emit_pre_lease_failure_event_def bind_tx_Inr append_event_Inr)
  then show ?thesis using terminal_failure_noted True by simp
next
  case False
  with assms show ?thesis
    by (auto simp: emit_pre_lease_failure_event_def append_event_Inr intro: ticket_logged_noted)
qed

lemma pre_lease_failure_Inr:
  assumes "record_pre_lease_ticket_failure i failure now draw db = (Inr out, db')"
  obtains reason t t' db1 tr where "pre_lease_failure_reason failure = Inr reason" "ticket_by_id db i = Some t"
    "po_terminal out \<longleftrightarrow> failure = failure_class.AmbiguousWorkerSelection \<or> t_max_attempts t \<le> t_attempt t + 1"
    "tr = (if po_terminal out then Terminal else RetryAt (now + default_backoff (t_attempt t + 1) draw))"
    "transition_ready_before_lease_failure_in_tx (t_id t) (t_attempt t) (t_attempt t + 1) tr now db = (Inr t', db1)"
    "emit_pre_lease_failure_event t' (po_terminal out) reason failure now db1 = (Inr (), db')"
proof -
  from assms obtain reason t terminal where *: "pre_lease_failure_reason failure = Inr reason" "ticket_by_id db i = Some t"
      "terminal \<longleftrightarrow> failure = failure_class.AmbiguousWorkerSelection \<or> t_max_attempts t \<le> t_attempt t + 1"
    and body: "bind_tx (transition_pre_lease_failure_ticket t (t_attempt t + 1) terminal now draw)
      (\<lambda>t'. bind_tx (emit_pre_lease_failure_event t' terminal reason failure now) (\<lambda>_.
        return_tx \<lparr> po_ticket = t', po_terminal = terminal \<rparr>)) db = (Inr out, db')"
    unfolding record_pre_lease_ticket_failure_def
    by (auto simp: bind_tx_Inr ticket_get_in_tx_def bind_i64_Inr require_no_held_lease_def
        has_held_for_ticket_in_tx_def Let_def split: option.splits if_splits)
  from body obtain t' db1 where
      "transition_pre_lease_failure_ticket t (t_attempt t + 1) terminal now draw db = (Inr t', db1)"
      "emit_pre_lease_failure_event t' terminal reason failure now db1 = (Inr (), db')"
      "po_terminal out = terminal"
    by (auto simp: bind_tx_Inr)
  then show thesis using that [OF *(1,2)] *(3)
    by (simp add: transition_pre_lease_failure_ticket_def cong: if_cong)
qed

lemma pre_lease_failure_audited:
  assumes "record_pre_lease_ticket_failure i failure now draw db = (Inr out, db')"
  shows "audited db db'"
  using assms
proof (rule pre_lease_failure_Inr)
  fix reason t t' db1 tr
  assume t: "ticket_by_id db i = Some t"
    and terminal: "po_terminal out \<longleftrightarrow> failure = failure_class.AmbiguousWorkerSelection \<or> t_max_attempts t \<le> t_attempt t + 1"
    and tr: "tr = (if po_terminal out then Terminal else RetryAt (now + default_backoff (t_attempt t + 1) draw))"
    and run: "transition_ready_before_lease_failure_in_tx (t_id t) (t_attempt t) (t_attempt t + 1) tr now db = (Inr t', db1)"
    and emit: "emit_pre_lease_failure_event t' (po_terminal out) reason failure now db1 = (Inr (), db')"
  from run obtain u where u: "u \<in> set (tickets db)" "awaiting (t_id t) (t_attempt t) now u"
    and t': "t' = pre_lease_row tr (t_attempt t + 1) now u"
    and db1: "db1 = db\<lparr>tickets := update_where (awaiting (t_id t) (t_attempt t) now)
      (pre_lease_row tr (t_attempt t + 1) now) (tickets db)\<rparr>"
    by (rule pre_lease_transition_Inr)
  note noted = pre_lease_emitted [OF emit]
  show "audited db db'"
  proof (rule audited_core [of _ db1])
    assume inv: "store_inv db"
    note wf = store_inv_good(2) [OF inv]
    have "u = t" using u t ticket_by_id_Some [OF wf] wf_table_same [OF wf_db_tables(2) [OF wf]] by blast
    then show "refines db db1"
      using pre_lease_refines [OF run] t' by (cases "po_terminal out") (auto simp: tr terminal)
    have "ticket_states db1 = (ticket_states db)(t_id t \<mapsto> t_state t')"
      using ticket_update_states [OF wf u(1), of "t_id t"
          "\<lambda>u. t_state u = Ready \<and> t_attempt u = t_attempt t \<and> t_next_eligible_at u \<le> now"] u(2) t'
      by (simp add: db1 states_defs)
    then show "log_matches db'" if "log_matches db"
      using that noted t' u(2) by (auto simp: ticket_noted_def log_matches_def db1 states_defs tr split: if_splits)
  qed (use noted in \<open>simp_all add: db1 same_scans_def same_issues_def ticket_noted_def\<close>)
qed

subsection \<open>Leases\<close>

lemma acquired_states:
  assumes wf: "wf_db db" and t: "ticket_by_id db (nle_ticket_id input) = Some t"
    and may: "may_lease db (nle_ticket_id input) (nle_now input) t"
  shows "ticket_states (acquired_db db input) = (ticket_states db)(nle_ticket_id input \<mapsto> Leased)"
    "lease_states (acquired_db db input) = (lease_states db)(l_id (acquired_row db input) \<mapsto> Held)"
proof -
  have in_t: "t \<in> set (tickets db)" "t_id t = nle_ticket_id input" using t ticket_by_id_Some [OF wf] by auto
  let ?q = "\<lambda>r. t_state r = Ready \<and> t_next_eligible_at r \<le> nle_now input \<and>
     t_attempt r < t_max_attempts r \<and> job_allows db r"
  have p: "may_lease db (nle_ticket_id input) (nle_now input) = (\<lambda>r. t_id r = nle_ticket_id input \<and> ?q r)"
    by (rule ext) (simp add: may_lease_def)
  show "ticket_states (acquired_db db input) = (ticket_states db)(nle_ticket_id input \<mapsto> Leased)"
    using ticket_update_states [OF wf in_t, of ?q "leased_row (nle_now input)"] may
    by (simp add: states_defs acquired_db_def p) (simp add: leased_row_def)
  show "lease_states (acquired_db db input) = (lease_states db)(l_id (acquired_row db input) \<mapsto> Held)"
    using table_map_next_rowid [of l_id "acquired_row db input" "leases db" l_state]
    by (simp add: states_defs acquired_db_def acquired_row_def)
qed

lemma try_acquire_lease_audited:
  assumes "try_acquire_lease_in_tx input db = (Inr out, db')"
  shows "audited db db'"
proof -
  from assms obtain out' db1 where run: "try_acquire_in_tx input db = (Inr out', db1)"
    and rest: "(case out' of
       Acquired lease \<Rightarrow>
         bind_tx (append_event LeaseSubject (Some (l_id lease)) (nle_now input)
           (LeaseAcquiredEvent (l_id lease) (l_ticket_id lease) (l_worker_id lease) (l_ttl_seconds lease)
             (l_expires_at lease))) (\<lambda>_.
         bind_tx (ticket_get_in_tx (l_ticket_id lease)) (\<lambda>found. case found of None \<Rightarrow> throw_tx Internal
         | Some ticket \<Rightarrow>
             bind_tx (append_event TicketSubject (Some (t_id ticket)) (nle_now input)
               (TicketLeasedEvent (t_id ticket) (l_id lease) (l_worker_id lease) (t_attempt ticket))) (\<lambda>_.
             return_tx out')))
     | _ \<Rightarrow> return_tx out') db1 = (Inr out, db')"
    by (auto simp: try_acquire_lease_in_tx_def bind_tx_Inr)
  show ?thesis
  proof (cases "\<exists>l. out' = Acquired l")
    case False
    then have "db1 = db" using run
      by (auto simp: try_acquire_in_tx_def Let_def split: if_splits prod.splits sum.splits lease_acquire_outcome.splits)
    then show ?thesis using False rest by (cases out') auto
  next
    case True
    then obtain l where l: "out' = Acquired l" by blast
    from rest obtain t where t: "ticket_by_id db1 (l_ticket_id l) = Some t"
      and db': "db' = logged (logged db1 (nle_now input) LeaseSubject (l_id l) (LeaseAcquiredEvent (l_id l)
          (l_ticket_id l) (l_worker_id l) (l_ttl_seconds l) (l_expires_at l))) (nle_now input) TicketSubject (t_id t)
          (TicketLeasedEvent (t_id t) (l_id l) (l_worker_id l) (t_attempt t))"
      by (auto simp: l bind_tx_Inr append_event_Inr ticket_get_in_tx_def bind_i64_Inr split: option.splits)
    show ?thesis
    proof (rule audited_core [of _ db1])
      show "refines db db1" by (rule acquire_refines [OF run [unfolded l]])
      show "evolves db1 db'" unfolding db' by (rule logged_twice) simp_all
      assume inv: "store_inv db"
      note wf = store_inv_good(2) [OF inv]
      from acquire_Inr [OF run [unfolded l] wf] obtain r where
          r: "ticket_by_id db (nle_ticket_id input) = Some r" "may_lease db (nle_ticket_id input) (nle_now input) r"
        and row: "l = acquired_row db input" and db1: "db1 = acquired_db db input" by metis
      show "same_scans db db1 \<and> same_issues db db1 \<and> events db1 = events db"
        by (simp add: db1 acquired_db_def same_scans_def same_issues_def)
      have "t_id t = nle_ticket_id input"
        using t row find_Some_in [of "\<lambda>t. t_id t = l_ticket_id l"] by (auto simp: ticket_by_id_def acquired_row_def)
      then show "log_matches db'" if "log_matches db"
        using that acquired_states [OF wf r] row db1
        by (simp add: db' log_matches_def) (simp add: acquired_db_def job_states_def)
    qed
  qed
qed

lemma renewals_evolve:
  assumes "renew_extract_claims_for_lease_in_tx i expires now db = (Inr u, db1)"
    and "renew_synthesis_claims_for_lease_in_tx i expires now db1 = (Inr v, db')"
  shows "refines db db'" "same_scans db db' \<and> same_issues db db' \<and> events db' = events db"
    "tickets db' = tickets db" "leases db' = leases db" "jobs db' = jobs db"
  using assms
  by (auto simp: renew_extract_claims_for_lease_in_tx_def renew_synthesis_claims_for_lease_in_tx_def bind_i64_Inr
      same_scans_def same_issues_def wf_db_def intro!: refines_same)

lemma heartbeat_lease_audited:
  assumes "heartbeat_lease_in_tx i ttl now db = (Inr l, db')"
  shows "audited db db'"
proof -
  from assms obtain db1 db2 where run: "heartbeat_in_tx i ttl now db = (Inr l, db1)"
    and renew: "renew_extract_claims_for_lease_in_tx i (l_expires_at l) now db1 = (Inr (), db2)"
      "renew_synthesis_claims_for_lease_in_tx i (l_expires_at l) now db2 = (Inr (), db')"
    by (auto simp: heartbeat_lease_in_tx_def bind_tx_Inr)
  note renewed = renewals_evolve [OF renew]
  show ?thesis
  proof (rule audited_core [of _ db' db'])
    show "refines db db'" using heartbeat_refines [OF run] renewed(1) by (rule refines_trans)
    assume inv: "store_inv db"
    from heartbeat_Inr [OF run store_inv_good(2) [OF inv]]
    have db1: "db1 = db\<lparr>leases := update_where (\<lambda>r. l_id r = i \<and> l_state r = Held \<and> now < l_expires_at r)
       (heartbeat_row ttl now) (leases db)\<rparr>" by metis
    show "same_scans db db' \<and> same_issues db db' \<and> events db' = events db"
      using renewed(2) by (simp add: db1 same_scans_def same_issues_def)
    have "lease_states db' = lease_states db"
      unfolding lease_states_def renewed(4) db1 by simp (rule table_map_same, simp)
    then show "log_matches db'" if "log_matches db"
      using that renewed by (simp add: log_matches_def db1 ticket_states_def job_states_def)
  qed simp
qed

lemma lease_closed_states:
  assumes wf: "wf_db db" and pair: "held_pair db l t" and f: "ends_lease f st'"
  shows "ticket_states (lease_closed db l (close_row st reason now) t f) = (ticket_states db)(t_id t \<mapsto> st')"
    "lease_states (lease_closed db l (close_row st reason now) t f) = (lease_states db)(l_id l \<mapsto> st)"
  using ticket_update_states [OF wf, of t "t_id t" "\<lambda>t. t_state t = Leased" f] pair f
    table_map_update [OF wf_db_tables(3) [OF wf], of l "l_id l" "\<lambda>l. l_state l = Held" "close_row st reason now" l_state]
  by (auto simp: states_defs lease_closed_def held_pair_def ends_lease_def close_row_def)

text \<open>A handler that ends a held lease, logs the end, and logs what became of the ticket.\<close>

lemma lease_end_audited:
  assumes close: "store_inv db \<Longrightarrow> \<exists>l t f. held_pair db l t \<and> l_id l = i \<and> t_id t = k \<and> ends_lease f st' \<and>
      db1 = lease_closed db l (close_row st reason now) t f"
    and refines: "refines db db1"
    and log: "db2 = logged db1 now subject i p"
      "lease_fact p = Some (i, st)" "ticket_fact p = None" "job_fact p = None" "terminal_fact p = None"
    and noted: "ticket_noted k st' db2 db'"
  shows "audited db db'"
proof (rule audited_core [of _ db1])
  show "refines db db1" by (rule refines)
  show "evolves db1 db'"
    using evolves_plain [OF log(5)] noted evolves_trans unfolding log(1) ticket_noted_def by blast
  assume inv: "store_inv db"
  from close [OF inv] obtain l t f where pair: "held_pair db l t" "ends_lease f st'" and ids: "l_id l = i" "t_id t = k"
    and db1: "db1 = lease_closed db l (close_row st reason now) t f" by blast
  show "same_scans db db1 \<and> same_issues db db1 \<and> events db1 = events db"
    by (simp add: db1 lease_closed_def same_scans_def same_issues_def)
  have "job_states db1 = job_states db" "events db1 = events db" by (simp_all add: db1 lease_closed_def job_states_def)
  moreover have "ticket_states db1 = (ticket_states db)(k \<mapsto> st')" "lease_states db1 = (lease_states db)(i \<mapsto> st)"
    using lease_closed_states [OF store_inv_good(2) [OF inv] pair] ids db1 by simp_all
  moreover have "ticket_states db' = ticket_states db1" "lease_states db' = lease_states db1" "job_states db' = job_states db1"
    using noted log(1) by (simp_all add: ticket_noted_def states_defs)
  ultimately show "log_matches db'" if "log_matches db"
    using that noted log by (simp add: log_matches_def ticket_noted_def)
qed

definition dependents :: "db \<Rightarrow> nat \<Rightarrow> ticket list" where
  "dependents db i = sort_key t_id (concat (map (\<lambda>d. filter (\<lambda>t. t_id t = td_ticket_id d) (tickets db))
     (filter (\<lambda>d. td_depends_on_ticket_id d = i) (ticket_dependencies db))))"

definition release_logged :: "db \<Rightarrow> instant \<Rightarrow> lease \<Rightarrow> db" where
  "release_logged db now l = logged (logged db now LeaseSubject (l_id l) (released_event l)) now
     TicketSubject (l_ticket_id l) (TicketSucceededEvent (l_ticket_id l) (l_id l))"

lemma release_lease_Inr:
  "release_lease_in_tx i result now db = (Inr l, db') \<longleftrightarrow>
     (\<exists>db1 us. release_in_tx i result now db = (Inr l, db1) \<and> l_id l < 2 ^ 63 \<and> l_ticket_id l < 2 ^ 63 \<and>
       for_tx (\<lambda>dep. promote_in_tx (t_id dep) now) (dependents db1 (l_ticket_id l)) (release_logged db1 now l) =
         (Inr us, db'))"
  unfolding release_lease_in_tx_def bind_tx_Inr append_event_Inr list_dependents_in_tx_def bind_i64_Inr read_tx_Inr
    return_tx_Inr release_logged_def dependents_def
  by auto

lemma release_lease_audited:
  assumes "release_lease_in_tx i result now db = (Inr l, db')"
  shows "audited db db'"
proof -
  from assms obtain db1 us where run: "release_in_tx i result now db = (Inr l, db1)"
    and loop: "for_tx (\<lambda>dep. promote_in_tx (t_id dep) now) (dependents db1 (l_ticket_id l)) (release_logged db1 now l) =
      (Inr us, db')"
    unfolding release_lease_Inr by blast
  define db2 where db2: "db2 = logged db1 now LeaseSubject (l_id l) (released_event l)"
  define db3 where db3: "db3 = logged db2 now TicketSubject (l_ticket_id l) (TicketSucceededEvent (l_ticket_id l) (l_id l))"
  have "audited db db3"
  proof (rule lease_end_audited [OF _ release_refines [OF run] db2])
    show "\<exists>r t f. held_pair db r t \<and> l_id r = l_id l \<and> t_id t = l_ticket_id l \<and> ends_lease f Succeeded \<and>
      db1 = lease_closed db r (close_row Released ReasonReleased now) t f" if "store_inv db"
      using release_Inr [OF run store_inv_good(2) [OF that]]
      by (metis close_row_fields(1,2) held_pair_def ends_lease_rows(1))
    show "ticket_noted (l_ticket_id l) Succeeded db2 db3"
      unfolding db3 by (rule ticket_logged_noted) simp_all
  qed (simp_all add: released_event_def)
  moreover have "audited db3 db'"
    using loop [unfolded release_logged_def, folded db2, folded db3] by (rule for_tx_rel) (auto intro: promote_audited audited_trans)
  ultimately show ?thesis by (rule audited_trans)
qed

lemma fail_lease_Inr:
  assumes "fail_lease_in_tx i reason failure now draw db = (Inr l, db')"
  obtains db1 db2 t where "fail_in_tx i failure now draw db = (Inr l, db1)"
    "db2 = logged db1 now LeaseSubject (l_id l) (released_event l)"
    "ticket_by_id db1 (l_ticket_id l) = Some t" "t_state t \<in> {Ready, Failed}"
    "ticket_noted (t_id t) (t_state t) db2 db'"
proof -
  from assms obtain db1 db2 t u where run: "fail_in_tx i failure now draw db = (Inr l, db1)"
    and db2: "db2 = logged db1 now LeaseSubject (l_id l) (released_event l)"
    and t: "ticket_by_id db1 (l_ticket_id l) = Some t"
    and emit: "(if t_state t = Ready then
              append_event TicketSubject (Some (t_id t)) now
                (TicketFailedRetriableEvent (t_id t) (t_attempt t) (t_max_attempts t) reason failure
                  (t_next_eligible_at t))
            else if t_state t = Failed then
              bind_tx (open_terminal_failure_issue_in_tx (t_id t) (Some (l_id l)) failure reason now) (\<lambda>issue_id.
                append_event TicketSubject (Some (t_id t)) now
                  (TicketFailedTerminalEvent (t_id t) (t_attempt t) (t_max_attempts t) reason failure
                    (Some issue_id)))
            else throw_tx Internal) db2 = (Inr u, db')"
    unfolding fail_lease_in_tx_def
    by (auto simp: bind_tx_Inr append_event_Inr ticket_get_in_tx_def bind_i64_Inr split: option.splits)
  from emit have "t_state t \<in> {Ready, Failed}" "ticket_noted (t_id t) (t_state t) db2 db'"
    by (auto simp: append_event_Inr bind_tx_Inr intro: ticket_logged_noted terminal_failure_noted split: if_splits)
  then show thesis using that run db2 t by blast
qed

lemma lease_closed_ticket:
  assumes "wf_db db" and "held_pair db l t" and "ends_lease f st"
  shows "ticket_by_id (lease_closed db l g t f) (l_ticket_id l) = Some (f t)"
proof -
  have "wf_table t_id (update_where (\<lambda>r. t_id r = t_id t \<and> t_state r = Leased) f (tickets db))"
    using assms by (intro wf_table_update) (auto simp: wf_db_def ends_lease_def)
  moreover have "f t \<in> set (update_where (\<lambda>r. t_id r = t_id t \<and> t_state r = Leased) f (tickets db))"
    unfolding in_update_where using assms(2) by (intro bexI [of _ t]) (auto simp: held_pair_def)
  ultimately show ?thesis
    using assms(2,3) by (simp add: ticket_by_id_def lease_closed_def find_id held_pair_def ends_lease_def)
qed

lemma fail_lease_audited:
  assumes "fail_lease_in_tx i reason failure now draw db = (Inr l, db')"
  shows "audited db db'"
  using assms
proof (rule fail_lease_Inr)
  fix db1 db2 t
  assume run: "fail_in_tx i failure now draw db = (Inr l, db1)"
    and db2: "db2 = logged db1 now LeaseSubject (l_id l) (released_event l)"
    and t: "ticket_by_id db1 (l_ticket_id l) = Some t"
    and noted: "ticket_noted (t_id t) (t_state t) db2 db'"
  have close: "\<exists>r u f reason. held_pair db r u \<and> l_id r = l_id l \<and> t_id u = t_id t \<and> ends_lease f (t_state t) \<and>
      db1 = lease_closed db r (close_row Released reason now) u f" if "store_inv db"
    using run store_inv_good(2) [OF that]
  proof (cases rule: fail_Inr)
    case (retry r u)
    then have "t = requeued_row now (now + default_backoff (t_attempt u) draw) u"
      using t lease_closed_ticket [OF store_inv_good(2) [OF that] retry(1) ends_lease_rows(2)] by simp
    then have "t_state t = Ready" "t_id t = t_id u" by (simp_all add: requeued_row_def)
    with retry show ?thesis
      by (intro exI [of _ r] exI [of _ u] exI [of _ "requeued_row now (now + default_backoff (t_attempt u) draw)"]
          exI [of _ FailedRetriable]) simp
  next
    case (terminal r u)
    then have "t = failed_row now u"
      using t lease_closed_ticket [OF store_inv_good(2) [OF that] terminal(1) ends_lease_rows(3)] by simp
    then have "t_state t = Failed" "t_id t = t_id u" by (simp_all add: failed_row_def)
    with terminal show ?thesis
      by (intro exI [of _ r] exI [of _ u] exI [of _ "failed_row now"] exI [of _ FailedTerminal]) simp
  qed
  show "audited db db'"
  proof (cases "store_inv db")
    case True
    from close [OF True] obtain r u f res where "held_pair db r u \<and> l_id r = l_id l \<and> t_id u = t_id t \<and>
      ends_lease f (t_state t) \<and> db1 = lease_closed db r (close_row Released res now) u f" by blast
    then show ?thesis
      by (intro lease_end_audited [OF _ fail_refines [OF run] db2 _ _ _ _ noted]) (auto simp: released_event_def)
  qed (simp add: audited_def evolves_def)
qed

lemma force_release_audited:
  assumes "force_release_lease i actor reason requeue now db = (Inr out, db')"
  shows "audited db db'"
proof -
  from assms obtain db1 db2 u where run: "force_release_in_tx i requeue now db = (Inr out, db1)"
    and db2: "db2 = logged db1 now LeaseSubject (l_id (fr_lease out))
      (LeaseForceReleasedEvent (l_id (fr_lease out)) (l_ticket_id (fr_lease out)) actor reason requeue)"
    and emit: "(if fr_ticket_requeued out then
            append_event TicketSubject (Some (l_ticket_id (fr_lease out))) now
              (TicketRequeuedAfterForceReleaseEvent (l_ticket_id (fr_lease out)) (l_id (fr_lease out)) actor reason)
          else
            bind_tx (open_terminal_failure_issue_in_tx (l_ticket_id (fr_lease out)) (Some (l_id (fr_lease out)))
              failure_class.UserCancellation ''force-released without requeue'' now) (\<lambda>issue_id.
            append_event TicketSubject (Some (l_ticket_id (fr_lease out))) now
              (TicketFailedTerminalEvent (l_ticket_id (fr_lease out)) (fr_attempt out) (fr_max_attempts out)
                ''force-released without requeue'' failure_class.UserCancellation (Some issue_id)))) db2 = (Inr u, db')"
    unfolding force_release_lease_def by (auto simp: bind_tx_Inr append_event_Inr Let_def)
  have noted: "ticket_noted (l_ticket_id (fr_lease out)) (if fr_ticket_requeued out then Ready else Failed) db2 db'"
    using emit by (auto simp: append_event_Inr bind_tx_Inr intro: ticket_logged_noted terminal_failure_noted split: if_splits)
  show ?thesis
  proof (rule lease_end_audited [OF _ force_release_refines [OF run] db2 _ _ _ _ noted])
    assume inv: "store_inv db"
    from force_release_Inr [OF run store_inv_good(2) [OF inv]] obtain l t where *: "held_pair db l t"
      "out = \<lparr> fr_lease = close_row ForceReleased ReasonForceReleased now l, fr_ticket_requeued = requeue,
         fr_attempt = t_attempt t, fr_max_attempts = t_max_attempts t \<rparr>"
      "db1 = lease_closed db l (close_row ForceReleased ReasonForceReleased now) t
        (if requeue then requeued_row now now else failed_row now)" by metis
    then show "\<exists>r t f. held_pair db r t \<and> l_id r = l_id (fr_lease out) \<and> t_id t = l_ticket_id (fr_lease out) \<and>
        ends_lease f (if fr_ticket_requeued out then Ready else Failed) \<and>
        db1 = lease_closed db r (close_row ForceReleased ReasonForceReleased now) t f"
      by (intro exI [of _ l] exI [of _ t] exI [of _ "if requeue then requeued_row now now else failed_row now"])
        (auto simp: held_pair_def)
  qed simp_all
qed

subsection \<open>Failed routing tickets\<close>

text \<open>A step that neither changes nor mentions a job, a ticket or a lease.\<close>

definition quiet :: "db \<Rightarrow> db \<Rightarrow> bool" where
  "quiet db db' \<longleftrightarrow> evolves db db' \<and> tickets db' = tickets db \<and> leases db' = leases db \<and> jobs db' = jobs db \<and>
     replay ticket_fact (events db') = replay ticket_fact (events db) \<and>
     replay lease_fact (events db') = replay lease_fact (events db) \<and>
     replay job_fact (events db') = replay job_fact (events db)"

lemma quiet_refl [simp]: "quiet db db"
  by (simp add: quiet_def)

lemma quiet_trans: "quiet a b \<Longrightarrow> quiet b c \<Longrightarrow> quiet a c"
  unfolding quiet_def by (metis evolves_trans)

lemma quiet_audited: "quiet db db' \<Longrightarrow> audited db db'"
  by (simp add: quiet_def audited_def log_matches_def states_defs)

lemma quiet_logged:
  assumes "ticket_fact p = None" "lease_fact p = None" "job_fact p = None" "terminal_fact p = None"
  shows "quiet db (logged db now subject i p)"
  using assms by (simp add: quiet_def evolves_plain)

lemma terminalize_Inr:
  assumes "terminalize_in_tx i st reason now db = (Inr s, db')"
  shows "st \<notin> {ScanRequested, ScanRunning, ScanSucceeded} \<and> ss_status s = st \<and>
    db' = db\<lparr>scan_sessions := update_where (\<lambda>r. ss_id r = i \<and> scan_active_status (ss_status r))
      (terminal_row st reason now) (scan_sessions db)\<rparr>"
proof (cases "st \<in> {ScanRequested, ScanRunning, ScanSucceeded}")
  case True
  then show ?thesis using assms by (simp add: terminalize_in_tx_def)
next
  case False
  have decode: "row_to_scan_session r = Inr s \<Longrightarrow> s = r" for r
    by (auto simp: row_to_scan_session_def split: if_splits)
  from assms obtain rows r rest where
      *: "update_scan_sessions (\<lambda>r. ss_id r = i \<and> scan_active_status (ss_status r)) (terminal_row st reason now) db = (Inr rows, db')"
      "rows = r # rest" "row_to_scan_session r = Inr s"
    unfolding terminalize_in_tx_def if_not_P [OF False] with_session_Inr
    by (auto simp: bind_tx_Inr bind_i64_Inr first_row_Inr split: if_splits)
  have "s = r" using decode [OF *(3)] .
  with * show ?thesis using False unfolding update_scan_Inr
    by (auto simp: Cons_eq_map_conv terminal_row_def)
qed

lemma lifecycle_event_quiet:
  "append_lifecycle_event s now db = (Inr u, db') \<Longrightarrow> quiet db db' \<and> scan_sessions db' = scan_sessions db"
  by (auto simp: append_lifecycle_event_def Let_def append_event_Inr intro: quiet_logged split: scan_session_status.splits)

lemma terminalize_quiet:
  assumes "terminalize_in_tx i st reason now db = (Inr s, db')"
  shows "quiet db db'"
proof -
  have db': "db' = db\<lparr>scan_sessions := update_where (\<lambda>r. ss_id r = i \<and> scan_active_status (ss_status r))
      (terminal_row st reason now) (scan_sessions db)\<rparr>" using terminalize_Inr [OF assms] by simp
  have "evolves db db'" by (rule evolves_scans [OF terminalize_step [OF assms] db'])
  then show ?thesis by (simp add: quiet_def) (simp add: db')
qed

lemma scan_get_Inr:
  assumes "scan_get_in_tx i db = (Inr found, db')"
  shows "db' = db \<and> found = scan_session_by_id db i"
  using assms
  by (auto simp: scan_get_in_tx_def bind_i64_Inr optional_row_def map_sum_def row_to_inspected_scan_session_def
      row_to_scan_session_def split: option.splits sum.splits if_splits)

lemma fail_scan_Inr:
  assumes "fail_scan_for_failed_ticket_in_tx t now db = (Inr u, db')"
  obtains (other) "\<not> routes_scan_run t" "db' = db"
  | (ended) payload i owner root s where "routes_scan_run t" "parse_ticket (t_kind t) (t_payload t) = Some payload"
      "scan_routing payload = Inr (i, owner, root)" "scan_session_by_id db i = Some s"
      "ss_owner_node_id s = owner" "ss_storage_root_id s = root"
      "\<not> scan_active_status (ss_status s)" "db' = db"
  | (failed) payload i owner root s reason r db1 where "routes_scan_run t" "parse_ticket (t_kind t) (t_payload t) = Some payload"
      "scan_routing payload = Inr (i, owner, root)" "scan_session_by_id db i = Some s"
      "ss_owner_node_id s = owner" "ss_storage_root_id s = root"
      "scan_active_status (ss_status s)" "terminalize_in_tx i ScanFailed reason now db = (Inr r, db1)"
      "append_lifecycle_event r now db1 = (Inr u, db')"
proof (cases "routes_scan_run t")
  case False
  then show ?thesis using assms other by (simp add: fail_scan_for_failed_ticket_in_tx_def)
next
  case True
  from assms True obtain payload i owner root where p: "parse_ticket (t_kind t) (t_payload t) = Some payload"
      "scan_routing payload = Inr (i, owner, root)"
    and rest: "bind_tx (scan_get_in_tx i) (\<lambda>found. case found of None \<Rightarrow> throw_tx Database
          | Some session \<Rightarrow>
              if ss_storage_root_id session \<noteq> root \<or> ss_owner_node_id session \<noteq> owner then throw_tx Database
              else if ss_status session \<in> {ScanRequested, ScanRunning} then
                bind_tx (lift_res (scan_terminal_reason_new (''routing ticket '' @ show_nat (t_id t) @ '' failed''))) (\<lambda>reason.
                bind_tx (terminalize_in_tx i ScanFailed reason now) (\<lambda>failed.
                append_lifecycle_event failed now))
              else return_tx ()) db = (Inr u, db')"
    unfolding fail_scan_for_failed_ticket_in_tx_def
    by (auto simp: bind_tx_Inr split: option.splits)
  from rest obtain found where found: "found = scan_session_by_id db i" and body: "(case found of None \<Rightarrow> throw_tx Database
          | Some session \<Rightarrow>
              if ss_storage_root_id session \<noteq> root \<or> ss_owner_node_id session \<noteq> owner then throw_tx Database
              else if ss_status session \<in> {ScanRequested, ScanRunning} then
                bind_tx (lift_res (scan_terminal_reason_new (''routing ticket '' @ show_nat (t_id t) @ '' failed''))) (\<lambda>reason.
                bind_tx (terminalize_in_tx i ScanFailed reason now) (\<lambda>failed.
                append_lifecycle_event failed now))
              else return_tx ()) db = (Inr u, db')"
    unfolding bind_tx_Inr [of "scan_get_in_tx i"] using scan_get_Inr by blast
  from body obtain s where "found = Some s" by (cases found) simp_all
  then have s: "scan_session_by_id db i = Some s" "ss_owner_node_id s = owner" "ss_storage_root_id s = root"
    and body: "(if ss_status s \<in> {ScanRequested, ScanRunning} then
                bind_tx (lift_res (scan_terminal_reason_new (''routing ticket '' @ show_nat (t_id t) @ '' failed''))) (\<lambda>reason.
                bind_tx (terminalize_in_tx i ScanFailed reason now) (\<lambda>failed.
                append_lifecycle_event failed now))
              else return_tx ()) db = (Inr u, db')"
    using found body by (auto split: if_split_asm if_split)
  show ?thesis
  proof (cases "ss_status s \<in> {ScanRequested, ScanRunning}")
    case active: True
    with body obtain reason r db1 where "terminalize_in_tx i ScanFailed reason now db = (Inr r, db1)"
        "append_lifecycle_event r now db1 = (Inr u, db')"
      by (auto simp: bind_tx_Inr)
    then show ?thesis using failed True p s active by (auto simp: scan_active_status_def)
  next
    case False
    then show ?thesis using ended True p s body by (auto simp: scan_active_status_def)
  qed
qed

lemma fail_scan_quiet:
  assumes "fail_scan_for_failed_ticket_in_tx t now db = (Inr u, db')"
  shows "quiet db db'"
  using assms
proof (cases rule: fail_scan_Inr)
  case (failed payload i owner root s reason r db1)
  then show ?thesis using terminalize_quiet lifecycle_event_quiet quiet_trans by blast
qed simp_all

text \<open>Once the ticket was looked at, the session it routes is no longer active.\<close>

lemma fail_scan_ends_session:
  assumes "fail_scan_for_failed_ticket_in_tx t now db = (Inr u, db')" and "routes_scan_run t" and "scan_inv db"
  shows "\<exists>payload i owner root s. parse_ticket (t_kind t) (t_payload t) = Some payload \<and>
    scan_routing payload = Inr (i, owner, root) \<and> scan_session_by_id db' i = Some s \<and>
    ss_owner_node_id s = owner \<and> ss_storage_root_id s = root \<and> \<not> scan_active_status (ss_status s)"
  using assms(1)
proof (cases rule: fail_scan_Inr)
  case (failed payload i owner root s reason r db1)
  let ?ss = "update_where (\<lambda>r. ss_id r = i \<and> scan_active_status (ss_status r)) (terminal_row ScanFailed reason now) (scan_sessions db)"
  have wf: "wf_table ss_id (scan_sessions db)" by (rule scan_inv_wf [OF assms(3)])
  have s: "s \<in> set (scan_sessions db)" "ss_id s = i"
    using failed(4) wf by (simp_all add: scan_session_by_id_def find_id)
  have "scan_sessions db' = ?ss"
    using lifecycle_event_quiet [OF failed(9)] terminalize_Inr [OF failed(8)] by simp
  moreover have "wf_table ss_id ?ss" by (rule wf_table_update [OF wf]) (simp add: terminal_row_def)
  moreover have "terminal_row ScanFailed reason now s \<in> set ?ss"
    unfolding in_update_where using s failed(7) by (intro bexI [of _ s]) simp_all
  ultimately have "scan_session_by_id db' i = Some (terminal_row ScanFailed reason now s)"
    using s(2) by (simp add: scan_session_by_id_def find_id) (simp add: terminal_row_def)
  then show ?thesis using failed by (auto simp: terminal_row_def scan_active_status_def)
qed (use assms(2) in auto)

subsection \<open>Expiry\<close>

text \<open>What the sweep logs about one expired lease and its ticket.\<close>

definition pair_noted :: "expire_report \<Rightarrow> nat \<times> nat \<Rightarrow> db \<Rightarrow> db \<Rightarrow> bool" where
  "pair_noted report p db db' \<longleftrightarrow> evolves db db' \<and> tickets db' = tickets db \<and> leases db' = leases db \<and> jobs db' = jobs db \<and>
     replay ticket_fact (events db') = (replay ticket_fact (events db))
       (snd p \<mapsto> if snd p \<in> set (er_requeued_tickets report) then Ready else Failed) \<and>
     replay lease_fact (events db') = (replay lease_fact (events db))(fst p \<mapsto> Expired) \<and>
     replay job_fact (events db') = replay job_fact (events db)"

lemma emit_expire_pair_noted:
  assumes "emit_expire_pair l t report now db = (Inr u, db')"
  shows "pair_noted report (l, t) db db'"
proof -
  define db1 where db1: "db1 = logged db now LeaseSubject l (LeaseExpiredEvent l t)"
  from assms have "ticket_noted t (if t \<in> set (er_requeued_tickets report) then Ready else Failed) db1 db'"
    unfolding emit_expire_pair_def bind_tx_Inr append_event_Inr db1
    by (auto simp: append_event_Inr bind_tx_Inr intro: ticket_logged_noted terminal_failure_noted
        split: if_splits option.splits)
  moreover have "evolves db db1" unfolding db1 by (rule evolves_plain) simp
  ultimately show ?thesis using evolves_trans by (auto simp: pair_noted_def ticket_noted_def db1)
qed

lemma settle_Inr:
  assumes "settle_expired_pair report now (l, t) db = (Inr u, db')"
  obtains db1 where "emit_expire_pair l t report now db = (Inr (), db1)"
    "t \<in> set (er_requeued_tickets report) \<and> db' = db1 \<or> t \<notin> set (er_requeued_tickets report) \<and>
       (\<exists>r. ticket_by_id db1 t = Some r \<and> fail_scan_for_failed_ticket_in_tx r now db1 = (Inr u, db'))"
proof -
  from assms obtain db1 where emit: "emit_expire_pair l t report now db = (Inr (), db1)"
    and rest: "(if t \<in> set (er_requeued_tickets report) then return_tx ()
     else bind_tx (ticket_get_in_tx t) (\<lambda>found. case found of None \<Rightarrow> throw_tx Database
     | Some ticket \<Rightarrow> fail_scan_for_failed_ticket_in_tx ticket now)) db1 = (Inr u, db')"
    by (auto simp: settle_expired_pair_def bind_tx_Inr)
  have "t \<in> set (er_requeued_tickets report) \<and> db' = db1 \<or> t \<notin> set (er_requeued_tickets report) \<and>
       (\<exists>r. ticket_by_id db1 t = Some r \<and> fail_scan_for_failed_ticket_in_tx r now db1 = (Inr u, db'))"
    using rest by (auto simp: bind_tx_Inr ticket_get_in_tx_def bind_i64_Inr split: if_splits option.splits)
  then show thesis using that emit by blast
qed

lemma settle_noted:
  assumes "settle_expired_pair report now p db = (Inr u, db')"
  shows "pair_noted report p db db'"
proof -
  obtain l t where p: "p = (l, t)" by (cases p)
  from assms [unfolded p] obtain db1 where emit: "emit_expire_pair l t report now db = (Inr (), db1)"
    and rest: "t \<in> set (er_requeued_tickets report) \<and> db' = db1 \<or> t \<notin> set (er_requeued_tickets report) \<and>
       (\<exists>r. ticket_by_id db1 t = Some r \<and> fail_scan_for_failed_ticket_in_tx r now db1 = (Inr u, db'))"
    by (rule settle_Inr)
  have "quiet db1 db'" using rest fail_scan_quiet quiet_refl by blast
  then show ?thesis using emit_expire_pair_noted [OF emit] evolves_trans
    unfolding p pair_noted_def quiet_def by auto
qed

lemma settle_loop_noted:
  assumes "for_tx (settle_expired_pair report now) ps db = (Inr us, db')"
  shows "evolves db db' \<and> tickets db' = tickets db \<and> leases db' = leases db \<and> jobs db' = jobs db \<and>
    replay ticket_fact (events db') = fold (\<lambda>p m. m(snd p \<mapsto>
      if snd p \<in> set (er_requeued_tickets report) then Ready else Failed)) ps (replay ticket_fact (events db)) \<and>
    replay lease_fact (events db') = fold (\<lambda>p m. m(fst p \<mapsto> Expired)) ps (replay lease_fact (events db)) \<and>
    replay job_fact (events db') = replay job_fact (events db)"
  using assms
proof (induction ps arbitrary: db us)
  case (Cons p ps)
  from Cons.prems obtain u db1 vs where step: "settle_expired_pair report now p db = (Inr u, db1)"
    and loop: "for_tx (settle_expired_pair report now) ps db1 = (Inr vs, db')" by (auto simp: bind_tx_Inr)
  show ?case using settle_noted [OF step] Cons.IH [OF loop] evolves_trans [of db db1 db']
    by (auto simp: pair_noted_def)
qed simp

lemma fold_upd_key:
  "fold (\<lambda>x m. m(k x \<mapsto> v (k x))) xs m i = (if i \<in> k ` set xs then Some (v i) else m i)"
  by (induction xs arbitrary: m) auto

lemma table_map_map:
  assumes wf: "wf_table key rows" and key: "\<And>r. key (g r) = key r"
  shows "table_map key f (map g rows) i = map_option (\<lambda>r. f (g r)) (find (\<lambda>r. key r = i) rows)"
proof (rule option_eqI)
  fix a
  have "map key (map g rows) = map key rows" using key by simp
  then have "wf_table key (map g rows)" using wf by (simp add: wf_table_def del: map_map)
  then show "table_map key f (map g rows) i = Some a \<longleftrightarrow>
      map_option (\<lambda>r. f (g r)) (find (\<lambda>r. key r = i) rows) = Some a"
    using key by (auto simp: table_map_Some find_id [OF wf])
qed

lemma table_map_find:
  assumes "wf_table key rows"
  shows "table_map key f rows i = map_option f (find (\<lambda>r. key r = i) rows)"
  using table_map_map [OF assms, of id f i] by simp

lemma expire_ticket_states:
  assumes good: "good_db db" and ls: "set ls \<subseteq> set (leases db)" "\<forall>l \<in> set ls. l_state l = Held"
  shows "ticket_states (expire_leases now ls db) = fold (\<lambda>p m. m(snd p \<mapsto>
      if snd p \<in> set (map l_ticket_id (filter (retries db) ls)) then Ready else Failed))
      (map (\<lambda>l. (l_id l, l_ticket_id l)) ls) (ticket_states db)"
    (is "?S = ?F")
proof
  fix i
  have wf: "wf_db db" using good by blast
  let ?req = "set (map l_ticket_id (filter (retries db) ls))"
  have F: "?F i = (if i \<in> l_ticket_id ` set ls then Some (if i \<in> ?req then Ready else Failed) else ticket_states db i)"
    using fold_upd_key [of snd "\<lambda>i. if i \<in> ?req then Ready else Failed" "map (\<lambda>l. (l_id l, l_ticket_id l)) ls" "ticket_states db" i]
    by (simp add: image_image)
  have S: "?S i = map_option (\<lambda>t. t_state (batch_ticket now ls t)) (ticket_by_id db i)"
    using table_map_map [OF wf_db_tables(2) [OF wf], of "batch_ticket now ls" t_state i]
    by (simp add: ticket_states_def expire_leases_def ticket_by_id_def)
  show "?S i = ?F i"
  proof (cases "i \<in> l_ticket_id ` set ls")
    case True
    then obtain l where l: "l \<in> set ls" "l_ticket_id l = i" by blast
    obtain t where pair: "held_pair db l t" using good_held_pair [OF good] ls l by blast
    have t: "ticket_by_id db i = Some t" using pair l ticket_by_id_Some [OF wf, of i t] by (auto simp: held_pair_def)
    have "i \<in> ?req \<longleftrightarrow> t_attempt t < t_max_attempts t"
    proof -
      have "retries db k \<longleftrightarrow> t_attempt t < t_max_attempts t" if "k \<in> set ls" "l_ticket_id k = i" for k
        using retries_pair [OF wf, of k t] that ls pair l by (auto simp: held_pair_def)
      then show ?thesis using l by auto
    qed
    moreover have "t_id t = i" using pair l by (simp add: held_pair_def)
    ultimately show ?thesis unfolding F S using True t
      by (simp add: batch_ticket_def expired_ticket_def requeued_row_def failed_row_def)
  next
    case False
    then have "map_option (\<lambda>t. t_state (batch_ticket now ls t)) (ticket_by_id db i) = map_option t_state (ticket_by_id db i)"
      by (cases "ticket_by_id db i") (simp_all add: batch_ticket_def ticket_by_id_Some [OF wf, THEN iffD1])
    then show ?thesis unfolding F S using False table_map_find [OF wf_db_tables(2) [OF wf], of t_state i]
      by (simp add: ticket_states_def ticket_by_id_def)
  qed
qed

lemma expire_lease_states:
  assumes wf: "wf_db db" and ls: "set ls \<subseteq> set (leases db)"
  shows "lease_states (expire_leases now ls db) = fold (\<lambda>p m. m(fst p \<mapsto> Expired))
      (map (\<lambda>l. (l_id l, l_ticket_id l)) ls) (lease_states db)"
    (is "?S = ?F")
proof
  fix i
  let ?g = "\<lambda>l. if l \<in> set ls then close_row Expired IssuerLost now l else l"
  have F: "?F i = (if i \<in> l_id ` set ls then Some Expired else lease_states db i)"
    using fold_upd_key [of fst "\<lambda>_. Expired" "map (\<lambda>l. (l_id l, l_ticket_id l)) ls" "lease_states db" i]
    by (simp add: image_image)
  have S: "?S i = map_option (\<lambda>l. l_state (?g l)) (find (\<lambda>l. l_id l = i) (leases db))"
    using table_map_map [OF wf_db_tables(3) [OF wf], of ?g l_state i]
    by (simp add: lease_states_def expire_leases_def)
  have same: "l \<in> set ls \<longleftrightarrow> l_id l \<in> l_id ` set ls" if "l \<in> set (leases db)" for l
    using ls that wf_table_same [OF wf_db_tables(3) [OF wf]] by blast
  have old: "lease_states db i = map_option l_state (find (\<lambda>l. l_id l = i) (leases db))"
    unfolding lease_states_def by (rule table_map_find [OF wf_db_tables(3) [OF wf]])
  show "?S i = ?F i"
  proof (cases "find (\<lambda>l. l_id l = i) (leases db)")
    case None
    then have "i \<notin> l_id ` set ls" using ls by (auto simp: find_None_iff)
    then show ?thesis unfolding F S old None by simp
  next
    case (Some a)
    then have "a \<in> set ls \<longleftrightarrow> i \<in> l_id ` set ls" using same [of a] find_Some_in [OF Some] by simp
    then show ?thesis unfolding F S old Some by (simp add: close_row_def)
  qed
qed

lemma expiry_batch_held:
  "set (expiry_batch now db) \<subseteq> set (leases db)" "\<forall>l \<in> set (expiry_batch now db). l_state l = Held"
  by (auto simp: expiry_batch_def overdue_def dest: in_set_takeD)

lemma expire_due_Inr:
  assumes "expire_due now db = (Inr report, db')"
  obtains db1 us where "expire_due_in_tx now db = (Inr report, db1)"
    "for_tx (settle_expired_pair report now) (er_pairs report) db1 = (Inr us, db')"
    "good_db db \<Longrightarrow> report = report_add db (expiry_batch now db) empty_report"
    "good_db db \<Longrightarrow> db1 = expire_leases now (expiry_batch now db) db"
proof -
  from assms obtain db1 us where run: "expire_due_in_tx now db = (Inr report, db1)"
    and loop: "for_tx (settle_expired_pair report now) (er_pairs report) db1 = (Inr us, db')"
    by (auto simp: expire_due_def bind_tx_Inr)
  have "report = report_add db (expiry_batch now db) empty_report"
      "db1 = expire_leases now (expiry_batch now db) db" if "good_db db"
    using expire_due_eq [OF that run] by blast+
  then show thesis using that run loop by blast
qed

lemma expire_due_audited:
  assumes "expire_due now db = (Inr report, db')"
  shows "audited db db'"
  using assms
proof (rule expire_due_Inr)
  fix db1 us
  assume run: "expire_due_in_tx now db = (Inr report, db1)"
    and loop: "for_tx (settle_expired_pair report now) (er_pairs report) db1 = (Inr us, db')"
    and eq: "good_db db \<Longrightarrow> report = report_add db (expiry_batch now db) empty_report"
      "good_db db \<Longrightarrow> db1 = expire_leases now (expiry_batch now db) db"
  note noted = settle_loop_noted [OF loop]
  show "audited db db'"
  proof (rule audited_core [of _ db1])
    show "refines db db1" by (rule expire_due_refines [OF run])
    show "evolves db1 db'" using noted by blast
    assume inv: "store_inv db"
    note good = store_inv_good(1) [OF inv]
    have db1: "db1 = expire_leases now (expiry_batch now db) db" by (rule eq(2) [OF good])
    have pairs: "er_pairs report = map (\<lambda>l. (l_id l, l_ticket_id l)) (expiry_batch now db)"
      and req: "er_requeued_tickets report = map l_ticket_id (filter (retries db) (expiry_batch now db))"
      using eq(1) [OF good] by (simp_all add: report_add_def empty_report_def)
    show "same_scans db db1 \<and> same_issues db db1 \<and> events db1 = events db"
      by (simp add: db1 expire_leases_def same_scans_def same_issues_def)
    have "job_states db1 = job_states db" "events db1 = events db" by (simp_all add: db1 expire_leases_def job_states_def)
    moreover have "ticket_states db' = ticket_states db1" "lease_states db' = lease_states db1" "job_states db' = job_states db1"
      using noted by (simp_all add: states_defs)
    ultimately show "log_matches db'" if "log_matches db"
      using that noted expire_ticket_states [OF good expiry_batch_held, of now now]
        expire_lease_states [OF _ expiry_batch_held(1), of db now now] good
      by (auto simp: log_matches_def pairs req db1)
  qed
qed

subsection \<open>Operator transitions and recovery\<close>

lemma issue_quiet:
  assumes "issue_step db db'"
  shows "quiet db db'"
  using evolves_issue [OF assms] issue_step_fields [OF assms] by (simp add: quiet_def)

lemma with_issue_event_quiet:
  assumes "with_issue_event resolution now write db = (Inr r, db')"
    and "\<And>r db'. write db = (Inr r, db') \<Longrightarrow> issue_op db db'"
  shows "quiet db db'"
proof -
  from assms(1) obtain db1 where run: "write db = (Inr r, db1)"
    and emit: "(case r of None \<Rightarrow> return_tx () | Some r \<Rightarrow> emit_issue_event r resolution now) db1 = (Inr (), db')"
    by (auto simp: with_issue_event_def bind_tx_Inr)
  have "quiet db1 db'" using emit
    by (auto simp: emit_issue_event_def append_event_Inr Let_def intro!: quiet_logged split: option.splits)
  then show ?thesis using quiet_trans issue_quiet [OF issue_op_step [OF assms(2) [OF run]]] by blast
qed

lemma recover_quiet:
  assumes "recover_failed_scan_runs now db = (Inr u, db')"
  shows "quiet db db'"
proof -
  from assms obtain ts us where "for_tx (\<lambda>t. fail_scan_for_failed_ticket_in_tx t now) ts db = (Inr us, db')"
    by (auto simp: recover_failed_scan_runs_def failed_scan_run_candidates_in_tx_def bind_tx_Inr)
  then show ?thesis by (rule for_tx_rel) (auto intro: fail_scan_quiet quiet_trans)
qed

lemma add_dependency_audited:
  assumes "add_dependency_in_tx t d db = (Inr u, db')"
  shows "audited db db'"
  by (rule audited_core [of _ db' db'])
    (use add_dependency_refines [OF assms] add_dependency_Inr [OF assms] in
      \<open>auto simp: same_scans_def same_issues_def log_matches_def states_defs\<close>)

end
