(* ===== verification/Execution_Runs.thy ===== *)
theory Execution_Runs
  imports Execution
begin

text \<open>
  Runs of the control plane: its handlers called in any order, interleaved with steps of the rest of
  the system that leave the execution tables alone. The properties of a reachable store follow
  from what each handler keeps.
\<close>

section \<open>Calls and steps\<close>

text \<open>One call of a handler: the store before, whether it returned a value, and the store after.\<close>

inductive call :: "db \<Rightarrow> bool \<Rightarrow> db \<Rightarrow> bool" where
  call_open_job: "open_job input db = (r, db') \<Longrightarrow> call db (\<not> isl r) db'"
| call_succeed_job: "succeed_job i now db = (r, db') \<Longrightarrow> call db (\<not> isl r) db'"
| call_fail_job: "fail_job i reason now db = (r, db') \<Longrightarrow> call db (\<not> isl r) db'"
| call_cancel_job: "cancel_job i reason now db = (r, db') \<Longrightarrow> call db (\<not> isl r) db'"
| call_create_ticket: "create_ticket input db = (r, db') \<Longrightarrow> call db (\<not> isl r) db'"
| call_add_dependency: "add_dependency i d db = (r, db') \<Longrightarrow> call db (\<not> isl r) db'"
| call_promote: "promote i now db = (r, db') \<Longrightarrow> call db (\<not> isl r) db'"
| call_pre_lease_failure: "record_pre_lease_ticket_failure i failure now draw db = (r, db') \<Longrightarrow> call db (\<not> isl r) db'"
| call_try_acquire: "try_acquire_lease input db = (r, db') \<Longrightarrow> call db (\<not> isl r) db'"
| call_acquire: "acquire_lease input db = (r, db') \<Longrightarrow> call db (\<not> isl r) db'"
| call_heartbeat: "heartbeat_lease i ttl now db = (r, db') \<Longrightarrow> call db (\<not> isl r) db'"
| call_release: "release_lease i result now db = (r, db') \<Longrightarrow> call db (\<not> isl r) db'"
| call_fail: "fail_lease i reason failure now draw db = (r, db') \<Longrightarrow> call db (\<not> isl r) db'"
| call_expire_due: "expire_due now db = (r, db') \<Longrightarrow> call db (\<not> isl r) db'"
| call_force_release: "force_release_lease i actor reason requeue now db = (r, db') \<Longrightarrow> call db (\<not> isl r) db'"
| call_recover: "recover_failed_scan_runs now db = (r, db') \<Longrightarrow> call db (\<not> isl r) db'"
| call_update_priority: "update_issue_priority i p reason now db = (r, db') \<Longrightarrow> call db (\<not> isl r) db'"
| call_resolve: "resolve_issue i now db = (r, db') \<Longrightarrow> call db (\<not> isl r) db'"
| call_suppress: "suppress_issue i days now db = (r, db') \<Longrightarrow> call db (\<not> isl r) db'"
| call_accept: "accept_issue i now db = (r, db') \<Longrightarrow> call db (\<not> isl r) db'"

text \<open>
  A step of the rest of the system: workers, nodes, libraries, policies, scans and media. It writes no
  job, ticket, dependency or lease and logs nothing about them; it changes issues and scan sessions
  as their repositories do, keeping their invariants and losing no row.
\<close>

definition elsewhere :: "db \<Rightarrow> db \<Rightarrow> bool" where
  "elsewhere db db' \<longleftrightarrow> jobs db' = jobs db \<and> tickets db' = tickets db \<and>
     ticket_dependencies db' = ticket_dependencies db \<and> leases db' = leases db \<and>
     (issue_inv db \<longrightarrow> issue_inv db') \<and> (\<forall>i \<in> set (issues db). \<exists>j \<in> set (issues db'). same_issue i j) \<and>
     wf_table w_id (workers db') \<and> scan_step db db' \<and>
     (\<exists>es. events db' = events db @ es \<and> (\<forall>e \<in> set es. ticket_fact (ev_payload e) = None \<and>
        lease_fact (ev_payload e) = None \<and> job_fact (ev_payload e) = None))"

definition cp_step :: "db \<Rightarrow> db \<Rightarrow> bool" where
  "cp_step db db' \<longleftrightarrow> (\<exists>ok. call db ok db') \<or> elsewhere db db'"

section \<open>A failed call leaves no trace\<close>

definition atomic :: "('s, 'a) tx \<Rightarrow> bool" where
  "atomic h \<longleftrightarrow> (\<forall>s e s'. h s = (Inl e, s') \<longrightarrow> s' = s)"

lemma atomic_transact: "atomic (transact m)"
  unfolding atomic_def using transact_Inl by metis

lemma atomic_guard: "(\<And>x. atomic (k x)) \<Longrightarrow> atomic (bind_tx (lift_res r) k)"
  unfolding atomic_def by (cases r) auto

lemma handlers_atomic:
  "atomic (open_job input)" "atomic (succeed_job i now)" "atomic (fail_job i reason now)" "atomic (cancel_job i reason now)"
  "atomic (create_ticket new)" "atomic (add_dependency i d)" "atomic (promote i now)"
  "atomic (record_pre_lease_ticket_failure i failure now draw)" "atomic (try_acquire_lease lease)"
  "atomic (acquire_lease lease)" "atomic (heartbeat_lease i ttl now)" "atomic (release_lease i result now)"
  "atomic (fail_lease i reason failure now draw)" "atomic (expire_due now)"
  "atomic (force_release_lease i actor reason requeue now)" "atomic (recover_failed_scan_runs now)"
  "atomic (update_issue_priority i p explanation now)" "atomic (resolve_issue i now)" "atomic (suppress_issue i days now)"
  "atomic (accept_issue i now)"
  unfolding open_job_def succeed_job_def fail_job_def cancel_job_def create_ticket_def add_dependency_def promote_def
    record_pre_lease_ticket_failure_def try_acquire_lease_def acquire_lease_def heartbeat_lease_def
    release_lease_def fail_lease_def expire_due_def force_release_lease_def recover_failed_scan_runs_def
    update_issue_priority_def resolve_issue_def suppress_issue_def accept_issue_def with_issue_event_def
  by (rule atomic_transact | rule atomic_guard)+

lemma atomic_unchanged: "h s = (r, s') \<Longrightarrow> atomic h \<Longrightarrow> \<not> \<not> isl r \<Longrightarrow> s' = s"
  unfolding atomic_def by (cases r) auto

lemma failed_call_unchanged: "call db ok db' \<Longrightarrow> \<not> ok \<Longrightarrow> db' = db"
  by (induction rule: call.induct) (erule atomic_unchanged, rule handlers_atomic, assumption)+

section \<open>Every step keeps the store and its log in step\<close>

lemma close_jobs_audited:
  "succeed_job i now db = (Inr j, db') \<Longrightarrow> audited db db'"
  "fail_job i reason now db = (Inr j, db') \<Longrightarrow> audited db db'"
  "cancel_job i reason now db = (Inr j, db') \<Longrightarrow> audited db db'"
  by (auto simp: succeed_job_def fail_job_def cancel_job_def bind_tx_Inr append_event_Inr job_succeed_in_tx_def
      job_fail_in_tx_def job_cancel_in_tx_def intro: close_job_audited)

lemma acquire_audited: "acquire_lease_in_tx input db = (Inr l, db') \<Longrightarrow> audited db db'"
  by (auto simp: acquire_lease_in_tx_def bind_tx_Inr intro: try_acquire_lease_audited)

lemma issue_calls_quiet:
  "update_issue_priority i p reason now db = (Inr r, db') \<Longrightarrow> quiet db db'"
  "resolve_issue i now db = (Inr r, db') \<Longrightarrow> quiet db db'"
  "suppress_issue i days now db = (Inr r, db') \<Longrightarrow> quiet db db'"
  "accept_issue i now db = (Inr r, db') \<Longrightarrow> quiet db db'"
  by (auto simp: update_issue_priority_def resolve_issue_def suppress_issue_def accept_issue_def
      elim!: with_issue_event_quiet intro: issue_op.intros)

lemma wrapped_audited:
  "open_job job db = (Inr j, db') \<Longrightarrow> audited db db'"
  "create_ticket ticket db = (Inr t, db') \<Longrightarrow> audited db db'"
  "add_dependency i d db = (Inr u, db') \<Longrightarrow> audited db db'"
  "promote i now db = (Inr ts, db') \<Longrightarrow> audited db db'"
  "try_acquire_lease lease db = (Inr out, db') \<Longrightarrow> audited db db'"
  "acquire_lease lease db = (Inr l, db') \<Longrightarrow> audited db db'"
  "heartbeat_lease i ttl now db = (Inr l, db') \<Longrightarrow> audited db db'"
  "release_lease i result now db = (Inr l, db') \<Longrightarrow> audited db db'"
  "fail_lease i reason failure now draw db = (Inr l, db') \<Longrightarrow> audited db db'"
  unfolding open_job_def create_ticket_def add_dependency_def promote_def try_acquire_lease_def acquire_lease_def
    heartbeat_lease_def release_lease_def fail_lease_def transact_Inr
  by (fact open_job_audited create_ticket_audited add_dependency_audited promote_audited try_acquire_lease_audited
      acquire_audited heartbeat_lease_audited release_lease_audited fail_lease_audited)+

lemmas handlers_audited = wrapped_audited close_jobs_audited pre_lease_failure_audited expire_due_audited
  force_release_audited recover_quiet [THEN quiet_audited] issue_calls_quiet [THEN quiet_audited]

lemma ok_call: "h db = (r, db') \<Longrightarrow> (\<And>x. h db = (Inr x, db') \<Longrightarrow> audited db db') \<Longrightarrow> \<not> isl r \<Longrightarrow> audited db db'"
  by (cases r) auto

lemma call_audited:
  assumes "call db ok db'"
  shows "audited db db'"
proof (cases ok)
  case True
  with assms show ?thesis
    by (induction rule: call.induct) (erule ok_call, erule handlers_audited, assumption)+
next
  case False
  then show ?thesis using failed_call_unchanged [OF assms] by simp
qed

lemma elsewhere_audited:
  assumes "elsewhere db db'"
  shows "audited db db'"
proof -
  from assms obtain es where es: "events db' = events db @ es"
    and silent: "\<forall>e \<in> set es. ticket_fact (ev_payload e) = None \<and> lease_fact (ev_payload e) = None \<and> job_fact (ev_payload e) = None"
    by (auto simp: elsewhere_def)
  have terminal: "terminal_fact p = None" if "ticket_fact p = None" for p using that by (cases p) simp_all
  have "evolves db db'" unfolding evolves_def
  proof (intro impI conjI)
    assume inv: "store_inv db"
    have issues: "issue_inv db'" "\<forall>i \<in> set (issues db). \<exists>j \<in> set (issues db'). same_issue i j"
      using assms inv unfolding store_inv_def elsewhere_def by blast+
    moreover have abs: "abs_exec db' = abs_exec db" using assms by (simp add: abs_exec_def elsewhere_def)
    moreover have "wf_db db'"
      using store_inv_good(2) [OF inv] assms issues(1) by (simp add: wf_db_def elsewhere_def issue_inv_def)
    moreover have filed: "filed_under db' t i" if "filed_under db t i" for t i
    proof -
      from that obtain x where x: "x \<in> set (issues db)" "i = Some (is_id x)" "is_kind x = TerminalFailure"
        "is_dedupe_key x = Some (terminal_failure_dedupe_key t)" unfolding filed_under_def by blast
      with issues(2) obtain j where "j \<in> set (issues db')" "same_issue x j" by blast
      then show ?thesis using x unfolding filed_under_def same_issue_def by (intro bexI [of _ j]) simp_all
    qed
    have "failures_filed db'" unfolding failures_filed_def es set_append
    proof (intro ballI allI impI)
      fix e t i
      assume "e \<in> set (events db) \<union> set es" "terminal_fact (ev_payload e) = Some (t, i)"
      then have "e \<in> set (events db)" using silent terminal by force
      then show "filed_under db' t i" using filed inv \<open>terminal_fact (ev_payload e) = Some (t, i)\<close>
        unfolding store_inv_def failures_filed_def by blast
    qed
    moreover have "scan_inv db'" using assms inv by (simp add: elsewhere_def store_inv_def scan_step_def)
    ultimately show "store_inv db'" "act\<^sup>*\<^sup>* (abs_exec db) (abs_exec db')"
      using inv by (simp_all add: store_inv_def good_db_def)
    show "\<forall>s \<in> set (scan_sessions db). \<exists>t \<in> set (scan_sessions db'). scan_later s t"
      using assms inv by (simp add: elsewhere_def store_inv_def scan_step_def)
    show "\<forall>i \<in> set (issues db). \<exists>j \<in> set (issues db'). same_issue i j" by (rule issues(2))
  qed (simp add: es)
  moreover have "replay ticket_fact (events db @ es) = replay ticket_fact (events db)"
    "replay lease_fact (events db @ es) = replay lease_fact (events db)"
    "replay job_fact (events db @ es) = replay job_fact (events db)"
    using silent by (auto intro!: replay_silent)
  then have "log_matches db'" if "log_matches db"
    using that assms by (simp add: log_matches_def es elsewhere_def states_defs)
  ultimately show ?thesis by (simp add: audited_def)
qed

lemma cp_step_audited: "cp_step db db' \<Longrightarrow> audited db db'"
  using call_audited elsewhere_audited unfolding cp_step_def by blast

definition cp_inv :: "db \<Rightarrow> bool" where
  "cp_inv db \<longleftrightarrow> store_inv db \<and> log_matches db"

lemma abs_empty: "exec_init (abs_exec empty_db)"
  by (simp add: exec_init_def abs_exec_def empty_db_def dep_edges_def)

lemma cp_inv_empty: "cp_inv empty_db"
proof -
  have "good_db empty_db"
    using exec_inv_init [OF abs_empty] by (simp add: good_db_def wf_db_def empty_db_def)
  moreover have "issue_inv empty_db" by (simp add: issue_inv_def empty_db_def)
  moreover have "scan_inv empty_db" by (simp add: scan_inv_def one_active_def retirements_ok_def empty_db_def)
  ultimately show ?thesis
    by (simp add: cp_inv_def store_inv_def failures_filed_def log_matches_def states_defs empty_db_def)
qed

interpretation cp: invariant_system "\<lambda>db. db = empty_db" cp_step cp_inv
proof
  show "cp_inv db" if "db = empty_db" for db using that cp_inv_empty by simp
  show "cp_inv db'" if "cp_inv db" "cp_step db db'" for db db'
    using that cp_step_audited [OF that(2)] by (auto simp: cp_inv_def audited_def evolves_def)
qed

lemma cp_run_audited: "cp_step\<^sup>*\<^sup>* db db' \<Longrightarrow> audited db db'"
  by (induction rule: rtranclp_induct) (auto intro: cp_step_audited audited_trans)

lemma reach_run: "reach (\<lambda>db. db = empty_db) cp_step db \<Longrightarrow> cp_step\<^sup>*\<^sup>* empty_db db"
  by (induction rule: reach.induct) auto


section \<open>Reachable stores\<close>

abbreviation reachable :: "db \<Rightarrow> bool" where
  "reachable \<equiv> reach (\<lambda>db. db = empty_db) cp_step"

lemma reachable_inv:
  assumes "reachable db"
  shows "store_inv db" "log_matches db" "good_db db" "wf_db db" "exec_inv (abs_exec db)"
  using cp.reach_inv [OF assms] store_inv_good by (auto simp: cp_inv_def store_inv_def good_db_def)

text \<open>The abstract invariant read on the rows.\<close>

lemma held_abs:
  assumes "wf_db db"
  shows "held (abs_exec db) l t \<longleftrightarrow> (\<exists>r \<in> set (leases db). l_id r = l \<and> l_ticket_id r = t \<and> l_state r = Held)"
  using assms by (auto simp: held_def abs_exec_def table_map_Some wf_db_tables abs_lease_def)

lemma has_state_abs:
  assumes "wf_db db"
  shows "has_state (abs_exec db) t st \<longleftrightarrow> (\<exists>r \<in> set (tickets db). t_id r = t \<and> t_state r = st)"
  using assms by (auto simp: has_state_def abs_exec_def table_map_Some wf_db_tables abs_ticket_def)

lemma leases_of_abs:
  assumes "wf_db db"
  shows "leases_of (abs_exec db) t = l_id ` {l \<in> set (leases db). l_ticket_id l = t}"
  using assms by (auto simp: leases_of_def abs_exec_def table_map_Some wf_db_tables abs_lease_def)

lemma leases_of_count:
  assumes "wf_db db"
  shows "card (leases_of (abs_exec db) t) = length (filter (\<lambda>l. l_ticket_id l = t) (leases db))"
proof -
  have "distinct (map l_id (filter (\<lambda>l. l_ticket_id l = t) (leases db)))"
    using wf_table_distinct [OF wf_table_filter [OF wf_db_tables(3) [OF assms]]] .
  from distinct_card [OF this]
  have "card (set (map l_id (filter (\<lambda>l. l_ticket_id l = t) (leases db)))) =
      length (filter (\<lambda>l. l_ticket_id l = t) (leases db))" by simp
  then show ?thesis by (simp add: leases_of_abs [OF assms])
qed

definition leases_safe :: "db \<Rightarrow> bool" where
  "leases_safe db \<longleftrightarrow>
     (\<forall>l \<in> set (leases db). \<exists>t \<in> set (tickets db). t_id t = l_ticket_id l \<and> (l_state l = Held \<longrightarrow> t_state t = Leased)) \<and>
     (\<forall>t \<in> set (tickets db). t_state t = Leased \<longrightarrow> (\<exists>!l. l \<in> set (leases db) \<and> l_ticket_id l = t_id t \<and> l_state l = Held))"

definition attempts_safe :: "db \<Rightarrow> bool" where
  "attempts_safe db \<longleftrightarrow> (\<forall>t \<in> set (tickets db). t_attempt t \<le> t_max_attempts t \<and>
     (t_state t \<in> {Pending, Ready} \<longrightarrow> t_attempt t < t_max_attempts t) \<and>
     length (filter (\<lambda>l. l_ticket_id l = t_id t) (leases db)) \<le> t_attempt t)"

definition dependencies_safe :: "db \<Rightarrow> bool" where
  "dependencies_safe db \<longleftrightarrow> acyclic (set (dep_edges (ticket_dependencies db))) \<and>
     (\<forall>(t, d) \<in> set (dep_edges (ticket_dependencies db)). \<exists>r \<in> set (tickets db). \<exists>s \<in> set (tickets db).
        t_id r = t \<and> t_id s = d \<and> (t_state r \<noteq> Pending \<longrightarrow> t_state s = Succeeded))"

lemma good_leases_safe:
  assumes good: "good_db db"
  shows "leases_safe db"
  unfolding leases_safe_def
proof (intro conjI ballI impI)
  have wf: "wf_db db" and inv: "inv_leases (abs_exec db)" using good by (auto simp: good_db_def exec_inv_def)
  fix l assume l: "l \<in> set (leases db)"
  have "x_leases (abs_exec db) (l_id l) = Some (abs_lease l)"
    using l by (auto simp: abs_exec_def table_map_Some wf_db_tables wf)
  then have "al_ticket (abs_lease l) \<in> dom (x_tickets (abs_exec db))"
    using inv unfolding inv_leases_def by blast
  then have "l_ticket_id l \<in> dom (x_tickets (abs_exec db))" by (simp add: abs_lease_def)
  then obtain t where t: "t \<in> set (tickets db)" "t_id t = l_ticket_id l"
    by (auto simp: abs_exec_def table_map_Some wf_db_tables wf)
  have "t_state t = Leased" if "l_state l = Held"
    using good_held_pair [OF good l that] t wf_table_same [OF wf_db_tables(2) [OF wf]] by (metis held_pair_def)
  then show "\<exists>t \<in> set (tickets db). t_id t = l_ticket_id l \<and> (l_state l = Held \<longrightarrow> t_state t = Leased)" using t by blast
next
  have wf: "wf_db db" and inv: "inv_leases (abs_exec db)" using good by (auto simp: good_db_def exec_inv_def)
  fix t assume "t \<in> set (tickets db)" "t_state t = Leased"
  then have "has_state (abs_exec db) (t_id t) Leased" by (auto simp: has_state_abs [OF wf])
  then obtain i where "held (abs_exec db) i (t_id t)" using inv by (auto simp: inv_leases_def)
  then obtain l where "l \<in> set (leases db)" "l_ticket_id l = t_id t" "l_state l = Held"
    by (auto simp: held_abs [OF wf])
  then show "\<exists>!l. l \<in> set (leases db) \<and> l_ticket_id l = t_id t \<and> l_state l = Held"
    using good_held_unique [OF good] by (intro ex1I [of _ l]) auto
qed

lemma good_attempts_safe:
  assumes good: "good_db db"
  shows "attempts_safe db"
  unfolding attempts_safe_def
proof
  have wf: "wf_db db" and inv: "inv_attempts (abs_exec db)" using good by (auto simp: good_db_def exec_inv_def)
  fix t assume "t \<in> set (tickets db)"
  then have row: "x_tickets (abs_exec db) (t_id t) = Some (abs_ticket t)"
    by (auto simp: abs_exec_def table_map_Some wf_db_tables wf)
  show "t_attempt t \<le> t_max_attempts t \<and> (t_state t \<in> {Pending, Ready} \<longrightarrow> t_attempt t < t_max_attempts t) \<and>
     length (filter (\<lambda>l. l_ticket_id l = t_id t) (leases db)) \<le> t_attempt t"
    using inv [unfolded inv_attempts_def] row leases_of_count [OF wf, of "t_id t"]
    by (metis abs_ticket_def aticket.select_convs)
qed

lemma good_dependencies_safe:
  assumes good: "good_db db"
  shows "dependencies_safe db"
proof -
  have wf: "wf_db db" and inv: "inv_deps (abs_exec db)" using good by (auto simp: good_db_def exec_inv_def)
  have "\<exists>r \<in> set (tickets db). \<exists>s \<in> set (tickets db).
        t_id r = t \<and> t_id s = d \<and> (t_state r \<noteq> Pending \<longrightarrow> t_state s = Succeeded)"
    if edge: "(t, d) \<in> set (dep_edges (ticket_dependencies db))" for t d
  proof -
    have edge': "(t, d) \<in> x_deps (abs_exec db)" using edge by (simp add: x_deps_abs)
    from good_deps_exist [OF good edge'] obtain r s where
        rs: "r \<in> set (tickets db)" "t_id r = t" "s \<in> set (tickets db)" "t_id s = d"
      by (auto simp: abs_exec_def table_map_Some wf_db_tables wf)
    have "has_state (abs_exec db) t Pending \<or> has_state (abs_exec db) d Succeeded"
      using inv edge' unfolding inv_deps_def by blast
    then have "t_state r = Pending \<or> t_state s = Succeeded"
      using rs wf_table_same [OF wf_db_tables(2) [OF wf]] unfolding has_state_abs [OF wf] by metis
    then show ?thesis using rs by blast
  qed
  then show ?thesis using inv by (auto simp: dependencies_safe_def inv_deps_def x_deps_abs)
qed

section \<open>Promotion of dependents\<close>

definition ready_row :: "instant \<Rightarrow> ticket \<Rightarrow> ticket" where
  "ready_row now t = t\<lparr>t_state := Ready, t_state_changed_at := now, t_epoch := t_epoch t + 1\<rparr>"

definition promoted_row :: "db \<Rightarrow> instant \<Rightarrow> nat set \<Rightarrow> ticket \<Rightarrow> ticket" where
  "promoted_row db now ids t =
     (if t_id t \<in> ids \<and> t_state t = Pending \<and> unsucceeded_dependencies db (t_id t) = 0 then ready_row now t else t)"

lemma promoted_row_fields [simp]:
  "t_id (promoted_row db now ids t) = t_id t"
  "t_state (promoted_row db now ids t) = Succeeded \<longleftrightarrow> t_state t = Succeeded"
  by (auto simp: promoted_row_def ready_row_def)

lemma unsucceeded_map:
  assumes "tickets db' = map g (tickets db)" and "ticket_dependencies db' = ticket_dependencies db"
    and "\<And>t. t_id (g t) = t_id t" "\<And>t. t_state (g t) = Succeeded \<longleftrightarrow> t_state t = Succeeded"
  shows "unsucceeded_dependencies db' i = unsucceeded_dependencies db i"
  using assms by (simp add: unsucceeded_dependencies_def length_concat filter_map comp_def)

lemma promote_effect:
  assumes "promote_in_tx i now db = (Inr ts, db')" and wf: "wf_table t_id (tickets db)"
  shows "tickets db' = map (promoted_row db now {i}) (tickets db)" "ticket_dependencies db' = ticket_dependencies db"
    "leases db' = leases db"
proof -
  let ?p = "\<lambda>t. t_id t = i \<and> t_state t = Pending"
  from assms(1) obtain db1 us where run: "mark_ready_if_unblocked_in_tx i now db = (Inr ts, db1)"
    and loop: "for_tx (\<lambda>t. append_event TicketSubject (Some (t_id t)) now (TicketReadyEvent (t_id t))) ts db1 = (Inr us, db')"
    by (auto simp: promote_in_tx_def bind_tx_Inr)
  have same: "tickets db' = tickets db1 \<and> ticket_dependencies db' = ticket_dependencies db1 \<and> leases db' = leases db1"
    by (rule for_tx_rel [OF loop]) (auto simp: append_event_Inr)
  from run obtain t where t: "ticket_by_id db i = Some t"
    by (auto simp: mark_ready_if_unblocked_in_tx_def bind_i64_Inr split: option.splits)
  then have "t \<in> set (tickets db)" "t_id t = i" by (simp_all add: ticket_by_id_def find_id [OF wf])
  then have one: "r = t" if "r \<in> set (tickets db)" "t_id r = i" for r using that wf_table_same [OF wf] by blast
  have "tickets db1 = map (promoted_row db now {i}) (tickets db) \<and> ticket_dependencies db1 = ticket_dependencies db \<and>
      leases db1 = leases db"
  proof (cases "t_state t = Pending \<and> unsucceeded_dependencies db i = 0")
    case True
    then have "db1 = db\<lparr>tickets := update_where ?p (ready_row now) (tickets db)\<rparr>"
      using run t by (auto simp: mark_ready_if_unblocked_in_tx_def bind_i64_Inr Let_def ready_row_def [abs_def]
          split: option.splits)
    then show ?thesis using True by (auto simp: update_where_def promoted_row_def)
  next
    case False
    then have "db1 = db" using run t
      by (auto simp: mark_ready_if_unblocked_in_tx_def bind_i64_Inr split: if_splits)
    moreover have "promoted_row db now {i} r = r" if "r \<in> set (tickets db)" for r
      using False one [OF that] by (auto simp: promoted_row_def)
    ultimately show ?thesis by (simp add: map_idI)
  qed
  then show "tickets db' = map (promoted_row db now {i}) (tickets db)" "ticket_dependencies db' = ticket_dependencies db"
    "leases db' = leases db" using same by simp_all
qed

lemma promote_loop_effect:
  assumes "for_tx (\<lambda>dep. promote_in_tx (t_id dep) now) ds db = (Inr us, db')" and "wf_table t_id (tickets db)"
  shows "tickets db' = map (promoted_row db now (t_id ` set ds)) (tickets db) \<and>
    ticket_dependencies db' = ticket_dependencies db \<and> leases db' = leases db"
  using assms
proof (induction ds arbitrary: db us)
  case Nil
  then show ?case by (simp add: promoted_row_def)
next
  case (Cons d ds)
  from Cons.prems(1) obtain ts db1 vs where step: "promote_in_tx (t_id d) now db = (Inr ts, db1)"
    and loop: "for_tx (\<lambda>dep. promote_in_tx (t_id dep) now) ds db1 = (Inr vs, db')" by (auto simp: bind_tx_Inr)
  note one = promote_effect [OF step Cons.prems(2)]
  have "map t_id (tickets db1) = map t_id (tickets db)" using one(1) by simp
  then have "wf_table t_id (tickets db1)" using Cons.prems(2) by (simp add: wf_table_def)
  note rest = Cons.IH [OF loop this]
  have un: "unsucceeded_dependencies db1 j = unsucceeded_dependencies db j" for j
    by (rule unsucceeded_map [OF one(1,2)]) simp_all
  have "promoted_row db1 now S (promoted_row db now {t_id d} t) = promoted_row db now (insert (t_id d) S) t" for S t
  proof (cases "t_id t = t_id d \<and> t_state t = Pending \<and> unsucceeded_dependencies db (t_id d) = 0")
    case True
    then have "promoted_row db now {t_id d} t = ready_row now t" "promoted_row db now (insert (t_id d) S) t = ready_row now t"
      by (simp_all add: promoted_row_def)
    moreover have "promoted_row db1 now S (ready_row now t) = ready_row now t"
      by (simp add: promoted_row_def) (simp add: ready_row_def)
    ultimately show ?thesis by simp
  next
    case False
    then have "promoted_row db now {t_id d} t = t" by (auto simp: promoted_row_def)
    moreover have "promoted_row db1 now S t = promoted_row db now (insert (t_id d) S) t"
      using False unfolding promoted_row_def un by (intro if_cong) auto
    ultimately show ?thesis by simp
  qed
  then show ?case using rest one by simp
qed

lemma ticket_of_dom: "good_db db \<Longrightarrow> d \<in> dom (x_tickets (abs_exec db)) \<Longrightarrow> \<exists>s \<in> set (tickets db). t_id s = d"
  by (drule good_wf) (auto simp: abs_exec_def table_map_Some wf_db_tables)

lemma unsucceeded_iff:
  assumes good: "good_db db"
  shows "unsucceeded_dependencies db t = 0 \<longleftrightarrow> (\<forall>d. (t, d) \<in> set (dep_edges (ticket_dependencies db)) \<longrightarrow>
    (\<exists>s \<in> set (tickets db). t_id s = d \<and> t_state s = Succeeded))"
proof
  assume 0: "unsucceeded_dependencies db t = 0"
  show "\<forall>d. (t, d) \<in> set (dep_edges (ticket_dependencies db)) \<longrightarrow>
    (\<exists>s \<in> set (tickets db). t_id s = d \<and> t_state s = Succeeded)"
  proof (intro allI impI)
    fix d assume edge: "(t, d) \<in> set (dep_edges (ticket_dependencies db))"
    then have "d \<in> dom (x_tickets (abs_exec db))" using good_deps_exist [OF good] by (simp add: x_deps_abs)
    then obtain s where "s \<in> set (tickets db)" "t_id s = d" using ticket_of_dom [OF good] by blast
    then show "\<exists>s \<in> set (tickets db). t_id s = d \<and> t_state s = Succeeded" using unsucceeded_0 [OF 0 edge] by blast
  qed
next
  assume all: "\<forall>d. (t, d) \<in> set (dep_edges (ticket_dependencies db)) \<longrightarrow>
    (\<exists>s \<in> set (tickets db). t_id s = d \<and> t_state s = Succeeded)"
  have wf: "wf_table t_id (tickets db)" using good by (auto simp: good_db_def wf_db_def)
  have "t_state r = Succeeded" if "d \<in> set (ticket_dependencies db)" "td_ticket_id d = t" "r \<in> set (tickets db)"
    "t_id r = td_depends_on_ticket_id d" for d r
    using all [rule_format, of "t_id r"] that wf_table_same [OF wf] by (fastforce simp: dep_edges_def)
  then show "unsucceeded_dependencies db t = 0"
    by (auto simp: unsucceeded_dependencies_def filter_empty_conv)
qed

lemma dependents_ids:
  assumes "good_db db"
  shows "t_id ` set (dependents db i) = {t. (t, i) \<in> set (dep_edges (ticket_dependencies db))}"
proof -
  have "\<exists>r \<in> set (tickets db). t_id r = td_ticket_id d" if "d \<in> set (ticket_dependencies db)" for d
  proof -
    have "td_ticket_id d \<in> dom (x_tickets (abs_exec db))"
      using good_deps_exist [OF assms, of "td_ticket_id d" "td_depends_on_ticket_id d"] that
      by (force simp: x_deps_abs dep_edges_def)
    then show ?thesis by (rule ticket_of_dom [OF assms])
  qed
  then show ?thesis by (fastforce simp: dependents_def dep_edges_def image_iff)
qed

section \<open>Sweeps\<close>

text \<open>A session that ended stays as it was.\<close>

lemma ended_session_stays:
  assumes "evolves db db'" and "store_inv db" and "scan_session_by_id db i = Some s" and "\<not> scan_active_status (ss_status s)"
  shows "scan_session_by_id db' i = Some s"
proof -
  have s: "s \<in> set (scan_sessions db)" "ss_id s = i"
    using assms(3) find_Some_in by (fastforce simp: scan_session_by_id_def)+
  then obtain t where "t \<in> set (scan_sessions db')" "scan_later s t" using assms(1,2) by (auto simp: evolves_def)
  then have "s \<in> set (scan_sessions db')" using assms(4) by (auto simp: scan_later_def)
  moreover have "wf_table ss_id (scan_sessions db')"
    using evolves_inv [OF assms(1,2)] by (simp add: store_inv_def scan_inv_wf)
  ultimately show ?thesis using s(2) by (simp add: scan_session_by_id_def find_id)
qed

definition routed_session_ended :: "db \<Rightarrow> ticket \<Rightarrow> bool" where
  "routed_session_ended db t \<longleftrightarrow> (\<exists>payload i owner root s. parse_ticket (t_kind t) (t_payload t) = Some payload \<and>
     scan_routing payload = Inr (i, owner, root) \<and> scan_session_by_id db i = Some s \<and>
     ss_owner_node_id s = owner \<and> ss_storage_root_id s = root \<and> \<not> scan_active_status (ss_status s))"

lemma routed_session_stays:
  "routed_session_ended db t \<Longrightarrow> evolves db db' \<Longrightarrow> store_inv db \<Longrightarrow> routed_session_ended db' t"
  using ended_session_stays unfolding routed_session_ended_def by blast

lemma settle_loop_sessions:
  assumes "for_tx (settle_expired_pair report now) ps db = (Inr us, db')" and "store_inv db"
    and "t_id t \<in> snd ` set ps" "t_id t \<notin> set (er_requeued_tickets report)"
    and "ticket_by_id db (t_id t) = Some t" and "routes_scan_run t"
  shows "routed_session_ended db' t"
  using assms(1,2,3,5)
proof (induction ps arbitrary: db us)
  case (Cons p ps)
  from Cons.prems obtain u db1 vs where step: "settle_expired_pair report now p db = (Inr u, db1)"
    and loop: "for_tx (settle_expired_pair report now) ps db1 = (Inr vs, db')" by (auto simp: bind_tx_Inr)
  have inv1: "store_inv db1" and same: "tickets db1 = tickets db"
    using settle_noted [OF step] evolves_inv Cons.prems(2) by (auto simp: pair_noted_def)
  show ?case
  proof (cases "snd p = t_id t")
    case True
    then have "settle_expired_pair report now (fst p, t_id t) db = (Inr u, db1)" using step by (cases p) simp
    then obtain db0 where emit: "emit_expire_pair (fst p) (t_id t) report now db = (Inr (), db0)"
      and "t_id t \<in> set (er_requeued_tickets report) \<and> db1 = db0 \<or> t_id t \<notin> set (er_requeued_tickets report) \<and>
       (\<exists>r. ticket_by_id db0 (t_id t) = Some r \<and> fail_scan_for_failed_ticket_in_tx r now db0 = (Inr u, db1))"
      by (rule settle_Inr)
    then obtain r where r: "ticket_by_id db0 (t_id t) = Some r" "fail_scan_for_failed_ticket_in_tx r now db0 = (Inr u, db1)"
      using assms(4) by blast
    note noted = emit_expire_pair_noted [OF emit, unfolded pair_noted_def]
    have "r = t" using r(1) noted Cons.prems(4) by (simp add: ticket_by_id_def)
    moreover have "scan_inv db0" using noted evolves_inv Cons.prems(2) by (auto simp: store_inv_def)
    ultimately have "routed_session_ended db1 t"
      using fail_scan_ends_session [OF r(2)] assms(6) unfolding routed_session_ended_def by blast
    then show ?thesis using settle_loop_noted [OF loop] routed_session_stays inv1 by blast
  next
    case False
    then show ?thesis using Cons.IH [OF loop inv1] Cons.prems(3,4) same by (auto simp: ticket_by_id_def)
  qed
qed simp

text \<open>What one sweep leaves overdue.\<close>

lemma filter_not_taken:
  assumes "distinct xs"
  shows "filter (\<lambda>x. x \<notin> set (take n xs)) xs = drop n xs"
proof -
  have "set (take n xs) \<inter> set (drop n xs) = {}" using assms by (simp add: set_take_disj_set_drop_if_distinct)
  then have "filter (\<lambda>x. x \<notin> set (take n xs)) (take n xs @ drop n xs) = drop n xs"
    by (subst filter_append) (auto simp: filter_empty_conv filter_id_conv)
  then show ?thesis by simp
qed

lemma overdue_after_sweep:
  assumes "wf_db db"
  shows "filter (overdue now) (leases (expire_leases now (expiry_batch now db) db)) =
    drop LEASE_BATCH_LIMIT (filter (overdue now) (leases db))"
proof -
  let ?F = "filter (overdue now) (leases db)" and ?B = "expiry_batch now db"
  have "distinct (leases db)" using wf_table_distinct [OF wf_db_tables(3) [OF assms]] by (simp add: distinct_map)
  then have drop: "filter (\<lambda>l. l \<notin> set ?B) ?F = drop LEASE_BATCH_LIMIT ?F"
    unfolding expiry_batch_def by (intro filter_not_taken) simp
  have "filter (overdue now) (map (\<lambda>l. if l \<in> set B then close_row Expired IssuerLost now l else l) ls) =
      filter (\<lambda>l. l \<notin> set B) (filter (overdue now) ls)" for B ls
    by (induction ls) (auto simp: overdue_def close_row_def)
  then show ?thesis using drop by (simp add: expire_leases_def)
qed

definition sweeps :: "instant \<Rightarrow> nat \<Rightarrow> db \<Rightarrow> db" where
  "sweeps now n db = ((\<lambda>db. snd (lease_expire_due now db)) ^^ n) db"

lemma sweep_runs:
  assumes good: "good_db db" and max: "\<forall>t \<in> set (tickets db). t_max_attempts t < 2 ^ 32"
  shows "lease_expire_due now db = (Inr (report_add db (expiry_batch now db) empty_report),
      expire_leases now (expiry_batch now db) db)"
    "good_db (expire_leases now (expiry_batch now db) db)"
proof -
  obtain r db' where run: "expire_due_in_tx now db = (r, db')" by (cases "expire_due_in_tx now db")
  then show "lease_expire_due now db = (Inr (report_add db (expiry_batch now db) empty_report),
      expire_leases now (expiry_batch now db) db)" "good_db (expire_leases now (expiry_batch now db) db)"
    using expire_due_eq [OF good run] max refines_good good by (auto simp: lease_expire_due_def transact_def)
qed

lemma sweeps_state:
  assumes "good_db db" and "\<forall>t \<in> set (tickets db). t_max_attempts t < 2 ^ 32"
  shows "good_db (sweeps now n db) \<and> (\<forall>t \<in> set (tickets (sweeps now n db)). t_max_attempts t < 2 ^ 32) \<and>
    filter (overdue now) (leases (sweeps now n db)) = drop (n * LEASE_BATCH_LIMIT) (filter (overdue now) (leases db))"
proof (induction n)
  case 0
  then show ?case using assms by (simp add: sweeps_def)
next
  case (Suc n)
  let ?d = "sweeps now n db"
  have next_db: "sweeps now (Suc n) db = expire_leases now (expiry_batch now ?d) ?d"
    using sweep_runs(1) [of ?d now] Suc by (simp add: sweeps_def)
  have "\<forall>t \<in> set (tickets (expire_leases now ls ?d)). t_max_attempts t < 2 ^ 32" for ls
    using Suc by (auto simp: expire_leases_def)
  then show ?case unfolding next_db
    using Suc sweep_runs(2) [of ?d now] overdue_after_sweep [of ?d now] by (auto simp: add.commute)
qed

end
