(* ===== verification/Execution_Properties.thy ===== *)
theory Execution_Properties
  imports Execution_Runs
begin

text \<open>
  The properties of the control plane's runs and of its handlers, with a concrete run that each applies to.
\<close>

section \<open>Properties\<close>

lemma run_from_empty:
  assumes "reachable db"
  shows "act\<^sup>*\<^sup>* (abs_exec empty_db) (abs_exec db)"
  using cp_run_audited [OF reach_run [OF assms]] cp_inv_empty
  by (simp add: audited_def evolves_def cp_inv_def)

text \<open>
  C1. The control plane refines the abstract execution core: the empty store is an initial state of the
  core, every store the handlers can produce is reached from it by actions of the core, and the
  next step of the system, whatever call or outside step it is, is again a sequence of actions of
  the core that keeps its invariant.
\<close>

theorem control_plane_refines_core:
  assumes "reachable db" and "cp_step db db'"
  shows "exec_init (abs_exec empty_db) \<and> act\<^sup>*\<^sup>* (abs_exec empty_db) (abs_exec db) \<and>
    act\<^sup>*\<^sup>* (abs_exec db) (abs_exec db') \<and> exec_inv (abs_exec db')"
proof -
  have "reachable db'" using assms by (rule reach_step)
  moreover have "act\<^sup>*\<^sup>* (abs_exec db) (abs_exec db')"
    using cp_step_audited [OF assms(2)] reachable_inv(1) [OF assms(1)] by (simp add: audited_def evolves_def)
  ultimately show ?thesis using abs_empty run_from_empty [OF assms(1)] reachable_inv(5) by blast
qed

text \<open>
  C3. In every reachable store the tables agree: a lease belongs to a ticket, a held lease to a leased
  one; a leased ticket has exactly one held lease; attempts stay within the limit, below it
  while the ticket may still run, and no ticket has more leases than attempts; the dependency
  graph has no cycle and a ticket past pending has only succeeded dependencies.
\<close>

theorem reachable_store_is_safe:
  assumes "reachable db"
  shows "leases_safe db \<and> attempts_safe db \<and> dependencies_safe db"
  using reachable_inv(3) [OF assms] good_leases_safe good_attempts_safe good_dependencies_safe by blast

text \<open>
  C2. The event log is complete: replaying it from the beginning, keeping for each job, ticket and
  lease what the last event about it says, gives exactly the rows of the three tables and
  their states.
\<close>

theorem event_log_determines_states:
  assumes "reachable db"
  shows "replay ticket_fact (events db) i = map_option t_state (ticket_by_id db i) \<and>
    replay lease_fact (events db) i = map_option l_state (lease_by_id db i) \<and>
    replay job_fact (events db) i = map_option j_state (job_by_id db i)"
proof -
  have wf: "wf_db db" and log: "log_matches db" using reachable_inv [OF assms] by blast+
  note find = table_map_find [OF wf_db_tables(1) [OF wf]] table_map_find [OF wf_db_tables(2) [OF wf]]
    table_map_find [OF wf_db_tables(3) [OF wf]]
  show ?thesis using log
    by (simp add: find log_matches_def states_defs ticket_by_id_def lease_by_id_def job_by_id_def)
qed

lemma replay_failed:
  "replay ticket_fact es t = Some Failed \<Longrightarrow>
     \<exists>e \<in> set es. \<exists>a m reason failure issue_id. ev_payload e = TicketFailedTerminalEvent t a m reason failure issue_id"
proof (induction es rule: rev_induct)
  case (snoc e es)
  show ?case
  proof (cases "ticket_fact (ev_payload e) = Some (t, Failed)")
    case True
    then show ?thesis by (cases "ev_payload e") auto
  next
    case False
    then show ?thesis using snoc by (auto split: option.splits if_splits)
  qed
qed simp

text \<open>
  C4. In every reachable store a failed ticket has exactly one issue filed for its terminal failure, and
  the log has a terminal-failure event of the ticket that names it.
\<close>

theorem failed_ticket_is_filed:
  assumes "reachable db" and "t \<in> set (tickets db)" "t_state t = Failed"
  shows "\<exists>i \<in> set (issues db). is_kind i = TerminalFailure \<and>
    is_dedupe_key i = Some (terminal_failure_dedupe_key (t_id t)) \<and>
    (\<forall>j \<in> set (issues db). is_dedupe_key j = Some (terminal_failure_dedupe_key (t_id t)) \<longrightarrow> j = i) \<and>
    (\<exists>e \<in> set (events db). \<exists>a m reason failure.
       ev_payload e = TicketFailedTerminalEvent (t_id t) a m reason failure (Some (is_id i)))"
proof -
  note inv = reachable_inv [OF assms(1)]
  have "ticket_states db (t_id t) = Some Failed"
    using assms(2,3) inv(4) by (auto simp: ticket_states_def table_map_Some wf_db_tables)
  then have "replay ticket_fact (events db) (t_id t) = Some Failed" using inv(2) by (simp add: log_matches_def)
  then obtain e a m reason failure issue_id where
      e: "e \<in> set (events db)" "ev_payload e = TicketFailedTerminalEvent (t_id t) a m reason failure issue_id"
    using replay_failed by blast
  then have "filed_under db (t_id t) issue_id"
    using inv(1) by (auto simp: store_inv_def failures_filed_def)
  then obtain i where i: "i \<in> set (issues db)" "issue_id = Some (is_id i)" "is_kind i = TerminalFailure"
      "is_dedupe_key i = Some (terminal_failure_dedupe_key (t_id t))" by (auto simp: filed_under_def)
  have "j = i" if "j \<in> set (issues db)" "is_dedupe_key j = Some (terminal_failure_dedupe_key (t_id t))" for j
    using that i inv(1) unfolding store_inv_def issue_inv_def by (metis option.distinct(1))
  then show ?thesis using e i by blast
qed


lemma ticket_keeps_terminal:
  assumes "reachable db" and "act\<^sup>*\<^sup>* (abs_exec db) (abs_exec db')" and wf': "wf_db db'"
    and t: "t \<in> set (tickets db)" "ticket_terminal (t_state t)"
  shows "\<exists>t' \<in> set (tickets db'). t_id t' = t_id t \<and> t_state t' = t_state t \<and> t_attempt t \<le> t_attempt t'"
proof -
  have "x_tickets (abs_exec db) (t_id t) = Some (abs_ticket t)"
    using t reachable_inv(4) [OF assms(1)] by (auto simp: abs_exec_def table_map_Some wf_db_tables)
  from run_ticket_next [OF assms(2) this] obtain a where a: "x_tickets (abs_exec db') (t_id t) = Some a"
      "ticket_next\<^sup>*\<^sup>* (t_state t) (at_state a)" "t_attempt t \<le> at_attempt a" by (auto simp: abs_ticket_def)
  then have "at_state a = t_state t" using ticket_life.terminal_forever t(2) by blast
  moreover obtain t' where "t' \<in> set (tickets db')" "t_id t' = t_id t" "abs_ticket t' = a"
    using a(1) wf' by (auto simp: abs_exec_def table_map_Some wf_db_tables)
  ultimately show ?thesis using a(3) by (intro bexI [of _ t']) (auto simp: abs_ticket_def)
qed


lemma release_effect:
  assumes good: "good_db db" and run: "release_lease i result now db = (Inr l, db')"
  obtains r t db1 where "held_pair db r t" "l_id r = i" "l = close_row Released ReasonReleased now r"
    "db1 = lease_closed db r (close_row Released ReasonReleased now) t (succeeded_row result now)" "good_db db1"
    "tickets db' = map (promoted_row db1 now {d. (d, t_id t) \<in> set (dep_edges (ticket_dependencies db))}) (tickets db1)"
    "leases db' = leases db1"
proof -
  from run obtain db1 us where rel: "release_in_tx i result now db = (Inr l, db1)"
    and loop: "for_tx (\<lambda>dep. promote_in_tx (t_id dep) now) (dependents db1 (l_ticket_id l)) (release_logged db1 now l) =
      (Inr us, db')"
    unfolding release_lease_def transact_Inr release_lease_Inr by blast
  have good1: "good_db db1" using refines_good [OF release_refines [OF rel] good] .
  from release_Inr [OF rel good_wf [OF good]] obtain r t where rt: "held_pair db r t" "l_id r = i"
      "l = close_row Released ReasonReleased now r"
      "db1 = lease_closed db r (close_row Released ReasonReleased now) t (succeeded_row result now)" by metis
  have same: "tickets (release_logged db1 now l) = tickets db1" "leases (release_logged db1 now l) = leases db1"
      "ticket_dependencies (release_logged db1 now l) = ticket_dependencies db1"
    by (simp_all add: release_logged_def)
  have "wf_table t_id (tickets (release_logged db1 now l))" using good1 same by (simp add: good_db_def wf_db_def)
  note eff = promote_loop_effect [OF loop this]
  have "unsucceeded_dependencies (release_logged db1 now l) = unsucceeded_dependencies db1"
    using same by (simp add: unsucceeded_dependencies_def fun_eq_iff)
  then have "promoted_row (release_logged db1 now l) = promoted_row db1" by (simp add: promoted_row_def fun_eq_iff)
  moreover have "t_id ` set (dependents db1 (l_ticket_id l)) = {d. (d, t_id t) \<in> set (dep_edges (ticket_dependencies db))}"
    using dependents_ids [OF good1] rt by (simp add: held_pair_def lease_closed_def)
  ultimately have "tickets db' = map (promoted_row db1 now {d. (d, t_id t) \<in> set (dep_edges (ticket_dependencies db))}) (tickets db1)"
      "leases db' = leases db1"
    using eff unfolding same by simp_all
  then show thesis by (rule that [OF rt good1])
qed

text \<open>
  C5. Releasing a lease succeeds its ticket and frees its dependents at once: the lease is closed, the
  ticket has the result, every pending dependent all of whose dependencies have now succeeded is
  ready, and no other ticket or lease changes.
\<close>

theorem release_promotes_dependents:
  assumes good: "good_db db" and run: "release_lease i result now db = (Inr l, db')"
  shows "\<exists>r \<in> set (leases db). \<exists>t \<in> set (tickets db). l_id r = i \<and> l_state r = Held \<and> t_id t = l_ticket_id r \<and>
    t_state t = Leased \<and> l = close_row Released ReasonReleased now r \<and>
    leases db' = map (\<lambda>x. if x = r then l else x) (leases db) \<and>
    tickets db' = map (\<lambda>x. if x = t then succeeded_row result now t
      else if (t_id x, t_id t) \<in> set (dep_edges (ticket_dependencies db)) \<and> t_state x = Pending \<and>
        (\<forall>d. (t_id x, d) \<in> set (dep_edges (ticket_dependencies db)) \<longrightarrow>
           d = t_id t \<or> (\<exists>s \<in> set (tickets db). t_id s = d \<and> t_state s = Succeeded))
      then ready_row now x else x) (tickets db)"
  using good run
proof (rule release_effect)
  fix r t db1
  let ?E = "set (dep_edges (ticket_dependencies db))"
  assume pair: "held_pair db r t" and ids: "l_id r = i" "l = close_row Released ReasonReleased now r"
    and db1: "db1 = lease_closed db r (close_row Released ReasonReleased now) t (succeeded_row result now)"
    and good1: "good_db db1"
    and ts: "tickets db' = map (promoted_row db1 now {d. (d, t_id t) \<in> ?E}) (tickets db1)" and ls: "leases db' = leases db1"
  note same = held_pair_same [OF good_wf [OF good] pair]
  have l_iff: "l_id x = l_id r \<and> l_state x = Held \<longleftrightarrow> x = r" if "x \<in> set (leases db)" for x
    using same(2) [OF that] pair unfolding held_pair_def by blast
  have t_iff: "t_id x = t_id t \<and> t_state x = Leased \<longleftrightarrow> x = t" if "x \<in> set (tickets db)" for x
    using same(1) [OF that] pair unfolding held_pair_def by blast
  have leases1: "leases db1 = map (\<lambda>x. if x = r then l else x) (leases db)"
    unfolding db1 lease_closed_def update_where_def ids(2) by (simp add: l_iff cong: map_cong)
  have tickets1: "tickets db1 = map (\<lambda>x. if x = t then succeeded_row result now t else x) (tickets db)"
    unfolding db1 lease_closed_def update_where_def by (simp add: t_iff cong: map_cong)
  have succ: "(\<exists>s \<in> set (tickets db1). t_id s = d \<and> t_state s = Succeeded) \<longleftrightarrow>
      d = t_id t \<or> (\<exists>s \<in> set (tickets db). t_id s = d \<and> t_state s = Succeeded)" for d
  proof -
    have "t \<in> set (tickets db)" "t_state t = Leased" using pair by (simp_all add: held_pair_def)
    then show ?thesis unfolding tickets1 by (force simp: succeeded_row_def)
  qed
  have "promoted_row db1 now {d. (d, t_id t) \<in> ?E} (if x = t then succeeded_row result now t else x) =
      (if x = t then succeeded_row result now t
       else if (t_id x, t_id t) \<in> ?E \<and> t_state x = Pending \<and>
          (\<forall>d. (t_id x, d) \<in> ?E \<longrightarrow> d = t_id t \<or> (\<exists>s \<in> set (tickets db). t_id s = d \<and> t_state s = Succeeded))
       then ready_row now x else x)" for x
  proof (cases "x = t")
    case True
    then show ?thesis by (simp add: promoted_row_def) (simp add: succeeded_row_def)
  next
    case False
    have deps: "ticket_dependencies db1 = ticket_dependencies db" by (simp add: db1 lease_closed_def)
    from False show ?thesis
      by (simp only: promoted_row_def unsucceeded_iff [OF good1] succ deps if_False mem_Collect_eq)
  qed
  then have "tickets db' = map (\<lambda>x. if x = t then succeeded_row result now t
       else if (t_id x, t_id t) \<in> ?E \<and> t_state x = Pending \<and>
          (\<forall>d. (t_id x, d) \<in> ?E \<longrightarrow> d = t_id t \<or> (\<exists>s \<in> set (tickets db). t_id s = d \<and> t_state s = Succeeded))
       then ready_row now x else x) (tickets db)"
    using ts tickets1 by (simp add: comp_def)
  then show ?thesis using pair ids ls leases1 unfolding held_pair_def by (intro bexI [of _ r] bexI [of _ t]) simp_all
qed

text \<open>
  C6. The sweep of overdue leases ends: each call closes at most a batch, every call succeeds, and after
  as many calls as the backlog has batches nothing is overdue, so that the next call reports no
  expired lease and changes nothing.
\<close>

theorem expiry_sweeps_end:
  assumes "good_db db" and "\<forall>t \<in> set (tickets db). t_max_attempts t < 2 ^ 32"
    and "length (filter (overdue now) (leases db)) \<le> n * LEASE_BATCH_LIMIT"
  shows "(\<forall>k. \<exists>report. lease_expire_due now (sweeps now k db) = (Inr report, sweeps now (Suc k) db) \<and>
      length (er_expired_leases report) \<le> LEASE_BATCH_LIMIT) \<and>
    (\<forall>l \<in> set (leases (sweeps now n db)). \<not> overdue now l) \<and>
    lease_expire_due now (sweeps now n db) = (Inr empty_report, sweeps now n db)"
proof (intro conjI allI)
  fix k
  note st = sweeps_state [OF assms(1,2), of now k]
  show "\<exists>report. lease_expire_due now (sweeps now k db) = (Inr report, sweeps now (Suc k) db) \<and>
      length (er_expired_leases report) \<le> LEASE_BATCH_LIMIT"
    using sweep_runs(1) [of "sweeps now k db" now] st
    by (auto simp: sweeps_def report_add_def empty_report_def expiry_batch_def)
next
  note st = sweeps_state [OF assms(1,2), of now n]
  then have none: "filter (overdue now) (leases (sweeps now n db)) = []" using assms(3) by simp
  then show "\<forall>l \<in> set (leases (sweeps now n db)). \<not> overdue now l" by (simp add: filter_empty_conv)
  have batch: "expiry_batch now (sweeps now n db) = []" by (simp add: expiry_batch_def none)
  have "expire_leases now [] d = d" for d by (simp add: expire_leases_def)
  then show "lease_expire_due now (sweeps now n db) = (Inr empty_report, sweeps now n db)"
    using sweep_runs(1) [of "sweeps now n db" now] st
    by (simp add: batch report_add_def empty_report_def)
qed

text \<open>
  C7. The sweep and the scans stay coupled: when it succeeds, every scan-routing ticket whose lease
  expired with no retries left names, in a well-formed payload, a session of its root and owner
  that has ended.
\<close>

theorem expired_routing_ticket_ends_scan:
  assumes inv: "store_inv db" and run: "expire_due now db = (Inr report, db')"
    and t: "t \<in> set (tickets db')" "t_id t \<in> snd ` set (er_pairs report)" "routes_scan_run t"
  shows "routed_session_ended db' t"
  using run
proof (rule expire_due_Inr)
  fix db1 us
  assume exp: "expire_due_in_tx now db = (Inr report, db1)"
    and loop: "for_tx (settle_expired_pair report now) (er_pairs report) db1 = (Inr us, db')"
    and eq: "good_db db \<Longrightarrow> report = report_add db (expiry_batch now db) empty_report"
      "good_db db \<Longrightarrow> db1 = expire_leases now (expiry_batch now db) db"
  note good = store_inv_good [OF inv]
  then have report: "report = report_add db (expiry_batch now db) empty_report"
    and db1: "db1 = expire_leases now (expiry_batch now db) db"
    using eq by blast+
  have ev: "evolves db db1"
    by (rule evolves_core) (use expire_due_refines [OF exp] in \<open>simp_all add: db1 expire_leases_def same_scans_def same_issues_def\<close>)
  have inv1: "store_inv db1" by (rule evolves_inv [OF ev inv])
  have in1: "t \<in> set (tickets db1)" using settle_loop_noted [OF loop] t(1) by simp
  then obtain u where u: "u \<in> set (tickets db)" "t = batch_ticket now (expiry_batch now db) u"
    by (auto simp: db1 expire_leases_def)
  have "t_id t \<notin> set (er_requeued_tickets report)"
  proof
    assume "t_id t \<in> set (er_requeued_tickets report)"
    then obtain l where l: "l \<in> set (expiry_batch now db)" "retries db l" "l_ticket_id l = t_id t"
      by (auto simp: report report_add_def empty_report_def)
    then have "t_attempt u < t_max_attempts u"
      using u wf_table_same [OF wf_db_tables(2) [OF good(2)]] by (auto simp: retries_def)
    moreover have "t_id u \<in> l_ticket_id ` set (expiry_batch now db)"
      using l(1,3) u(2) by (intro image_eqI [of _ _ l]) simp_all
    ultimately have "t_state t = Ready"
      by (simp add: u(2) batch_ticket_def expired_ticket_def requeued_row_def)
    then show False using t(3) by (simp add: routes_scan_run_def)
  qed
  moreover have "ticket_by_id db1 (t_id t) = Some t"
    using in1 ticket_by_id_Some store_inv_good(2) [OF inv1] by blast
  ultimately show ?thesis using settle_loop_sessions [OF loop inv1 t(2)] t(3) by blast
qed

lemma claims_renewed_iff:
  "claims_renewed i now ops = Inr () \<longleftrightarrow> (\<forall>c \<in> set ops. claimed_by i c \<longrightarrow> claim_unexpired now c)"
proof -
  have "length (filter (\<lambda>c. claimed_by i c \<and> claim_unexpired now c) ops) \<le> length (filter (claimed_by i) ops) \<and>
    (length (filter (claimed_by i) ops) = length (filter (\<lambda>c. claimed_by i c \<and> claim_unexpired now c) ops) \<longleftrightarrow>
     (\<forall>c \<in> set ops. claimed_by i c \<longrightarrow> claim_unexpired now c))"
    by (induction ops) auto
  then show ?thesis by (simp add: claims_renewed_def rows_matching_def)
qed

lemma renewed_claim_expiry:
  assumes "c \<in> set (renewed_claims i e now ops)" "claimed_by i c"
    and "\<forall>c \<in> set ops. claimed_by i c \<longrightarrow> claim_unexpired now c"
  shows "ao_claim_expires_at c = Some e"
proof -
  from assms(1) obtain d where d: "d \<in> set ops"
    "c = (if claimed_by i d \<and> claim_unexpired now d then d\<lparr>ao_claim_expires_at := Some e\<rparr> else d)"
    unfolding renewed_claims_def in_update_where by blast
  then show ?thesis using assms(2,3) by (cases "claimed_by i d \<and> claim_unexpired now d") auto
qed

text \<open>
  C9. A heartbeat extends the audio claims made under the lease with it or does nothing: on success
  every open claim of the lease runs to the lease's new expiry; if one of them has already
  expired the call fails and neither the lease nor any claim changes.
\<close>

theorem heartbeat_renews_claims:
  assumes "heartbeat_lease i ttl now db = (r, db')"
  shows "(\<forall>l. r = Inr l \<longrightarrow> (\<forall>c \<in> set (audio_extract_operations db') \<union> set (audio_synthesis_operations db').
      claimed_by i c \<longrightarrow> ao_claim_expires_at c = Some (l_expires_at l))) \<and>
    ((\<exists>c \<in> set (audio_extract_operations db) \<union> set (audio_synthesis_operations db).
      claimed_by i c \<and> \<not> claim_unexpired now c) \<longrightarrow> isl r \<and> db' = db)"
proof -
  have ok: "(\<forall>c \<in> set (audio_extract_operations db) \<union> set (audio_synthesis_operations db).
        claimed_by i c \<longrightarrow> claim_unexpired now c) \<and>
      (\<forall>c \<in> set (audio_extract_operations db') \<union> set (audio_synthesis_operations db').
        claimed_by i c \<longrightarrow> ao_claim_expires_at c = Some (l_expires_at l))" if "r = Inr l" for l
  proof -
    from assms that obtain db1 where hb: "heartbeat_in_tx i ttl now db = (Inr l, db1)"
      and ops: "claims_renewed i now (audio_extract_operations db1) = Inr ()"
        "claims_renewed i now (audio_synthesis_operations db1) = Inr ()"
        "audio_extract_operations db' = renewed_claims i (l_expires_at l) now (audio_extract_operations db1)"
        "audio_synthesis_operations db' = renewed_claims i (l_expires_at l) now (audio_synthesis_operations db1)"
      by (auto simp: heartbeat_lease_def heartbeat_lease_in_tx_def bind_tx_Inr bind_i64_Inr
          renew_extract_claims_for_lease_in_tx_def renew_synthesis_claims_for_lease_in_tx_def)
    have "audio_extract_operations db1 = audio_extract_operations db \<and> audio_synthesis_operations db1 = audio_synthesis_operations db"
      using hb by (auto simp: heartbeat_in_tx_def bind_i64_Inr Let_def bind_tx_Inr lease_get_in_tx_def
          split: if_splits option.splits)
    then show ?thesis using ops renewed_claim_expiry unfolding claims_renewed_iff by auto
  qed
  show ?thesis
  proof (cases r)
    case (Inl e)
    then show ?thesis using handlers_atomic(11) assms unfolding atomic_def by auto
  next
    case (Inr l)
    then show ?thesis using ok [OF Inr] by auto
  qed
qed

section \<open>Examples\<close>

text \<open>A run in which a ticket is created, becomes ready and fails before a lease.\<close>

definition example_new_ticket :: new_ticket where
  "example_new_ticket = \<lparr> nt_job_id = None, nt_kind = ''probe_file'', nt_priority = 0, nt_payload = JNull,
     nt_max_attempts = 1, nt_created_at = 0 \<rparr>"

definition run_created :: db where
  "run_created = snd (create_ticket example_new_ticket empty_db)"

definition run_ready :: db where
  "run_ready = snd (promote 1 1 run_created)"

definition run_failed :: db where
  "run_failed = snd (record_pre_lease_ticket_failure 1 failure_class.AmbiguousWorkerSelection 5 0 run_ready)"

lemmas eval_simps = transact_def bind_tx_def return_tx_def throw_tx_def lift_res_def read_tx_def modify_tx_def
  bind_i64_apply bind_i64_option_def append_event_def Let_def

lemma run_created_eq: "run_created = empty_db\<lparr>tickets := [\<lparr> t_id = 1, t_job_id = None, t_kind = ''probe_file'', t_state = Pending,
    t_priority = 0, t_payload = JNull, t_result = None, t_attempt = 0, t_max_attempts = 1, t_next_eligible_at = 0,
    t_created_at = 0, t_state_changed_at = 0, t_epoch = 0 \<rparr>],
    events := [\<lparr> ev_occurred_at = 0, ev_subject_type = TicketSubject, ev_subject_id = Some 1,
      ev_payload = TicketCreatedEvent 1 None ''probe_file'' 0 1 \<rparr>]\<rparr>"
  by (simp add: run_created_def create_ticket_def create_ticket_in_tx_def ticket_create_in_tx_def ticket_get_in_tx_def
      ticket_by_id_def example_new_ticket_def next_rowid_def empty_db_def eval_simps)

lemma run_ready_eq: "run_ready = empty_db\<lparr>tickets := [\<lparr> t_id = 1, t_job_id = None, t_kind = ''probe_file'', t_state = Ready,
    t_priority = 0, t_payload = JNull, t_result = None, t_attempt = 0, t_max_attempts = 1, t_next_eligible_at = 0,
    t_created_at = 0, t_state_changed_at = 1, t_epoch = 1 \<rparr>],
    events := events run_created @ [\<lparr> ev_occurred_at = 1, ev_subject_type = TicketSubject, ev_subject_id = Some 1,
      ev_payload = TicketReadyEvent 1 \<rparr>]\<rparr>"
  by (simp add: run_ready_def run_created_eq promote_def promote_in_tx_def mark_ready_if_unblocked_in_tx_def
      ticket_by_id_def unsucceeded_dependencies_def empty_db_def eval_simps)

lemma run_failed_tickets: "tickets run_failed = [\<lparr> t_id = 1, t_job_id = None, t_kind = ''probe_file'', t_state = Failed,
    t_priority = 0, t_payload = JNull, t_result = None, t_attempt = 1, t_max_attempts = 1, t_next_eligible_at = 0,
    t_created_at = 0, t_state_changed_at = 5, t_epoch = 2 \<rparr>]" "jobs run_failed = []" "leases run_failed = []"
  by (simp_all add: run_failed_def run_ready_eq empty_db_def eval_simps ticket_by_id_def
      record_pre_lease_ticket_failure_def pre_lease_failure_reason_def ticket_get_in_tx_def require_no_held_lease_def
      has_held_for_ticket_in_tx_def transition_pre_lease_failure_ticket_def transition_ready_before_lease_failure_in_tx_def
      emit_pre_lease_failure_event_def open_terminal_failure_issue_in_tx_def open_terminal_failure_in_tx_def
      insert_issue_def insert_issue_link_def issue_checks_def dedupe_key_free_def terminal_failure_issue_def next_rowid_def)

lemma example_calls:
  "cp_step empty_db run_created" "cp_step run_created run_ready" "cp_step run_ready run_failed"
  unfolding cp_step_def run_created_def run_ready_def run_failed_def
  using call_create_ticket [OF surjective_pairing] call_promote [OF surjective_pairing]
    call_pre_lease_failure [OF surjective_pairing] by blast+

lemma example_reachable: "reachable run_ready" "reachable run_failed"
  using reach_init [of "\<lambda>db. db = empty_db" empty_db cp_step] example_calls by (meson reach_step)+

theorem control_plane_refines_core_witness: "act\<^sup>*\<^sup>* (abs_exec run_ready) (abs_exec run_failed) \<and> exec_inv (abs_exec run_failed)"
  using control_plane_refines_core [OF example_reachable(1) example_calls(3)] by blast

theorem reachable_store_is_safe_witness: "attempts_safe run_failed"
  using reachable_store_is_safe [OF example_reachable(2)] by blast

theorem event_log_determines_states_witness: "replay ticket_fact (events run_failed) 1 = Some Failed"
  using event_log_determines_states [OF example_reachable(2), of 1] by (simp add: ticket_by_id_def run_failed_tickets)

theorem failed_ticket_is_filed_witness:
  "\<exists>i \<in> set (issues run_failed). is_dedupe_key i = Some (terminal_failure_dedupe_key 1)"
  using failed_ticket_is_filed [OF example_reachable(2), of "hd (tickets run_failed)"] by (auto simp: run_failed_tickets)



text \<open>A held lease whose ticket another one waits for.\<close>

definition example_release_db :: db where
  "example_release_db = example_held_db\<lparr>tickets := [leased_row 5 example_ticket, example_ticket\<lparr>t_id := 2, t_state := Pending\<rparr>],
     ticket_dependencies := [\<lparr> td_ticket_id = 2, td_depends_on_ticket_id = 1 \<rparr>]\<rparr>"

lemma example_release_good: "good_db example_release_db"
proof -
  have "wf_db example_release_db"
    by (simp add: wf_db_def example_release_db_def example_held_db_def example_workers_simps wf_table_def example_ticket_def
        example_lease_def leased_row_def lease_shape_def)
  moreover have "abs_exec example_release_db = \<lparr> x_tickets = [1 \<mapsto> \<lparr> at_state = Leased, at_attempt = 1, at_max = 3 \<rparr>,
      2 \<mapsto> \<lparr> at_state = Pending, at_attempt = 0, at_max = 3 \<rparr>],
      x_leases = [1 \<mapsto> \<lparr> al_ticket = 1, al_held = True \<rparr>], x_deps = {(2, 1)} \<rparr>"
    by (auto simp: abs_exec_def example_release_db_def example_held_db_def example_workers_simps example_ticket_def table_map_def
        abs_ticket_def dep_edges_def example_lease_def leased_row_def abs_lease_def)
  moreover have "acyclic {(2 :: nat, 1 :: nat)}" by (rule acyclicI_order [of _ id]) auto
  ultimately show ?thesis
    by (auto simp: good_db_def exec_inv_def inv_defs split: if_splits)
qed

lemma example_release_run: "\<exists>l db'. release_lease 1 (JInt 7) 50 example_release_db = (Inr l, db')"
  by (simp add: release_lease_def release_lease_in_tx_def release_in_tx_def close_held_lease_def move_leased_ticket_def
      example_release_db_def example_held_db_def example_workers_simps example_ticket_def example_lease_def leased_row_def
      succeeded_row_def close_row_def rows_matching_def list_dependents_in_tx_def promote_in_tx_def
      mark_ready_if_unblocked_in_tx_def ticket_by_id_def unsucceeded_dependencies_def eval_simps)

theorem release_promotes_dependents_witness:
  "\<exists>db'. snd (release_lease 1 (JInt 7) 50 example_release_db) = db' \<and> map t_state (tickets db') = [Succeeded, Ready]"
proof -
  obtain l db' where run: "release_lease 1 (JInt 7) 50 example_release_db = (Inr l, db')" using example_release_run by blast
  from release_promotes_dependents [OF example_release_good run] show ?thesis unfolding run
    by (auto simp: example_release_db_def example_held_db_def example_ticket_def leased_row_def succeeded_row_def
        ready_row_def dep_edges_def example_lease_def)
qed

theorem expiry_sweeps_end_witness: "filter (overdue 101) (leases (sweeps 101 1 example_held_db)) = []"
proof -
  have "\<forall>t \<in> set (tickets example_held_db). t_max_attempts t < 2 ^ 32"
    "length (filter (overdue 101) (leases example_held_db)) \<le> 1 * LEASE_BATCH_LIMIT"
    by (simp_all add: example_held_db_def example_ticket_def leased_row_def LEASE_BATCH_LIMIT_def)
  from expiry_sweeps_end [OF example_held_good this] show ?thesis by (simp add: filter_empty_conv)
qed

text \<open>A routing ticket whose lease expires on its last attempt, and the running scan it routes.\<close>

definition example_routing :: workflow_ticket_payload where
  "example_routing = \<lparr> wp_workflow_id = ''scan-run'', wp_plan_id = ''1'', wp_node_id = ''1'', wp_branch_id = ''scan-run-1'',
     wp_operation = ScanLibrary,
     wp_rendered_payload = JObject [(''operation'', JString ''scan_library''), (''scan_session_id'', JString ''1''),
       (''source_storage_root_id'', JInt 1)],
     wp_timing = \<lparr> et_duration_ms = 0, et_progress_interval_ms = 0 \<rparr>, wp_source_file = None,
     wp_declared_artifact_access = Some [\<lparr> ae_target = StorageRoot 1, ae_rights = [RightRead] \<rparr>] \<rparr>"

definition example_routing_ticket :: ticket where
  "example_routing_ticket = \<lparr> t_id = 1, t_job_id = None, t_kind = ''synthetic.workflow.operation.scan_library'',
     t_state = Leased, t_priority = 0, t_payload = JObject (payload_to_json example_routing), t_result = None, t_attempt = 1,
     t_max_attempts = 1, t_next_eligible_at = 0, t_created_at = 0, t_state_changed_at = 0, t_epoch = 0 \<rparr>"

definition example_routing_db :: db where
  "example_routing_db = example_scan_db\<lparr>tickets := [example_routing_ticket], leases := [example_lease]\<rparr>"

lemma example_routing_inv: "store_inv example_routing_db"
proof -
  have "wf_db example_routing_db"
    by (simp add: wf_db_def example_routing_db_def example_scan_db_def empty_db_def wf_table_def example_routing_ticket_def
        example_lease_def lease_shape_def)
  moreover have "abs_exec example_routing_db = \<lparr> x_tickets = [1 \<mapsto> \<lparr> at_state = Leased, at_attempt = 1, at_max = 1 \<rparr>],
      x_leases = [1 \<mapsto> \<lparr> al_ticket = 1, al_held = True \<rparr>], x_deps = {} \<rparr>"
    by (simp add: abs_exec_def example_routing_db_def example_scan_db_def empty_db_def example_routing_ticket_def table_map_def
        abs_ticket_def dep_edges_def example_lease_def abs_lease_def)
  ultimately have "good_db example_routing_db"
    by (auto simp: good_db_def exec_inv_def inv_defs acyclic_def split: if_splits)
  moreover have "same_scans example_scan_db example_routing_db" by (simp add: same_scans_def example_routing_db_def)
  ultimately show ?thesis using example_scan_inv scan_inv_same [of example_scan_db example_routing_db]
    by (simp add: store_inv_def issue_inv_def failures_filed_def example_routing_db_def example_scan_db_def empty_db_def)
qed

lemma example_routing_parses:
  "parse_ticket ''synthetic.workflow.operation.scan_library'' (JObject (payload_to_json example_routing)) = Some example_routing"
proof -
  have typed: "payload_typed example_routing" "wp_source_file example_routing \<noteq> Some JNull"
    by (simp_all add: payload_typed_def example_routing_def u64_def validate_declaration_def validate_rights_def)
  have "rendered_source example_routing = Some (SourceRoot 1)"
    by (simp add: rendered_source_def rendered_source_id_def json_get_def example_routing_def)
  moreover have "declaration_for ScanLibrary (Some (SourceRoot 1)) = Inr (wp_declared_artifact_access example_routing)"
    by (simp add: declaration_for_def entries_for_def source_location_def access_entry_def access_target_def
      artifact_access_declaration_new_def validate_declaration_def validate_rights_def example_routing_def)
  ultimately have valid: "validate_artifact_access example_routing"
    by (simp add: validate_artifact_access_def example_routing_def)
  have op: "wp_operation example_routing = ScanLibrary" by (simp add: example_routing_def)
  have "render_operation ScanLibrary (wp_rendered_payload example_routing) = Some (wp_rendered_payload example_routing)"
    by (simp add: render_operation_def example_routing_def)
  from encoded_parses [OF typed valid, unfolded op, OF this] show ?thesis by (simp add: WORKFLOW_OPERATION_NAMESPACE_def)
qed

lemma show_one: "show_nat 1 = ''1''"
  by (simp add: show_nat.simps char_of_eq_iff take_bit_eq_mod)

lemma example_routing_names:
  "json_index (JObject (payload_to_json example_routing)) ''workflow_id'' = JString ''scan-run''"
  "scan_routing example_routing = Inr (1, 1, 1)"
proof -
  have "canonical_text_id (Some ''1'') = Inr 1"
    using show_one by (simp add: canonical_text_id_def parse_u64_def read_nat_def)
  then show "scan_routing example_routing = Inr (1, 1, 1)"
    using show_one by (simp add: scan_routing_def example_routing_def json_index_def json_get_def)
qed (simp add: payload_to_json_def example_routing_def json_index_def json_get_def)

lemma example_reason: "validate_terminal_reason ''routing ticket 1 failed''"
  by code_simp

lemma example_scan_valid:
  "row_to_scan_session example_scan = Inr example_scan"
  "scan_session_checks (terminal_row ScanFailed ''routing ticket 1 failed'' now example_scan)"
proof -
  show valid: "row_to_scan_session example_scan = Inr example_scan"
    by (simp add: row_to_scan_session_def optional_terminal_reason_def validate_scan_session_def example_scan_def
        has_coherent_progress_counters_def has_valid_lifecycle_shape_def scan_is_active_def has_start_bindings_def)
  show "scan_session_checks (terminal_row ScanFailed ''routing ticket 1 failed'' now example_scan)"
    by (simp add: scan_session_checks_def terminal_row_def example_scan_def sql_trimmed_def NUL_def)
qed

lemma example_routing_settles:
  assumes db: "scan_sessions db = [example_scan]" "file_locations db = file_locations example_scan_db"
    "node_incarnations db = node_incarnations example_scan_db"
  shows "\<exists>db'. fail_scan_for_failed_ticket_in_tx (failed_row 101 example_routing_ticket) 101 db = (Inr (), db') \<and> tickets db' = tickets db"
proof -
  let ?failed = "terminal_row ScanFailed ''routing ticket 1 failed'' 101 example_scan"
  have reason: "scan_terminal_reason_new (''routing ticket '' @ show_nat 1 @ '' failed'') = Inr ''routing ticket 1 failed''"
    using example_reason by (simp add: scan_terminal_reason_new_def show_one [simplified])
  have scan [simp]: "ss_id example_scan = 1" "ss_status example_scan = ScanRunning" "ss_owner_node_id example_scan = 1"
    "ss_storage_root_id example_scan = 1" "ss_owner_incarnation_id example_scan = Some ''i''"
    by (simp_all add: example_scan_def)
  have get: "scan_get_in_tx 1 db = (Inr (Some example_scan), db)" "mutation_session_in_tx 1 db = (Inr (Some example_scan), db)"
    using example_scan_valid(1) db
    by (simp_all add: scan_get_in_tx_def mutation_session_in_tx_def optional_row_def row_to_inspected_scan_session_def
        row_to_mutation_session_def scan_session_by_id_def bind_i64_apply example_scan_db_def
        validate_scan_session_integrity_def attributed_location_count_def owner_incarnation_valid_def
        incarnation_by_id_def rows_matching_def)
  have row: "row_to_scan_session ?failed = Inr ?failed"
    using example_scan_valid(2) checks_iff_decodes by blast
  have ended: "terminalize_in_tx 1 ScanFailed ''routing ticket 1 failed'' 101 db = (Inr ?failed, db\<lparr>scan_sessions := [?failed]\<rparr>)"
    using get row example_scan_valid(2) db
    by (simp add: terminalize_in_tx_def eval_simps update_scan_sessions_def scan_active_status_def)
  show ?thesis
    by (simp add: fail_scan_for_failed_ticket_in_tx_def routes_scan_run_def failed_row_def example_routing_ticket_def
       example_routing_names example_routing_parses eval_simps get reason ended append_lifecycle_event_def terminal_row_def
       del: One_nat_def append.simps)
qed

lemma example_routing_expires:
  "expire_due_in_tx 101 example_routing_db = (Inr \<lparr> er_expired_leases = [1], er_requeued_tickets = [], er_failed_expiries =
      [\<lparr> fe_lease_id = 1, fe_ticket_id = 1, fe_attempt = 1, fe_max_attempts = 1 \<rparr>], er_pairs = [(1, 1)] \<rparr>,
    example_routing_db\<lparr>tickets := [failed_row 101 example_routing_ticket],
      leases := [close_row Expired IssuerLost 101 example_lease]\<rparr>)"
proof -
  have [simp]: "leases example_routing_db = [example_lease]" "tickets example_routing_db = [example_routing_ticket]"
    by (simp_all add: example_routing_db_def)
  have [simp]: "l_id example_lease = 1" "l_ticket_id example_lease = 1" "l_state example_lease = Held" "overdue 101 example_lease"
    by (simp_all add: example_lease_def overdue_def)
  have [simp]: "t_id example_routing_ticket = 1" "t_state example_routing_ticket = Leased" "t_attempt example_routing_ticket = 1"
      "t_max_attempts example_routing_ticket = 1"
    by (simp_all add: example_routing_ticket_def)
  have [simp]: "fetch_ticket_attempts example_routing_db [Suc 0] = [Suc 0 \<mapsto> (1, 1)]"
    by (simp add: fetch_ticket_attempts_def TICKET_ATTEMPT_CHUNK_def chunks.simps)
  show ?thesis
    by (simp add: expire_due_in_tx_def LEASE_BATCH_LIMIT_def process_expired_lease_def empty_report_def
        move_leased_ticket_def rows_matching_def u32_from_i64_def ticket_by_id_def eval_simps)
qed

lemma example_routing_run: "\<exists>report db'. expire_due 101 example_routing_db = (Inr report, db') \<and>
    er_pairs report = [(1, 1)] \<and> tickets db' = [failed_row 101 example_routing_ticket]"
proof -
  let ?t = "failed_row 101 example_routing_ticket"
  obtain report db1 where exp: "expire_due_in_tx 101 example_routing_db = (Inr report, db1)"
    and report: "er_pairs report = [(1, 1)]" "er_requeued_tickets report = []"
      "er_failed_expiries report = [\<lparr> fe_lease_id = 1, fe_ticket_id = 1, fe_attempt = 1, fe_max_attempts = 1 \<rparr>]"
    and db1: "tickets db1 = [?t]" "scan_sessions db1 = [example_scan]" "file_locations db1 = file_locations example_scan_db"
      "node_incarnations db1 = node_incarnations example_scan_db" "issues db1 = []" "issue_links db1 = []"
    using example_routing_expires by (simp add: example_routing_db_def example_scan_db_def empty_db_def)
  obtain db2 where emit: "emit_expire_pair 1 1 report 101 db1 = (Inr (), db2)"
    and db2: "tickets db2 = [?t]" "scan_sessions db2 = [example_scan]" "file_locations db2 = file_locations example_scan_db"
    "node_incarnations db2 = node_incarnations example_scan_db"
    using db1 report by (simp add: emit_expire_pair_def open_terminal_failure_issue_in_tx_def open_terminal_failure_in_tx_def eval_simps
      insert_issue_def insert_issue_link_def issue_checks_def dedupe_key_free_def terminal_failure_issue_def next_rowid_def)
  obtain db3 where "fail_scan_for_failed_ticket_in_tx ?t 101 db2 = (Inr (), db3)" "tickets db3 = [?t]"
    using example_routing_settles [OF db2(2-4)] db2(1) by auto
  moreover have "ticket_get_in_tx 1 db2 = (Inr (Some ?t), db2)"
    using db2(1) by (simp add: ticket_get_in_tx_def ticket_by_id_def eval_simps failed_row_def example_routing_ticket_def)
  ultimately have "settle_expired_pair report 101 (1, 1) db1 = (Inr (), db3)"
    using emit report by (simp add: settle_expired_pair_def bind_tx_def)
  then have "expire_due 101 example_routing_db = (Inr report, db3)"
    using exp report by (simp add: expire_due_def transact_def bind_tx_def return_tx_def)
  then show ?thesis using report(1) \<open>tickets db3 = [?t]\<close> by blast
qed

theorem expired_routing_ticket_ends_scan_witness:
  "routed_session_ended (snd (expire_due 101 example_routing_db)) (failed_row 101 example_routing_ticket)"
proof -
  obtain report db' where run: "expire_due 101 example_routing_db = (Inr report, db')" "er_pairs report = [(1, 1)]"
    "tickets db' = [failed_row 101 example_routing_ticket]" using example_routing_run by blast
  have "routes_scan_run (failed_row 101 example_routing_ticket)"
    by (simp add: routes_scan_run_def failed_row_def example_routing_ticket_def example_routing_names)
  with expired_routing_ticket_ends_scan [OF example_routing_inv run(1), of "failed_row 101 example_routing_ticket"] run
  show ?thesis by (simp add: failed_row_def example_routing_ticket_def)
qed

definition example_claimed_db :: db where
  "example_claimed_db = example_held_db\<lparr>audio_synthesis_operations := [\<lparr> ao_operation_key = ''k'', ao_committed = False,
     ao_claim_lease_id = Some 1, ao_claim_token = Some ''t'', ao_claim_expires_at = Some 100 \<rparr>]\<rparr>"

lemma example_heartbeat: "\<exists>l c db'. heartbeat_lease 1 60 50 example_claimed_db = (Inr l, db') \<and>
    audio_synthesis_operations db' = [c] \<and> claimed_by 1 c"
  by (simp add: heartbeat_lease_def heartbeat_lease_in_tx_def heartbeat_in_tx_def lease_get_in_tx_def lease_by_id_def
      renew_extract_claims_for_lease_in_tx_def renew_synthesis_claims_for_lease_in_tx_def claims_renewed_def renewed_claims_def
      claimed_by_def claim_unexpired_def rows_matching_def heartbeat_row_def example_claimed_db_def example_held_db_def
      example_workers_simps example_lease_def eval_simps)

theorem heartbeat_renews_claims_witness:
  "\<exists>l c db'. heartbeat_lease 1 60 50 example_claimed_db = (Inr l, db') \<and> audio_synthesis_operations db' = [c] \<and>
     ao_claim_expires_at c = Some (l_expires_at l)"
proof -
  obtain l c db' where run: "heartbeat_lease 1 60 50 example_claimed_db = (Inr l, db')"
    "audio_synthesis_operations db' = [c]" "claimed_by 1 c" using example_heartbeat by blast
  with heartbeat_renews_claims [OF run(1)] show ?thesis by auto
qed

end
