(* ===== verification/Spec2Isabelle.thy ===== *)
theory Spec2Isabelle
  imports Scheduler Listings Scan_Completion Execution_Properties
begin

text \<open>
  A verification library for voom, a control plane that schedules media operations over a SQLite store.

  \<^bold>\<open>The program.\<close> A \<^emph>\<open>ticket\<close> is a unit of work, possibly part of a \<^emph>\<open>job\<close> and
  possibly dependent on other tickets. A \<^emph>\<open>worker\<close> obtains a ticket by acquiring a \<^emph>\<open>lease\<close>
  on it, keeps the lease alive with heartbeats and ends it by releasing it with a result or by failing
  it; a lease nobody renews is expired by a sweep and an operator may release one by force. A ticket
  that fails is retried with a backoff until its attempts are spent, and then filed as an
  \<^emph>\<open>issue\<close>. A \<^emph>\<open>scan session\<close> walks a storage root: its owner node delivers batches of
  observations into a ledger, and completing the session retires the locations it did not see. Every
  change of the store is made in a transaction of a control-plane handler, which also appends
  \<^emph>\<open>events\<close> to a log.

  \<^bold>\<open>The theories\<close>, in the order they build on each other (paths below \<^verbatim>\<open>crates\<close> unless they say
  otherwise):

  \<^item> \<open>Voom_Prelude\<close>: JSON values and the SQL statements on tables of rows, with the interfaces several
    components share: \<open>wire_vocab\<close> (an enum and its wire names), \<open>lifecycle\<close> (absorbing terminal
    states), \<open>invariant_system\<close> (inductive invariants of a transition system) and \<open>preference\<close> (the
    choice of a best candidate).
  \<^item> \<open>Voom_Errors\<close>, \<open>Taxonomy\<close>: \<^verbatim>\<open>voom-core/src/error.rs\<close> and \<^verbatim>\<open>voom-core/src/taxonomy\<close>: errors as a sum type,
    failure classes with their retry class, operations, the vocabularies of workers and nodes; and
    transactions (\<open>tx\<close>, with \<open>transact\<close> for begin, commit and rollback).
  \<^item> \<open>Store\<close>: the rows and tables of \<^verbatim>\<open>migrations/0001_schema.sql\<close> that the modelled code reads or
    writes, as the record \<open>db\<close>, and the event payloads of \<^verbatim>\<open>voom-events\<close>.
  \<^item> \<open>Scheduler\<close>: \<^verbatim>\<open>voom-scheduler/src/lib.rs\<close>, the whole crate.
  \<^item> \<open>Exec_Spec\<close>: the abstract specification of the execution core, a transition system over maps of
    tickets and leases, its invariant, and the abstraction \<open>abs_exec\<close> of a store.
  \<^item> \<open>Jobs\<close>, \<open>Tickets\<close>, \<open>Workers\<close>, \<open>Leases\<close>, \<open>Issues\<close>: the repositories \<^verbatim>\<open>jobs.rs\<close>, \<^verbatim>\<open>tickets.rs\<close>,
    \<^verbatim>\<open>workers.rs\<close> (with \<^verbatim>\<open>accelerator_claims.rs\<close> and \<^verbatim>\<open>scheduler_node_limits.rs\<close>), \<^verbatim>\<open>leases.rs\<close> of
    \<^verbatim>\<open>voom-store/src/repo/execution\<close> and \<^verbatim>\<open>voom-store/src/repo/issues.rs\<close>. \<open>Listings\<close>: the keyset
    pagination they share.
  \<^item> \<open>Locators\<close>: storage locators, \<^verbatim>\<open>voom-core/src/taxonomy/storage.rs\<close>.
  \<^item> \<open>Scan_Sessions\<close>, \<open>Scan_Ledger\<close>, \<open>Scan_Completion\<close>: \<^verbatim>\<open>voom-store/src/repo/scan/sessions.rs\<close>, its
    operations, its invariant, and what completion does.
  \<^item> \<open>Ticket_Payload\<close>: the payload of a workflow ticket and the storage access it declares,
    \<^verbatim>\<open>voom-control-plane/src/workflow/plan\<close>, with its JSON form.
  \<^item> \<open>Control_Plane\<close>: the handlers of \<^verbatim>\<open>voom-control-plane/src/cases/execution\<close>, the operator's handlers of
    \<^verbatim>\<open>cases/policy/issues.rs\<close> and the recovery of scans in \<^verbatim>\<open>scan/recovery.rs\<close>: each one the composition
    of repository operations and events the source has, inside \<open>transact\<close>.
  \<^item> \<open>Execution\<close>, \<open>Execution_Runs\<close>, \<open>Execution_Properties\<close>: what every handler keeps, runs of the control plane
    as handlers called in any order (\<open>call\<close>, \<open>cp_step\<close>, \<open>reachable\<close>), and the properties of runs.

  \<^bold>\<open>How the code is modelled.\<close> An operation is a function from a store to a result and a
  store, with the name of the Rust function where HOL allows it (a repository operation
  \<^verbatim>\<open>create_in_tx\<close> of jobs is \<open>job_create_in_tx\<close>); \<open>bind_tx\<close> is \<^verbatim>\<open>?\<close> and \<^verbatim>\<open>.await\<close>, an early return is
  \<open>throw_tx\<close>, a loop over rows is \<open>for_tx\<close> or a structural recursion. An \<^verbatim>\<open>UPDATE\<close> is
  \<open>update_where\<close>, \<^verbatim>\<open>rows_affected\<close> is \<open>rows_matching\<close>, \<^verbatim>\<open>RETURNING\<close> and \<^verbatim>\<open>SELECT\<close> read
  the list of rows, \<^verbatim>\<open>ORDER BY id\<close> is a stable sort. A \<^verbatim>\<open>CHECK\<close>, a unique index or a foreign key
  a write can violate is a branch of that write that returns a database error. The clock a handler reads and the
  random number it draws are arguments. Instants are nanoseconds; ids are naturals, checked to fit
  \<^verbatim>\<open>i64\<close> where the code binds them; counters and scores are unbounded here with the bounds proved
  (\<open>score_candidate_range\<close>) or checked as in the code (\<open>u32_from_i64\<close>). SQLite runs
  writing transactions one after the other, so that runs interleave whole handlers.

  \<^bold>\<open>What the theorems show.\<close>

  \<^item> Refinement and invariants: every call of the control plane is a run of the abstract core, which
    keeps held leases and leased tickets in one-to-one correspondence, attempts within their limit and
    dependencies acyclic and respected; a call that fails leaves no trace; what has ended stays ended.
  \<^item> The log: replaying the events gives the state of every job, ticket and lease, and every failed
    ticket is filed under one issue that the log names.
  \<^item> Each lease operation, on every branch: acquisition grants only what may be granted and spends one
    attempt; release promotes exactly the unblocked dependents; failure, expiry and forced release
    requeue or fail the ticket; a heartbeat renews the audio claims of its lease or changes nothing.
    Repeated sweeps end: each settles at most \<open>LEASE_BATCH_LIMIT\<close> leases, and as many sweeps as the
    backlog has batches leave nothing overdue.
  \<^item> Tickets, jobs, workers, issues: dependencies are added exactly when they close no cycle (the recursive query
    is the transitive closure), promotion happens exactly when nothing blocks, issue keys stay unique
    and constraints hold, worker ownership stays exclusive.
  \<^item> Scans: at most one active session per root, contiguous ledgers, replay of a batch writes nothing,
    completion retires exactly the unobserved locations and none a commit pins, reading back returns
    what was delivered, and a sweep that fails a routing ticket ends its session.
  \<^item> Scheduling, listings, payloads, locators: the best candidate is selected whatever the order, scores fit
    \<^verbatim>\<open>i64\<close>, following a listing's cursor visits every row once, payloads round-trip and claim only
    canonical access, locators stay below their root.

  \<^bold>\<open>Bounds.\<close> No definition uses fuel: every loop of the modelled code runs over a list of rows or
  a page sequence, and the recursions that are not structural (\<open>show_nat\<close>, \<open>chunks\<close>, \<open>all_pages\<close>,
  \<open>paged_fold\<close>, \<open>dep_reach\<close>, \<open>all_whitespace\<close>) have termination proofs.

  \<^bold>\<open>What is not modelled.\<close> Message texts of errors; failures of the database connection, of
  formatting or of arithmetic on dates, of decoding a row of the right type, and exhaustion of row ids; the encoding of
  instants as text, whose order is that of the instants; floating-point JSON numbers. Of the program: the
  asynchronous coordinator and executor, the worker protocol, the node agent, the workers and
  the HTTP and command-line surfaces are process, network and file I/O; the policy language, the
  planner and the media identity, artifact and library repositories are further components beside the ones
  here. The record \<open>db\<close> holds only the columns of other components that the modelled code
  reads, and \<open>elsewhere\<close> lets every other part of the system change those between two calls.
\<close>

end
